(* ===== verification/Prelude.thy ===== *)
theory Prelude
  imports
    Main
    "HOL-Library.AList"
    "HOL-Library.Char_ord"
    "HOL-Library.List_Lexorder"
    "HOL-Library.Sublist"
begin

text \<open>
  Shared vocabulary of the development: the association lists that stand for Go maps, the error
  values, the string functions of Go's \<open>strings\<close> package that the program calls, and
  64-bit signed arithmetic. The generic lemmas the component theories rely on are declared
  \<open>simp\<close> or collected in the named theorems below.
\<close>

named_theorems gomap_simps \<open>lookup equations of the association lists that stand for Go maps\<close>
named_theorems defs \<open>definitions of the small accessors that proofs unfold together\<close>

section \<open>Go maps\<close>

text \<open>
  A Go map is an association list with distinct keys. The position of an entry stands for the
  iteration order of \<open>range\<close>, which Go leaves unspecified: the theorems hold for every
  association list and therefore for every iteration order.
\<close>

type_synonym ('k, 'v) gomap = "('k \<times> 'v) list"

abbreviation gm_get :: "('k, 'v) gomap \<Rightarrow> 'k \<Rightarrow> 'v option" where
  "gm_get m k \<equiv> map_of m k"

abbreviation gm_put :: "'k \<Rightarrow> 'v \<Rightarrow> ('k, 'v) gomap \<Rightarrow> ('k, 'v) gomap" where
  "gm_put k v m \<equiv> AList.update k v m"

abbreviation gm_del :: "'k \<Rightarrow> ('k, 'v) gomap \<Rightarrow> ('k, 'v) gomap" where
  "gm_del k m \<equiv> AList.delete k m"

abbreviation gm_inv :: "('k, 'v) gomap \<Rightarrow> bool" where
  "gm_inv m \<equiv> distinct (map fst m)"

declare map_of_eq_Some_iff [simp del] Some_eq_map_of_iff [simp del]

lemma gm_get_put [simp, gomap_simps]:
  "gm_get (gm_put k v m) k' = (if k' = k then Some v else gm_get m k')"
  by (simp add: update_conv')

lemma gm_get_del [simp, gomap_simps]:
  "gm_get (gm_del k m) k' = (if k' = k then None else gm_get m k')"
  by (simp add: delete_conv')

lemma gm_inv_put [simp]: "gm_inv m \<Longrightarrow> gm_inv (gm_put k v m)"
  by (rule distinct_update)

lemma gm_inv_del [simp]: "gm_inv m \<Longrightarrow> gm_inv (gm_del k m)"
  by (rule distinct_delete)

lemma gm_get_in_set: "gm_inv m \<Longrightarrow> (k, v) \<in> set m \<longleftrightarrow> gm_get m k = Some v"
  by (simp add: map_of_eq_Some_iff)

lemma set_gm_put: "gm_inv m \<Longrightarrow> (k', v') \<in> set (gm_put k v m) \<longleftrightarrow>
    (if k' = k then v' = v else (k', v') \<in> set m)"
  using gm_get_in_set[OF gm_inv_put, of m k' v' k v] gm_get_in_set[of m k' v'] by auto

lemma set_gm_del: "gm_inv m \<Longrightarrow> (k', v') \<in> set (gm_del k m) \<longleftrightarrow> k' \<noteq> k \<and> (k', v') \<in> set m"
  using gm_get_in_set[OF gm_inv_del, of m k' v' k] gm_get_in_set[of m k' v'] by auto

lemma gm_dom: "dom (gm_get m) = fst ` set m"
  by (rule dom_map_of_conv_image_fst)

lemma gm_size_zero: "length m = 0 \<longleftrightarrow> (\<forall>k. gm_get m k = None)"
  by (cases m) (auto dest: spec)

text \<open>
  The interface of a finite store, as every component that keeps a Go map relies on it: what a
  lookup returns after a write or a deletion, and that the operations keep the representation
  invariant.
\<close>

locale finite_store =
  fixes empty :: "'m"
    and get :: "'m \<Rightarrow> 'k \<Rightarrow> 'v option"
    and put :: "'k \<Rightarrow> 'v \<Rightarrow> 'm \<Rightarrow> 'm"
    and del :: "'k \<Rightarrow> 'm \<Rightarrow> 'm"
    and invar :: "'m \<Rightarrow> bool"
  assumes get_empty: "get empty k = None"
    and get_put: "invar m \<Longrightarrow> get (put k v m) k' = (if k' = k then Some v else get m k')"
    and get_del: "invar m \<Longrightarrow> get (del k m) k' = (if k' = k then None else get m k')"
    and invar_empty: "invar empty"
    and invar_put: "invar m \<Longrightarrow> invar (put k v m)"
    and invar_del: "invar m \<Longrightarrow> invar (del k m)"
begin

lemma dom_put: "invar m \<Longrightarrow> dom (get (put k v m)) = insert k (dom (get m))"
  by (auto simp: get_put split: if_splits)

lemma dom_del: "invar m \<Longrightarrow> dom (get (del k m)) = dom (get m) - {k}"
  by (auto simp: get_del split: if_splits)

lemma put_put_get: "invar m \<Longrightarrow> get (put k w (put k v m)) = get (put k w m)"
  by (rule ext) (simp add: get_put invar_put)

lemma del_put_get: "invar m \<Longrightarrow> get m k = None \<Longrightarrow> get (del k (put k v m)) = get m"
  by (rule ext) (simp add: get_put get_del invar_put)

lemma put_commute_get:
  "invar m \<Longrightarrow> k \<noteq> k' \<Longrightarrow> get (put k v (put k' v' m)) = get (put k' v' (put k v m))"
  by (rule ext) (simp add: get_put invar_put)

end

interpretation gm: finite_store "[]" gm_get gm_put gm_del gm_inv
  by unfold_locales simp_all

section \<open>Errors\<close>

text \<open>
  Go's \<open>error\<close> interface. Errors of code outside the repository are \<open>ErrNotFound\<close>
  (an API status error with reason NotFound), \<open>ErrTooManyRequests\<close>,
  \<open>ErrUIDMismatch\<close> (a failed delete precondition) and \<open>ErrOther\<close> with the message.
  \<open>Errorf\<close> is an error the program builds itself with \<open>fmt.Errorf\<close>: the format
  string and the string arguments; \<open>Wrapf\<close> is one whose last argument is another error,
  formatted with \<open>%v\<close>, which does not wrap it, so the predicates below do not look inside.
\<close>

datatype error =
    ErrNotFound
  | ErrTooManyRequests
  | ErrUIDMismatch
  | ErrOther string
  | Errorf string "string list"
  | Wrapf string "string list" error
  | Errors string "error list"

fun IsNotFound :: "error \<Rightarrow> bool" where
  "IsNotFound ErrNotFound = True"
| "IsNotFound _ = False"

fun IsTooManyRequests :: "error \<Rightarrow> bool" where
  "IsTooManyRequests ErrTooManyRequests = True"
| "IsTooManyRequests _ = False"

lemma IsNotFound_iff [simp]: "IsNotFound e \<longleftrightarrow> e = ErrNotFound"
  by (cases e) auto

type_synonym 'a result = "error + 'a"

section \<open>Strings\<close>

text \<open>
  \<open>strings.Split(s, sep)\<close> for a one-character separator: never empty, and
  \<open>Split("", sep)\<close> is one empty piece. \<open>strings.Join\<close> is its inverse.
  \<open>strings.HasPrefix\<close> is \<^const>\<open>prefix\<close>.
\<close>

fun Split :: "string \<Rightarrow> char \<Rightarrow> string list" where
  "Split [] c = [[]]"
| "Split (x # xs) c =
     (if x = c then [] # Split xs c
      else (case Split xs c of [] \<Rightarrow> [[x]] | p # ps \<Rightarrow> (x # p) # ps))"

fun Join_with :: "string \<Rightarrow> string list \<Rightarrow> string" where
  "Join_with sep [] = []"
| "Join_with sep [p] = p"
| "Join_with sep (p # ps) = p @ sep @ Join_with sep ps"

lemma Split_not_Nil [simp]: "Split s c \<noteq> []"
  by (induction s) (auto split: list.splits)

lemma Join_with_Cons: "ps \<noteq> [] \<Longrightarrow> Join_with sep (p # ps) = p @ sep @ Join_with sep ps"
  by (cases ps) auto

lemma Join_Split [simp]: "Join_with [c] (Split s c) = s"
proof (induction s)
  case Nil
  then show ?case by simp
next
  case (Cons x xs)
  then show ?case
    by (cases "Split xs c" rule: list.exhaust; cases "tl (Split xs c)")
      (auto simp: Join_with_Cons)
qed

lemma Split_no_sep: "p \<in> set (Split s c) \<Longrightarrow> c \<notin> set p"
  by (induction s arbitrary: p) (auto split: list.splits if_splits)

lemma Split_single: "c \<notin> set s \<Longrightarrow> Split s c = [s]"
  by (induction s) auto

lemma Split_append_sep: "c \<notin> set p \<Longrightarrow> Split (p @ c # s) c = p # Split s c"
  by (induction p) auto

lemma Split_Join:
  "ps \<noteq> [] \<Longrightarrow> \<forall>p\<in>set ps. c \<notin> set p \<Longrightarrow> Split (Join_with [c] ps) c = ps"
proof (induction ps)
  case (Cons p ps)
  then show ?case
    by (cases ps) (auto simp: Split_single Split_append_sep)
qed simp

text \<open>Decimal printing, the verb \<open>%d\<close>.\<close>

definition dec_digit :: "nat \<Rightarrow> char" where
  "dec_digit d = ''0123456789'' ! d"

fun dec_nat :: "nat \<Rightarrow> string" where
  "dec_nat n = (if n < 10 then [dec_digit n] else dec_nat (n div 10) @ [dec_digit (n mod 10)])"

declare dec_nat.simps [simp del]

definition dec_int :: "int \<Rightarrow> string" where
  "dec_int i = (if i < 0 then CHR ''-'' # dec_nat (nat (- i)) else dec_nat (nat i))"

definition undec_digit :: "char \<Rightarrow> nat" where
  "undec_digit c = of_char c - 48"

definition undec :: "string \<Rightarrow> nat" where
  "undec s = foldl (\<lambda>n c. 10 * n + undec_digit c) 0 s"

lemma undec_dec_digit: "d < 10 \<Longrightarrow> undec_digit (dec_digit d) = d"
proof -
  have "\<forall>d\<in>set [0..<10]. undec_digit (dec_digit d) = d" by code_simp
  then show "d < 10 \<Longrightarrow> undec_digit (dec_digit d) = d" by simp
qed

lemma undec_dec_nat: "undec (dec_nat n) = n"
proof (induction n rule: dec_nat.induct)
  case (1 n)
  show ?case
  proof (cases "n < 10")
    case True
    then show ?thesis by (simp add: dec_nat.simps[of n] undec_def undec_dec_digit)
  next
    case False
    with 1 have "undec (dec_nat (n div 10)) = n div 10" by simp
    with False show ?thesis by (simp add: dec_nat.simps[of n] undec_def undec_dec_digit)
  qed
qed

lemma dec_nat_inject [simp]: "dec_nat m = dec_nat n \<longleftrightarrow> m = n"
  by (metis undec_dec_nat)

section \<open>64-bit signed integers\<close>

text \<open>
  \<open>int64\<close> values are integers; arithmetic that may leave the range is followed by
  \<open>wrap64\<close>. Go's integer division truncates towards zero.
\<close>

definition wrap64 :: "int \<Rightarrow> int" where
  "wrap64 x = (x + 2 ^ 63) mod 2 ^ 64 - 2 ^ 63"

definition int64 :: "int \<Rightarrow> bool" where
  "int64 x \<longleftrightarrow> - (2 ^ 63) \<le> x \<and> x < 2 ^ 63"

lemma wrap64_int64 [simp]: "int64 x \<Longrightarrow> wrap64 x = x"
  by (simp add: wrap64_def int64_def)

lemma int64_wrap64 [simp]: "int64 (wrap64 x)"
proof -
  have "0 \<le> (x + 2 ^ 63) mod 2 ^ 64" and "(x + 2 ^ 63) mod 2 ^ 64 < 2 ^ 64"
    by simp_all
  then show ?thesis by (simp add: wrap64_def int64_def)
qed

definition quot64 :: "int \<Rightarrow> int \<Rightarrow> int" where
  "quot64 a b = sgn a * sgn b * (\<bar>a\<bar> div \<bar>b\<bar>)"

lemma quot64_nonneg: "0 \<le> a \<Longrightarrow> 0 < b \<Longrightarrow> quot64 a b = a div b"
  by (cases "a = 0") (simp_all add: quot64_def sgn_if)

lemma quot64_neg_le: "a < 0 \<Longrightarrow> 0 < b \<Longrightarrow> quot64 a b \<le> 0"
  by (simp add: quot64_def sgn_if pos_imp_zdiv_nonneg_iff)

section \<open>Lists\<close>

lemma foldl_invariant:
  "P s \<Longrightarrow> (\<And>s x. x \<in> set xs \<Longrightarrow> P s \<Longrightarrow> P (f s x)) \<Longrightarrow> P (foldl f s xs)"
  by (induction xs arbitrary: s) auto

lemma find_Some_iff_mem: "find P xs = Some x \<Longrightarrow> x \<in> set xs \<and> P x"
  by (induction xs) (auto split: if_splits)

end
