(* ===== verification/Kube_Types.thy ===== *)
theory Kube_Types
  imports Prelude
begin

text \<open>
  The Kubernetes API objects of \<open>k8s.io/api\<close> and \<open>k8s.io/apimachinery\<close> that the program
  reads and writes, restricted to the fields it uses. Go's nil maps, slices and pointers that the
  program compares with \<open>nil\<close> are \<open>option\<close> types; a named string type stays a string, because the
  program converts configuration strings to it without a check.
\<close>

section \<open>Metadata\<close>

type_synonym labels = "(string, string) gomap option"

definition label_get :: "labels \<Rightarrow> string \<Rightarrow> string option" where
  "label_get m k = (case m of None \<Rightarrow> None | Some kvs \<Rightarrow> gm_get kvs k)"

lemma label_get_simps [simp]:
  "label_get None k = None" "label_get (Some kvs) k = gm_get kvs k"
  by (simp_all add: label_get_def)

record owner_reference =
  or_Kind :: string
  or_APIVersion :: string
  or_Name :: string
  or_UID :: string

text \<open>A timestamp is a number; 0 is Go's zero time.\<close>

type_synonym time = int

record object_meta =
  om_Name :: string
  om_Namespace :: string
  om_UID :: string
  om_Labels :: labels
  om_Annotations :: labels
  om_OwnerReferences :: "owner_reference list"
  om_DeletionTimestamp :: "time option"

definition IsZero :: "time option \<Rightarrow> bool" where
  "IsZero t \<longleftrightarrow> (case t of None \<Rightarrow> True | Some x \<Rightarrow> x = 0)"

definition empty_meta :: object_meta where
  "empty_meta = \<lparr>om_Name = [], om_Namespace = [], om_UID = [], om_Labels = None,
     om_Annotations = None, om_OwnerReferences = [], om_DeletionTimestamp = None\<rparr>"

section \<open>Persistent volumes\<close>

abbreviation PersistentVolumeBlock :: string where "PersistentVolumeBlock \<equiv> ''Block''"
abbreviation PersistentVolumeFilesystem :: string where
  "PersistentVolumeFilesystem \<equiv> ''Filesystem''"
abbreviation PersistentVolumeReclaimRecycle :: string where
  "PersistentVolumeReclaimRecycle \<equiv> ''Recycle''"
abbreviation PersistentVolumeReclaimDelete :: string where
  "PersistentVolumeReclaimDelete \<equiv> ''Delete''"
abbreviation PersistentVolumeReclaimRetain :: string where
  "PersistentVolumeReclaimRetain \<equiv> ''Retain''"
abbreviation VolumeAvailable :: string where "VolumeAvailable \<equiv> ''Available''"
abbreviation VolumeReleased :: string where "VolumeReleased \<equiv> ''Released''"
abbreviation ReadWriteOnce :: string where "ReadWriteOnce \<equiv> ''ReadWriteOnce''"
abbreviation LabelHostname :: string where "LabelHostname \<equiv> ''kubernetes.io/hostname''"
abbreviation NodeSelectorOpIn :: string where "NodeSelectorOpIn \<equiv> ''In''"
abbreviation ResourceStorage :: string where "ResourceStorage \<equiv> ''storage''"
abbreviation EventTypeNormal :: string where "EventTypeNormal \<equiv> ''Normal''"
abbreviation EventTypeWarning :: string where "EventTypeWarning \<equiv> ''Warning''"
abbreviation RestartPolicyOnFailure :: string where "RestartPolicyOnFailure \<equiv> ''OnFailure''"

record node_selector_requirement =
  nsr_Key :: string
  nsr_Operator :: string
  nsr_Values :: "string list"

record node_selector_term =
  nst_MatchExpressions :: "node_selector_requirement list"

type_synonym node_selector = "node_selector_term list"

record local_volume_source =
  lvs_Path :: string
  lvs_FSType :: "string option"

record object_reference =
  ref_Namespace :: string
  ref_Name :: string
  ref_UID :: string

text \<open>\<open>pvs_NodeAffinity\<close> is \<open>Spec.NodeAffinity\<close>, a pointer to a struct whose only field
  \<open>Required\<close> is again a pointer.\<close>

record pv_spec =
  pvs_Capacity :: "(string, int) gomap"
  pvs_Local :: "local_volume_source option"
  pvs_AccessModes :: "string list"
  pvs_ClaimRef :: "object_reference option"
  pvs_ReclaimPolicy :: string
  pvs_StorageClassName :: string
  pvs_MountOptions :: "string list"
  pvs_VolumeMode :: "string option"
  pvs_NodeAffinity :: "node_selector option option"

record persistent_volume =
  pv_Meta :: object_meta
  pv_Spec :: pv_spec
  pv_Phase :: string

abbreviation pv_Name :: "persistent_volume \<Rightarrow> string" where
  "pv_Name pv \<equiv> om_Name (pv_Meta pv)"

record pvc =
  pvc_Meta :: object_meta
  pvc_VolumeName :: string

record storage_class =
  sc_ReclaimPolicy :: "string option"
  sc_MountOptions :: "string list"

section \<open>Nodes\<close>

record taint =
  taint_Key :: string
  taint_Value :: string
  taint_Effect :: string

record node =
  node_Meta :: object_meta
  node_Taints :: "taint list"

section \<open>Jobs\<close>

record toleration =
  tol_Key :: string
  tol_Operator :: string
  tol_Value :: string
  tol_Effect :: string

record container =
  c_Name :: string
  c_Image :: string
  c_Privileged :: "bool option"
  c_Command :: "string list"
  c_Env :: "(string \<times> string) list"
  c_VolumeMounts :: "(string \<times> string) list"

record pod_spec =
  ps_Containers :: "container list"
  ps_Volumes :: "(string \<times> string) list"
  ps_NodeSelector :: "(string, string) gomap"
  ps_Tolerations :: "toleration list"
  ps_RestartPolicy :: string

record job =
  job_Meta :: object_meta
  job_PodSpec :: pod_spec
  job_Succeeded :: int

section \<open>Example objects\<close>

text \<open>Small objects the witnesses instantiate.\<close>

definition ex_spec :: pv_spec where
  "ex_spec = \<lparr>pvs_Capacity = [], pvs_Local = Some \<lparr>lvs_Path = ''/mnt/disks/vol1'', lvs_FSType = None\<rparr>,
     pvs_AccessModes = [ReadWriteOnce], pvs_ClaimRef = None,
     pvs_ReclaimPolicy = PersistentVolumeReclaimDelete, pvs_StorageClassName = ''fast'',
     pvs_MountOptions = [], pvs_VolumeMode = Some PersistentVolumeFilesystem,
     pvs_NodeAffinity = None\<rparr>"

definition ex_pv :: "string \<Rightarrow> persistent_volume" where
  "ex_pv n = \<lparr>pv_Meta = empty_meta\<lparr>om_Name := n\<rparr>, pv_Spec = ex_spec, pv_Phase = VolumeReleased\<rparr>"

end
