(* ===== verification/Cache.thy ===== *)
theory Cache
  imports Kube_Types
begin

text \<open>
  \<open>pkg/cache/cache.go\<close>: the cache of the PersistentVolumes this provisioner created, a mutex and
  a map from volume name to volume. Every method holds the mutex for its whole body, so it is one
  atomic function on the map.
\<close>

section \<open>Operations\<close>

record VolumeCache =
  vc_pvs :: "(string, persistent_volume) gomap"

definition NewVolumeCache :: VolumeCache where
  "NewVolumeCache = \<lparr>vc_pvs = []\<rparr>"

definition GetPV :: "VolumeCache \<Rightarrow> string \<Rightarrow> persistent_volume option" where
  "GetPV cache pvName = gm_get (vc_pvs cache) pvName"

definition AddPV :: "persistent_volume \<Rightarrow> VolumeCache \<Rightarrow> VolumeCache" where
  "AddPV pv cache = cache\<lparr>vc_pvs := gm_put (pv_Name pv) pv (vc_pvs cache)\<rparr>"

definition UpdatePV :: "persistent_volume \<Rightarrow> VolumeCache \<Rightarrow> VolumeCache" where
  "UpdatePV pv cache = cache\<lparr>vc_pvs := gm_put (pv_Name pv) pv (vc_pvs cache)\<rparr>"

definition DeletePV :: "string \<Rightarrow> VolumeCache \<Rightarrow> VolumeCache" where
  "DeletePV pvName cache = cache\<lparr>vc_pvs := gm_del pvName (vc_pvs cache)\<rparr>"

definition ListPVs :: "VolumeCache \<Rightarrow> persistent_volume list" where
  "ListPVs cache = map snd (vc_pvs cache)"

fun lookup_loop :: "string \<Rightarrow> persistent_volume list \<Rightarrow> string list \<Rightarrow> string list" where
  "lookup_loop filePath [] matches = matches"
| "lookup_loop filePath (pv # pvs) matches =
     (case pvs_Local (pv_Spec pv) of
        None \<Rightarrow> lookup_loop filePath pvs matches
      | Some lvs \<Rightarrow>
          if lvs_Path lvs = filePath then lookup_loop filePath pvs (matches @ [pv_Name pv])
          else lookup_loop filePath pvs matches)"

definition LookupPVsByPath :: "VolumeCache \<Rightarrow> string \<Rightarrow> string list" where
  "LookupPVsByPath cache filePath = lookup_loop filePath (map snd (vc_pvs cache)) []"

section \<open>Invariant\<close>

definition cache_inv :: "VolumeCache \<Rightarrow> bool" where
  "cache_inv c \<longleftrightarrow> gm_inv (vc_pvs c) \<and> (\<forall>(n, pv) \<in> set (vc_pvs c). pv_Name pv = n)"

lemma cache_inv_New [simp]: "cache_inv NewVolumeCache"
  by (simp add: cache_inv_def NewVolumeCache_def)

lemma cache_inv_AddPV [simp]: "cache_inv c \<Longrightarrow> cache_inv (AddPV pv c)"
  by (auto simp: cache_inv_def AddPV_def set_gm_put split: if_splits)

lemma UpdatePV_eq_AddPV [simp]: "UpdatePV pv c = AddPV pv c"
  by (simp add: UpdatePV_def AddPV_def)

lemma cache_inv_DeletePV [simp]: "cache_inv c \<Longrightarrow> cache_inv (DeletePV n c)"
  by (auto simp: cache_inv_def DeletePV_def set_gm_del)

lemma GetPV_New [simp]: "GetPV NewVolumeCache n = None"
  by (simp add: GetPV_def NewVolumeCache_def)

lemma GetPV_AddPV [simp]: "GetPV (AddPV pv c) n = (if n = pv_Name pv then Some pv else GetPV c n)"
  by (simp add: GetPV_def AddPV_def)

lemma GetPV_DeletePV [simp]: "GetPV (DeletePV m c) n = (if n = m then None else GetPV c n)"
  by (simp add: GetPV_def DeletePV_def)

lemma GetPV_name: "cache_inv c \<Longrightarrow> GetPV c n = Some pv \<Longrightarrow> pv_Name pv = n"
  by (auto simp: cache_inv_def GetPV_def dest: map_of_SomeD)

lemma ListPVs_iff: "cache_inv c \<Longrightarrow> pv \<in> set (ListPVs c) \<longleftrightarrow> GetPV c (pv_Name pv) = Some pv"
  unfolding cache_inv_def ListPVs_def GetPV_def
  by (force simp: map_of_eq_Some_iff dest: map_of_SomeD)

lemma distinct_ListPVs:
  assumes "cache_inv c"
  shows "distinct (map pv_Name (ListPVs c))"
proof -
  have "map pv_Name (ListPVs c) = map fst (vc_pvs c)"
    using assms by (auto simp: cache_inv_def ListPVs_def)
  then show ?thesis using assms by (simp add: cache_inv_def)
qed

section \<open>The interface its clients rely on\<close>

text \<open>
  What the populator, the discoverer and the deleter may assume of the cache: a keyed store of
  volumes whose listing is exactly what lookups find.
\<close>

locale pv_store =
  fixes new :: "'c"
    and get :: "'c \<Rightarrow> string \<Rightarrow> persistent_volume option"
    and add :: "persistent_volume \<Rightarrow> 'c \<Rightarrow> 'c"
    and del :: "string \<Rightarrow> 'c \<Rightarrow> 'c"
    and lst :: "'c \<Rightarrow> persistent_volume list"
    and inv :: "'c \<Rightarrow> bool"
  assumes get_new: "get new n = None"
    and get_add: "inv c \<Longrightarrow> get (add pv c) n = (if n = pv_Name pv then Some pv else get c n)"
    and get_del: "inv c \<Longrightarrow> get (del m c) n = (if n = m then None else get c n)"
    and lst_iff: "inv c \<Longrightarrow> pv \<in> set (lst c) \<longleftrightarrow> get c (pv_Name pv) = Some pv"
    and lst_distinct: "inv c \<Longrightarrow> distinct (map pv_Name (lst c))"
    and inv_new: "inv new"
    and inv_add: "inv c \<Longrightarrow> inv (add pv c)"
    and inv_del: "inv c \<Longrightarrow> inv (del m c)"
begin

lemma lst_add:
  assumes "inv c"
  shows "set (lst (add pv c)) = insert pv {q \<in> set (lst c). pv_Name q \<noteq> pv_Name pv}"
  using assms by (auto simp: lst_iff inv_add get_add split: if_splits)

lemma lst_del:
  assumes "inv c"
  shows "set (lst (del m c)) = {q \<in> set (lst c). pv_Name q \<noteq> m}"
  using assms by (auto simp: lst_iff inv_del get_del split: if_splits)

lemma lst_unique:
  "inv c \<Longrightarrow> p \<in> set (lst c) \<Longrightarrow> q \<in> set (lst c) \<Longrightarrow> pv_Name p = pv_Name q \<Longrightarrow> p = q"
  by (simp add: lst_iff)

end

interpretation vc: pv_store NewVolumeCache GetPV AddPV DeletePV ListPVs cache_inv
  by unfold_locales (simp_all add: ListPVs_iff distinct_ListPVs)

section \<open>Lookup by path\<close>

definition has_path :: "string \<Rightarrow> persistent_volume \<Rightarrow> bool" where
  "has_path p pv \<longleftrightarrow> (\<exists>l. pvs_Local (pv_Spec pv) = Some l \<and> lvs_Path l = p)"

lemma lookup_loop_eq:
  "lookup_loop p pvs ms = ms @ map pv_Name (filter (has_path p) pvs)"
  by (induction pvs arbitrary: ms) (auto simp: has_path_def split: option.splits)

lemma LookupPVsByPath_eq: "LookupPVsByPath c p = map pv_Name (filter (has_path p) (ListPVs c))"
  by (simp add: LookupPVsByPath_def lookup_loop_eq ListPVs_def)

lemma LookupPVsByPath_Nil: "LookupPVsByPath c p = [] \<longleftrightarrow> (\<forall>pv\<in>set (ListPVs c). \<not> has_path p pv)"
  by (auto simp: LookupPVsByPath_eq filter_empty_conv)

end
