(* ===== verification/Paths.thy ===== *)
theory Paths
  imports Prelude
begin

text \<open>
  Lexical path processing of Go's \<open>path/filepath\<close> on Unix, as the discoverer, the deleter and
  the volume utilities call it: \<open>Clean\<close>, \<open>Join\<close>, \<open>Rel\<close> and \<open>Split\<close>. A path is normalised to a
  flag (is it rooted) and its list of elements; \<open>Clean\<close> renders the normal form. The lemmas
  show that normal forms are exactly the fixed points and that \<open>Rel\<close> undoes \<open>Join\<close>, which is
  what relates the host path of a volume to its path inside the provisioner's container.
\<close>

section \<open>Normal forms\<close>

abbreviation sep :: char where "sep \<equiv> CHR ''/''"

definition rooted :: "string \<Rightarrow> bool" where
  "rooted p \<longleftrightarrow> p \<noteq> [] \<and> hd p = sep"

text \<open>
  One element of the path is processed against the stack of elements kept so far (innermost
  first): empty and \<open>.\<close> elements are dropped, \<open>..\<close> removes the element before it, is dropped at
  the root and is kept where a relative path has nothing left to remove.
\<close>

definition push_elem :: "bool \<Rightarrow> string list \<Rightarrow> string \<Rightarrow> string list" where
  "push_elem r st e =
     (if e = [] \<or> e = ''.'' then st
      else if e = ''..'' then
        (case st of [] \<Rightarrow> if r then [] else [e]
         | x # xs \<Rightarrow> if x = ''..'' then e # st else xs)
      else e # st)"

definition path_norm :: "string \<Rightarrow> bool \<times> string list" where
  "path_norm p = (rooted p, rev (foldl (push_elem (rooted p)) [] (Split p sep)))"

fun render :: "bool \<times> string list \<Rightarrow> string" where
  "render (True, es) = sep # Join_with [sep] es"
| "render (False, es) = (if es = [] then ''.'' else Join_with [sep] es)"

definition Clean :: "string \<Rightarrow> string" where
  "Clean p = render (path_norm p)"

text \<open>\<open>filepath.Join\<close>: leading empty elements are ignored, the rest is joined and cleaned.\<close>

definition FJoin :: "string list \<Rightarrow> string" where
  "FJoin es = (case dropWhile (\<lambda>e. e = []) es of [] \<Rightarrow> [] | es' \<Rightarrow> Clean (Join_with [sep] es'))"

text \<open>
  \<open>filepath.Rel\<close>: the elements both paths begin with are dropped, one \<open>..\<close> stands for each
  element left of the base.
\<close>

fun strip_common :: "'a list \<Rightarrow> 'a list \<Rightarrow> 'a list \<times> 'a list" where
  "strip_common (x # xs) (y # ys) = (if x = y then strip_common xs ys else (x # xs, y # ys))"
| "strip_common xs ys = (xs, ys)"

definition Rel :: "string \<Rightarrow> string \<Rightarrow> string result" where
  "Rel basepath targpath =
     (if Clean targpath = Clean basepath then Inr ''.''
      else
        let (rb, bs) = path_norm basepath;
            (rt, ts0) = path_norm targpath;
            ts = (if \<not> rt \<and> ts0 = [] then [''.''] else ts0)
        in if rb \<noteq> rt then Inl (ErrOther ''Rel: can't make relative'')
           else case strip_common bs ts of (bs', ts') \<Rightarrow>
             if bs' \<noteq> [] \<and> ts' \<noteq> [] \<and> hd bs' = ''..''
             then Inl (ErrOther ''Rel: can't make relative'')
             else Inr (Join_with [sep] (replicate (length bs') ''..'' @ ts')))"

text \<open>\<open>filepath.Split\<close>: the directory with its trailing separator, and the file name.\<close>

definition FSplit :: "string \<Rightarrow> string \<times> string" where
  "FSplit p = (rev (dropWhile (\<lambda>c. c \<noteq> sep) (rev p)), rev (takeWhile (\<lambda>c. c \<noteq> sep) (rev p)))"

section \<open>Elements\<close>

text \<open>\<open>elem_ok\<close>: an element a normal form may hold; \<open>plain\<close>: one that is not \<open>..\<close>, as the
  names \<open>Readdirnames\<close> returns.\<close>

definition elem_ok :: "string \<Rightarrow> bool" where
  "elem_ok e \<longleftrightarrow> e \<noteq> [] \<and> e \<noteq> ''.'' \<and> sep \<notin> set e"

definition plain :: "string \<Rightarrow> bool" where
  "plain e \<longleftrightarrow> elem_ok e \<and> e \<noteq> ''..''"

lemma plain_elem_ok [simp]: "plain e \<Longrightarrow> elem_ok e"
  by (simp add: plain_def)

lemma plain_not_Nil [simp]: "\<not> plain []"
  by (simp add: plain_def elem_ok_def)

lemma push_plain [simp]: "plain e \<Longrightarrow> push_elem r st e = e # st"
  by (auto simp: push_elem_def plain_def elem_ok_def)

lemma foldl_push_plain: "\<forall>e\<in>set es. plain e \<Longrightarrow> foldl (push_elem r) st es = rev es @ st"
  by (induction es arbitrary: st) auto

text \<open>A stack of a normal form: plain elements above a block of \<open>..\<close>, none when rooted.\<close>

fun stack_ok :: "bool \<Rightarrow> string list \<Rightarrow> bool" where
  "stack_ok r [] = True"
| "stack_ok r (e # st) =
     (if e = ''..'' then \<not> r \<and> (\<forall>x\<in>set st. x = ''..'') else elem_ok e \<and> stack_ok r st)"

definition wf_path :: "bool \<times> string list \<Rightarrow> bool" where
  "wf_path q \<longleftrightarrow> stack_ok (fst q) (rev (snd q))"

lemma stack_ok_dots: "\<forall>x\<in>set st. x = ''..'' \<Longrightarrow> \<not> r \<Longrightarrow> stack_ok r st"
  by (induction st) auto

lemma stack_ok_elems: "stack_ok r st \<Longrightarrow> e \<in> set st \<Longrightarrow> elem_ok e"
  by (induction r st rule: stack_ok.induct) (auto simp: elem_ok_def split: if_splits)

lemma stack_ok_rooted: "stack_ok True st \<Longrightarrow> e \<in> set st \<Longrightarrow> plain e"
  by (induction True st rule: stack_ok.induct) (auto simp: plain_def split: if_splits)

lemma push_stack_ok: "stack_ok r st \<Longrightarrow> sep \<notin> set e \<Longrightarrow> stack_ok r (push_elem r st e)"
  by (cases st) (auto simp: push_elem_def elem_ok_def stack_ok_dots)

lemma foldl_push_stack_ok:
  "stack_ok r st \<Longrightarrow> \<forall>e\<in>set es. sep \<notin> set e \<Longrightarrow> stack_ok r (foldl (push_elem r) st es)"
  by (induction es arbitrary: st) (auto simp: push_stack_ok)

lemma wf_path_norm [simp]: "wf_path (path_norm p)"
  by (auto simp: wf_path_def path_norm_def Split_no_sep intro!: foldl_push_stack_ok)

lemma stack_ok_appendD: "stack_ok r (xs @ st) \<Longrightarrow> stack_ok r st"
  by (induction xs) (auto simp: stack_ok_dots split: if_splits)

lemma push_normal: "stack_ok r (e # st) \<Longrightarrow> push_elem r st e = e # st"
  by (cases st) (auto simp: push_elem_def elem_ok_def split: if_splits)

lemma foldl_push_normal:
  "stack_ok r (rev es @ st) \<Longrightarrow> foldl (push_elem r) st es = rev es @ st"
proof (induction es arbitrary: st)
  case (Cons e es)
  then have "stack_ok r (e # st)" by (auto dest: stack_ok_appendD)
  with Cons show ?case by (simp add: push_normal)
qed simp

lemma Split_append: "Split (a @ c # b) c = Split a c @ Split b c"
  by (induction a) (auto split: list.splits)

lemma foldl_push_Nil_elem [simp]: "push_elem r st [] = st"
  by (simp add: push_elem_def)

lemma push_dot [simp]: "push_elem r st ''.'' = st"
  by (simp add: push_elem_def)

lemma Split_Join_elems:
  assumes "\<forall>e\<in>set es. elem_ok e" and "es \<noteq> []"
  shows "Split (Join_with [sep] es) sep = es"
  using assms by (intro Split_Join) (auto simp: elem_ok_def)

lemma rooted_Join_elems: "\<forall>e\<in>set es. elem_ok e \<Longrightarrow> \<not> rooted (Join_with [sep] es)"
proof (cases es)
  case (Cons e es')
  assume "\<forall>e\<in>set es. elem_ok e"
  with Cons obtain c e' where "e = c # e'" "c \<noteq> sep"
    by (cases e) (auto simp: elem_ok_def)
  with Cons show ?thesis by (cases es') (auto simp: rooted_def)
qed (simp add: rooted_def)

lemma wf_path_elems: "wf_path (r, es) \<Longrightarrow> \<forall>e\<in>set es. elem_ok e"
  by (auto simp: wf_path_def dest: stack_ok_elems)

lemma path_norm_render: "wf_path q \<Longrightarrow> path_norm (render q) = q"
proof (cases q)
  case (Pair r es)
  assume wf: "wf_path q"
  note ok = wf_path_elems[OF wf[unfolded Pair]]
  from wf Pair have st: "foldl (push_elem r) [] es = rev es"
    by (simp add: wf_path_def foldl_push_normal)
  show ?thesis
  proof (cases "es = []")
    case True
    then show ?thesis using Pair by (cases r) (auto simp: path_norm_def rooted_def)
  next
    case False
    then show ?thesis
      using Pair ok st rooted_Join_elems[OF ok]
      by (cases r) (auto simp: path_norm_def Split_Join_elems rooted_def)
  qed
qed

lemma path_norm_Clean [simp]: "path_norm (Clean p) = path_norm p"
  by (simp add: Clean_def path_norm_render)

lemma Clean_idem [simp]: "Clean (Clean p) = Clean p"
  by (metis Clean_def path_norm_Clean)

lemma Clean_eq_iff: "Clean p = Clean q \<longleftrightarrow> path_norm p = path_norm q"
  by (metis Clean_def path_norm_Clean)

section \<open>Join and Rel\<close>

lemma rooted_append: "a \<noteq> [] \<Longrightarrow> rooted (a @ b) = rooted a"
  by (simp add: rooted_def)

lemma path_norm_FJoin2:
  assumes "d \<noteq> []"
  shows "path_norm (FJoin [d, s]) =
    (rooted d, rev (foldl (push_elem (rooted d)) (rev (snd (path_norm d))) (Split s sep)))"
proof -
  have "path_norm (FJoin [d, s]) = path_norm (d @ sep # s)"
    using assms by (simp add: FJoin_def)
  also have "\<dots> = (rooted d, rev (foldl (push_elem (rooted d)) (rev (snd (path_norm d))) (Split s sep)))"
    using assms by (simp add: path_norm_def rooted_append Split_append)
  finally show ?thesis .
qed

lemma Split_plain: "plain f \<Longrightarrow> Split f sep = [f]"
  by (rule Split_single) (simp add: plain_def elem_ok_def)

lemma path_norm_plain: "plain f \<Longrightarrow> path_norm f = (False, [f])"
proof -
  assume f: "plain f"
  then have "\<not> rooted f"
    by (cases f) (auto simp: rooted_def plain_def elem_ok_def)
  with f show ?thesis by (simp add: path_norm_def Split_plain)
qed

lemma path_norm_FJoin_plain:
  assumes f: "plain f"
  shows "path_norm (FJoin [d, f]) = (fst (path_norm d), snd (path_norm d) @ [f])"
proof (cases "d = []")
  case True
  from f have "f \<noteq> []" by auto
  with True have "FJoin [d, f] = Clean f" by (simp add: FJoin_def)
  then show ?thesis using True f
    by (simp add: path_norm_plain path_norm_def[of "[]"] rooted_def)
next
  case False
  with f show ?thesis
    by (simp add: path_norm_FJoin2 Split_plain path_norm_def[of d])
qed

lemma strip_common_append [simp]: "strip_common xs (xs @ ys) = ([], ys)"
  by (induction xs) auto

text \<open>The relative path of a file directly below a directory is the file's name.\<close>

lemma Rel_FJoin: 
  assumes f: "plain f"
  shows "Rel d (FJoin [d, f]) = Inr f"
proof -
  obtain r es where d: "path_norm d = (r, es)" by fastforce
  then have t: "path_norm (FJoin [d, f]) = (r, es @ [f])"
    using f by (simp add: path_norm_FJoin_plain)
  then have "Clean (FJoin [d, f]) \<noteq> Clean d"
    by (simp add: Clean_eq_iff d)
  then show ?thesis by (simp add: Rel_def d t)
qed

text \<open>
  A rooted path below a rooted base: \<open>Rel\<close> succeeds, and joining its result to another rooted
  directory gives the same elements below that directory.
\<close>

lemma FJoin_Rel_rooted:
  assumes h: "path_norm h = (True, hs)" and p: "path_norm p = (True, hs @ rest)"
    and m: "path_norm m = (True, ms)"
  shows "\<exists>r. Rel h p = Inr r \<and> path_norm (FJoin [m, r]) = (True, ms @ rest)"
proof -
  from m have m0: "m \<noteq> []" "rooted m" by (auto simp: path_norm_def rooted_def)
  have "wf_path (True, hs @ rest)" using wf_path_norm[of p] p by simp
  then have rest: "\<forall>e\<in>set rest. plain e"
    by (auto simp: wf_path_def dest!: stack_ok_rooted)
  show ?thesis
  proof (cases "rest = []")
    case True
    with h p m m0 show ?thesis
      by (auto simp: Rel_def Clean_eq_iff path_norm_FJoin2 Split_single)
  next
    case False
    have "Rel h p = Inr (Join_with [sep] rest)"
      using False h p by (simp add: Rel_def Clean_eq_iff)
    moreover have "Split (Join_with [sep] rest) sep = rest"
      using False rest by (simp add: Split_Join_elems)
    ultimately show ?thesis
      using m m0 rest by (auto simp: path_norm_FJoin2 foldl_push_plain)
  qed
qed

section \<open>Being below a directory\<close>

text \<open>\<open>below d p\<close>: the cleaned path \<open>p\<close> is \<open>d\<close> or lies in the tree under it.\<close>

definition below :: "string \<Rightarrow> string \<Rightarrow> bool" where
  "below d p \<longleftrightarrow> fst (path_norm d) = fst (path_norm p)
     \<and> prefix (snd (path_norm d)) (snd (path_norm p))
     \<and> ''..'' \<notin> set (drop (length (snd (path_norm d))) (snd (path_norm p)))"

lemma below_FJoin: "plain f \<Longrightarrow> below d (FJoin [d, f])"
  by (auto simp: below_def path_norm_FJoin_plain plain_def)

lemma below_refl [simp]: "below d d"
  by (simp add: below_def)

text \<open>A directory in normal form is a string prefix of the files directly below it.\<close>

lemma Join_with_snoc: "es \<noteq> [] \<Longrightarrow> Join_with sp (es @ [f]) = Join_with sp es @ sp @ f"
proof (induction es)
  case (Cons e es)
  then show ?case by (cases "es = []") (simp_all add: Join_with_Cons)
qed simp

lemma Clean_not_Nil [simp]: "Clean p \<noteq> []"
proof -
  obtain r es where p: "path_norm p = (r, es)" by fastforce
  with wf_path_elems[of r es] wf_path_norm[of p] have "\<forall>e\<in>set es. e \<noteq> []" by (auto simp: elem_ok_def)
  then show ?thesis using p by (cases r; cases es rule: list.exhaust; cases "tl es") (auto simp: Clean_def Join_with_Cons)
qed

lemma FJoin_prefix:
  assumes "Clean m = m" "m \<noteq> ''.''" "plain f"
  shows "prefix m (FJoin [m, f])"
proof -
  obtain r es where m: "path_norm m = (r, es)" by fastforce
  with assms(1) have "m = render (r, es)" by (simp add: Clean_def)
  moreover have "m \<noteq> []" using assms(1) Clean_not_Nil[of m] by auto
  then have "FJoin [m, f] = Clean (m @ sep # f)" by (simp add: FJoin_def)
  then have "FJoin [m, f] = render (path_norm (FJoin [m, f]))" by (simp add: Clean_def path_norm_render)
  then have "FJoin [m, f] = render (r, es @ [f])" using m assms(3) by (simp add: path_norm_FJoin_plain)
  ultimately show ?thesis
    using assms(2) by (cases r; cases "es = []") (auto simp: Join_with_snoc)
qed

end
