(* ===== verification/Volume_Util.thy ===== *)
theory Volume_Util
  imports Kube_Types Paths
begin

text \<open>
  \<open>pkg/util\<close>: the \<open>VolumeUtil\<close> interface with its Linux, Windows, unsupported-platform and fake
  implementations, and the extraction of node names from a volume's node affinity. Calls of the
  operating system and of the CSI proxy are arguments.
\<close>

section \<open>The interface\<close>

text \<open>
  \<open>IsDir\<close>, \<open>IsBlock\<close> and \<open>IsLikelyMountPoint\<close> return a flag and an error of which a caller may
  use either. \<open>DeleteContents\<close> changes the file system, so each implementation's is a function of
  its own that also returns the removals it made. The map of mount points is used as a set of paths.
\<close>

record VolumeUtil =
  vu_IsDir :: "string \<Rightarrow> bool \<times> error option"
  vu_IsBlock :: "string \<Rightarrow> bool \<times> error option"
  vu_IsLikelyMountPoint :: "string \<Rightarrow> string \<Rightarrow> string list \<Rightarrow> bool \<times> error option"
  vu_ReadDir :: "string \<Rightarrow> string list result"
  vu_GetFsCapacityByte :: "string \<Rightarrow> string \<Rightarrow> int result"
  vu_GetBlockCapacityByte :: "string \<Rightarrow> int result"

section \<open>Operating system\<close>

text \<open>
  The calls the implementations make. \<open>os_RemoveAll\<close> may depend on the calls made before it,
  given oldest first.
\<close>

record os =
  os_Open :: "string \<Rightarrow> error option"
  os_FileIsDir :: "string \<Rightarrow> bool result"
  os_Readdirnames :: "string \<Rightarrow> string list result"
  os_OpenFile :: "string \<Rightarrow> error option"
  os_BlkGetSize64 :: "string \<Rightarrow> int result"
  os_StatMode :: "string \<Rightarrow> nat result"
  os_FsInfoCapacity :: "string \<Rightarrow> int result"
  os_RemoveAll :: "string list \<Rightarrow> string \<Rightarrow> error option"

definition IsDir :: "os \<Rightarrow> string \<Rightarrow> bool \<times> error option" where
  "IsDir os fullPath =
     (case os_Open os fullPath of
        Some err \<Rightarrow> (False, Some err)
      | None \<Rightarrow>
          (case os_FileIsDir os fullPath of
             Inl err \<Rightarrow> (False, Some err)
           | Inr isdir \<Rightarrow> (isdir, None)))"

definition ReadDir :: "os \<Rightarrow> string \<Rightarrow> string list result" where
  "ReadDir os fullPath =
     (case os_Open os fullPath of
        Some err \<Rightarrow> Inl err
      | None \<Rightarrow>
          (case os_Readdirnames os fullPath of
             Inl err \<Rightarrow> Inl err
           | Inr files \<Rightarrow> Inr files))"

section \<open>Linux\<close>

definition GetFsCapacityByte :: "os \<Rightarrow> string \<Rightarrow> string \<Rightarrow> int result" where
  "GetFsCapacityByte os hostPath mountPath = os_FsInfoCapacity os mountPath"

definition GetBlockCapacityByte :: "os \<Rightarrow> string \<Rightarrow> int result" where
  "GetBlockCapacityByte os fullPath =
     (case os_OpenFile os fullPath of
        Some err \<Rightarrow> Inl err
      | None \<Rightarrow>
          (case os_BlkGetSize64 os fullPath of
             Inl err \<Rightarrow> Inl err
           | Inr sz \<Rightarrow> Inr sz))"

definition IsLikelyMountPoint :: "string \<Rightarrow> string \<Rightarrow> string list \<Rightarrow> bool \<times> error option" where
  "IsLikelyMountPoint hostPath mountPath mountPointMap =
     (if mountPath \<notin> set mountPointMap then
        (False, Some (Errorf ''mountPath=%q wasn't found in the /proc/mounts file'' [mountPath]))
      else (True, None))"

text \<open>\<open>S_IFMT\<close> is 0170000 and \<open>S_IFBLK\<close> is 0060000 (octal): the four bits of the mode above
  bit 12 select the file type, and 6 is a block device.\<close>

definition IsBlock :: "os \<Rightarrow> string \<Rightarrow> bool \<times> error option" where
  "IsBlock os fullPath =
     (case os_StatMode os fullPath of
        Inl err \<Rightarrow> (False, Some err)
      | Inr mode \<Rightarrow> (mode div 4096 mod 16 = 6, None))"

text \<open>The loop of \<open>DeleteContents\<close>: it returns the calls of \<open>os.RemoveAll\<close> it made and the
  errors.\<close>

fun remove_loop :: "os \<Rightarrow> string \<Rightarrow> string list \<Rightarrow> string list \<Rightarrow> error list \<Rightarrow> string list \<times> error list" where
  "remove_loop os mountPath [] calls errList = (calls, errList)"
| "remove_loop os mountPath (file # files) calls errList =
     (let target = FJoin [mountPath, file] in
      case os_RemoveAll os calls target of
        Some err \<Rightarrow> remove_loop os mountPath files (calls @ [target]) (errList @ [err])
      | None \<Rightarrow> remove_loop os mountPath files (calls @ [target]) errList)"

definition NewAggregate :: "error list \<Rightarrow> error option" where
  "NewAggregate errs = (if errs = [] then None else Some (Errors ''aggregate'' errs))"

definition DeleteContents :: "os \<Rightarrow> string \<Rightarrow> string \<Rightarrow> string list \<times> error option" where
  "DeleteContents os hostPath mountPath =
     (case os_Open os mountPath of
        Some err \<Rightarrow> ([], Some err)
      | None \<Rightarrow>
          (case os_Readdirnames os mountPath of
             Inl err \<Rightarrow> ([], Some err)
           | Inr files \<Rightarrow>
               (case remove_loop os mountPath files [] [] of
                  (calls, errList) \<Rightarrow> (calls, NewAggregate errList))))"

definition linux_VolumeUtil :: "os \<Rightarrow> VolumeUtil" where
  "linux_VolumeUtil os =
     \<lparr>vu_IsDir = IsDir os, vu_IsBlock = IsBlock os, vu_IsLikelyMountPoint = IsLikelyMountPoint,
      vu_ReadDir = ReadDir os, vu_GetFsCapacityByte = GetFsCapacityByte os,
      vu_GetBlockCapacityByte = GetBlockCapacityByte os\<rparr>"

section \<open>Windows\<close>

record CSIProxy =
  csi_GetVolumeId :: "string \<Rightarrow> string result"
  csi_GetVolumeStats :: "string \<Rightarrow> (int \<times> int) result"
  csi_FormatVolume :: "string \<Rightarrow> error option"
  csi_IsSymlink :: "string \<Rightarrow> bool result"

definition Win_GetFsCapacityByte :: "CSIProxy \<Rightarrow> string \<Rightarrow> string \<Rightarrow> int result" where
  "Win_GetFsCapacityByte csi hostPath mountPath =
     (case csi_GetVolumeId csi hostPath of
        Inl err \<Rightarrow> Inl err
      | Inr volumeID \<Rightarrow>
          (case csi_GetVolumeStats csi volumeID of
             Inl err \<Rightarrow> Inl err
           | Inr (totalBytes, _) \<Rightarrow> Inr totalBytes))"

definition Win_DeleteContents :: "CSIProxy \<Rightarrow> string \<Rightarrow> string \<Rightarrow> error option" where
  "Win_DeleteContents csi hostPath mountPath =
     (case csi_GetVolumeId csi hostPath of
        Inl err \<Rightarrow> Some err
      | Inr volumeID \<Rightarrow>
          (case csi_FormatVolume csi volumeID of Some err \<Rightarrow> Some err | None \<Rightarrow> None))"

definition Win_GetBlockCapacityByte :: "string \<Rightarrow> int result" where
  "Win_GetBlockCapacityByte fullPath =
     Inl (Errorf ''GetBlockCapacityByte is unsupported in this build'' [])"

definition Win_IsBlock :: "string \<Rightarrow> bool \<times> error option" where
  "Win_IsBlock fullPath = (False, Some (Errorf ''IsBlock is unsupported in this build'' []))"

definition Win_IsLikelyMountPoint :: "CSIProxy \<Rightarrow> string \<Rightarrow> string \<Rightarrow> string list \<Rightarrow> bool \<times> error option" where
  "Win_IsLikelyMountPoint csi hostPath mountPath mountPointMap =
     (case csi_IsSymlink csi hostPath of
        Inl err \<Rightarrow> (False, Some err)
      | Inr isLikelyMountPoint \<Rightarrow>
          if \<not> isLikelyMountPoint then (False, Some (Errorf ''hostPath %q is not a symlink'' [hostPath]))
          else (isLikelyMountPoint, None))"

definition windows_VolumeUtil :: "os \<Rightarrow> CSIProxy \<Rightarrow> VolumeUtil" where
  "windows_VolumeUtil os csi =
     \<lparr>vu_IsDir = IsDir os, vu_IsBlock = Win_IsBlock,
      vu_IsLikelyMountPoint = Win_IsLikelyMountPoint csi, vu_ReadDir = ReadDir os,
      vu_GetFsCapacityByte = Win_GetFsCapacityByte csi,
      vu_GetBlockCapacityByte = Win_GetBlockCapacityByte\<rparr>"

text \<open>\<open>NewCSIProxy\<close>: the v1 client if it connects, otherwise v1beta.\<close>

definition NewCSIProxy :: "CSIProxy result \<Rightarrow> CSIProxy result \<Rightarrow> CSIProxy result" where
  "NewCSIProxy v1 v1beta =
     (case v1 of
        Inr csiProxyV1 \<Rightarrow> Inr csiProxyV1
      | Inl _ \<Rightarrow> (case v1beta of Inr csiProxyV1Beta \<Rightarrow> Inr csiProxyV1Beta | Inl err \<Rightarrow> Inl err))"

section \<open>Unsupported platforms\<close>

definition unsupported_VolumeUtil :: "os \<Rightarrow> VolumeUtil" where
  "unsupported_VolumeUtil os =
     \<lparr>vu_IsDir = IsDir os,
      vu_IsBlock = (\<lambda>fullPath. (False, Some (Errorf ''IsBlock is unsupported in this build'' []))),
      vu_IsLikelyMountPoint =
        (\<lambda>hostPath mountPath m. (False, Some (Errorf ''IsLikelyMountPoint is unsupported in this build'' []))),
      vu_ReadDir = ReadDir os,
      vu_GetFsCapacityByte =
        (\<lambda>hostPath mountPath. Inl (Errorf ''GetFsCapacityByte is unsupported in this build'' [])),
      vu_GetBlockCapacityByte =
        (\<lambda>fullPath. Inl (Errorf ''GetBlockCapacityByte is unsupported in this build'' []))\<rparr>"

section \<open>The fake of the unit tests\<close>

record FakeDirEntry =
  fd_Name :: string
  fd_VolumeType :: string
  fd_Capacity :: int

record FakeVolumeUtil =
  fv_directoryFiles :: "(string, FakeDirEntry list) gomap"
  fv_deleteShouldFail :: bool

abbreviation FakeEntryFile :: string where "FakeEntryFile \<equiv> ''file''"
abbreviation FakeEntryBlock :: string where "FakeEntryBlock \<equiv> ''block''"

text \<open>The lookup every method of the fake begins with.\<close>

definition fake_find :: "FakeVolumeUtil \<Rightarrow> string \<Rightarrow> FakeDirEntry result" where
  "fake_find u fullPath =
     (case FSplit fullPath of (dir0, file) \<Rightarrow>
        let dir = Clean dir0 in
        case gm_get (fv_directoryFiles u) dir of
          None \<Rightarrow> Inl (Errorf ''Directory %q not found'' [dir])
        | Some files \<Rightarrow>
            (case find (\<lambda>f. file = fd_Name f) files of
               None \<Rightarrow> Inl (Errorf ''Directory entry %q not found'' [fullPath])
             | Some f \<Rightarrow> Inr f))"

definition Fake_IsDir :: "FakeVolumeUtil \<Rightarrow> string \<Rightarrow> bool \<times> error option" where
  "Fake_IsDir u fullPath =
     (case fake_find u fullPath of
        Inl err \<Rightarrow> (False, Some err)
      | Inr f \<Rightarrow>
          if fd_VolumeType f \<noteq> FakeEntryFile then
            (False, Some (Errorf ''%q not a file or directory'' [fullPath]))
          else (True, None))"

definition Fake_IsBlock :: "FakeVolumeUtil \<Rightarrow> string \<Rightarrow> bool \<times> error option" where
  "Fake_IsBlock u fullPath =
     (case fake_find u fullPath of
        Inl err \<Rightarrow> (False, Some err)
      | Inr f \<Rightarrow> (fd_VolumeType f = FakeEntryBlock, None))"

definition Fake_ReadDir :: "FakeVolumeUtil \<Rightarrow> string \<Rightarrow> string list result" where
  "Fake_ReadDir u fullPath =
     (case gm_get (fv_directoryFiles u) fullPath of
        None \<Rightarrow> Inl (Errorf ''Directory %q not found'' [fullPath])
      | Some files \<Rightarrow> Inr (map fd_Name files))"

definition getDirEntryCapacity :: "FakeVolumeUtil \<Rightarrow> string \<Rightarrow> string \<Rightarrow> int result" where
  "getDirEntryCapacity u fullPath entryType =
     (case fake_find u fullPath of
        Inl err \<Rightarrow> Inl err
      | Inr f \<Rightarrow>
          if fd_VolumeType f \<noteq> entryType then
            Inl (Errorf ''Directory entry %q is not a %q'' [fd_Name f, entryType])
          else Inr (fd_Capacity f))"

definition Fake_DeleteContents :: "FakeVolumeUtil \<Rightarrow> string \<Rightarrow> string \<Rightarrow> error option" where
  "Fake_DeleteContents u hostPath mountPath =
     (if fv_deleteShouldFail u then Some (Errorf ''Fake delete contents failed'' []) else None)"

definition Fake_IsLikelyMountPoint :: "string \<Rightarrow> string \<Rightarrow> string list \<Rightarrow> bool \<times> error option" where
  "Fake_IsLikelyMountPoint hostPath mountPath mountPointMap =
     (if mountPath \<notin> set mountPointMap then
        (False, Some (Errorf ''hostPath=%q wasn't found in the /proc/mounts file'' [hostPath]))
      else (True, None))"

definition fake_VolumeUtil :: "FakeVolumeUtil \<Rightarrow> VolumeUtil" where
  "fake_VolumeUtil u =
     \<lparr>vu_IsDir = Fake_IsDir u, vu_IsBlock = Fake_IsBlock u,
      vu_IsLikelyMountPoint = Fake_IsLikelyMountPoint, vu_ReadDir = Fake_ReadDir u,
      vu_GetFsCapacityByte = (\<lambda>hostPath mountPath. getDirEntryCapacity u mountPath FakeEntryFile),
      vu_GetBlockCapacityByte = (\<lambda>fullPath. getDirEntryCapacity u fullPath FakeEntryBlock)\<rparr>"

fun AddNewDirEntries :: "FakeVolumeUtil \<Rightarrow> string \<Rightarrow> (string, FakeDirEntry list) gomap \<Rightarrow> FakeVolumeUtil" where
  "AddNewDirEntries u mountDir [] = u"
| "AddNewDirEntries u mountDir ((dir, files) # rest) =
     (let mountedPath = FJoin [mountDir, dir];
          curFiles = (case gm_get (fv_directoryFiles u) mountedPath of None \<Rightarrow> [] | Some fs \<Rightarrow> fs)
      in AddNewDirEntries
           (u\<lparr>fv_directoryFiles := gm_put mountedPath (curFiles @ files) (fv_directoryFiles u)\<rparr>)
           mountDir rest)"

section \<open>Node names of a volume\<close>

text \<open>
  A Go set is a list used through membership; the inner loop starts from a nil set, which the
  first matching expression replaces. The result of \<open>sets.List\<close> is sorted, without duplicates
  and never nil.
\<close>

fun term_nodes :: "node_selector_requirement list \<Rightarrow> string list option \<Rightarrow> string list option" where
  "term_nodes [] nodes = nodes"
| "term_nodes (m # ms) nodes =
     term_nodes ms
       (if nsr_Key m = LabelHostname \<and> nsr_Operator m = NodeSelectorOpIn then
          (case nodes of
             None \<Rightarrow> Some (nsr_Values m)
           | Some ns \<Rightarrow> Some (filter (\<lambda>n. n \<in> set (nsr_Values m)) ns))
        else nodes)"

fun terms_nodes :: "node_selector_term list \<Rightarrow> string list \<Rightarrow> string list" where
  "terms_nodes [] acc = acc"
| "terms_nodes (t # ts) acc =
     terms_nodes ts
       (acc @ (case term_nodes (nst_MatchExpressions t) None of None \<Rightarrow> [] | Some ns \<Rightarrow> ns))"

definition sets_List :: "string list \<Rightarrow> string list" where
  "sets_List xs = sort (remdups xs)"

definition GetLocalPersistentVolumeNodeNames :: "persistent_volume option \<Rightarrow> string list option" where
  "GetLocalPersistentVolumeNodeNames pv =
     (case pv of
        None \<Rightarrow> None
      | Some v \<Rightarrow>
          (case pvs_NodeAffinity (pv_Spec v) of
             None \<Rightarrow> None
           | Some None \<Rightarrow> None
           | Some (Some terms) \<Rightarrow> Some (sets_List (terms_nodes terms []))))"

section \<open>Lemmas\<close>

definition hostname_req :: "node_selector_requirement \<Rightarrow> bool" where
  "hostname_req m \<longleftrightarrow> nsr_Key m = LabelHostname \<and> nsr_Operator m = NodeSelectorOpIn"

text \<open>The nodes a term names: it has a hostname requirement, and the name is in all of them.\<close>

definition term_names :: "node_selector_term \<Rightarrow> string \<Rightarrow> bool" where
  "term_names t n \<longleftrightarrow> (\<exists>m\<in>set (nst_MatchExpressions t). hostname_req m)
     \<and> (\<forall>m\<in>set (nst_MatchExpressions t). hostname_req m \<longrightarrow> n \<in> set (nsr_Values m))"

lemma term_nodes_Some:
  "\<exists>xs. term_nodes ms (Some ns) = Some xs
     \<and> set xs = {n \<in> set ns. \<forall>m\<in>set ms. hostname_req m \<longrightarrow> n \<in> set (nsr_Values m)}"
proof (induction ms arbitrary: ns)
  case (Cons m ms)
  show ?case
    using Cons[of "filter (\<lambda>n. n \<in> set (nsr_Values m)) ns"] Cons[of ns]
    by (auto simp: hostname_req_def)
qed simp

lemma term_nodes_None_iff:
  "set (case term_nodes ms None of None \<Rightarrow> [] | Some ns \<Rightarrow> ns)
     = {n. (\<exists>m\<in>set ms. hostname_req m) \<and> (\<forall>m\<in>set ms. hostname_req m \<longrightarrow> n \<in> set (nsr_Values m))}"
proof (induction ms)
  case (Cons m ms)
  show ?case
  proof (cases "hostname_req m")
    case True
    obtain xs where "term_nodes ms (Some (nsr_Values m)) = Some xs"
      "set xs = {n \<in> set (nsr_Values m). \<forall>m\<in>set ms. hostname_req m \<longrightarrow> n \<in> set (nsr_Values m)}"
      using term_nodes_Some[of ms "nsr_Values m"] by blast
    with True show ?thesis by (auto simp: hostname_req_def)
  next
    case False
    with Cons show ?thesis by (auto simp: hostname_req_def)
  qed
qed simp

lemma set_terms_nodes: "set (terms_nodes ts acc) = set acc \<union> {n. \<exists>t\<in>set ts. term_names t n}"
  by (induction ts arbitrary: acc) (auto simp: term_nodes_None_iff term_names_def)

lemma sets_List_simps [simp]:
  "set (sets_List xs) = set xs" "sorted (sets_List xs)" "distinct (sets_List xs)"
  by (simp_all add: sets_List_def)

lemma remove_loop_eq:
  "remove_loop os d files calls errs = (calls', errs') \<Longrightarrow>
     calls' = calls @ map (\<lambda>f. FJoin [d, f]) files \<and>
     (errs' = [] \<longleftrightarrow> errs = [] \<and>
       (\<forall>i<length files. os_RemoveAll os (calls @ map (\<lambda>f. FJoin [d, f]) (take i files))
          (FJoin [d, files ! i]) = None))"
proof (induction files arbitrary: calls errs)
  case (Cons f fs)
  let ?t = "FJoin [d, f]"
  have split: "(\<forall>i<Suc (length fs). P i) \<longleftrightarrow> P 0 \<and> (\<forall>i<length fs. P (Suc i))" for P
    by (auto simp: less_Suc_eq_0_disj)
  show ?case
    using Cons.prems Cons.IH[of "calls @ [?t]" "errs @ [the (os_RemoveAll os calls ?t)]"]
      Cons.IH[of "calls @ [?t]" errs]
    by (auto simp: Let_def split split: option.splits)
qed simp

section \<open>Properties\<close>

text \<open>The node names taken from a volume's node affinity are sorted, without duplicates, and
  exactly the names that some selector term with a hostname requirement names in all of its
  hostname requirements; the function returns nil only for a volume without a required node
  affinity, so an affinity that names no host yields an empty list that is not nil.\<close>

theorem node_names_correct:
  assumes "pvs_NodeAffinity (pv_Spec pv) = Some (Some terms)"
  shows "\<exists>ns. GetLocalPersistentVolumeNodeNames (Some pv) = Some ns \<and> sorted ns \<and> distinct ns
    \<and> set ns = {n. \<exists>t\<in>set terms. term_names t n}"
  using assms by (simp add: GetLocalPersistentVolumeNodeNames_def set_terms_nodes)

definition host_req :: "string list \<Rightarrow> node_selector_requirement" where
  "host_req vs = \<lparr>nsr_Key = LabelHostname, nsr_Operator = NodeSelectorOpIn, nsr_Values = vs\<rparr>"

theorem node_names_correct_witness:
  "\<exists>ns. GetLocalPersistentVolumeNodeNames
      (Some (ex_pv ''p''\<lparr>pv_Spec := ex_spec\<lparr>pvs_NodeAffinity :=
        Some (Some [\<lparr>nst_MatchExpressions = [host_req [''b'', ''a''], host_req [''b'']]\<rparr>])\<rparr>\<rparr>)) = Some ns
    \<and> sorted ns \<and> distinct ns
    \<and> set ns = {n. \<exists>t\<in>set [\<lparr>nst_MatchExpressions = [host_req [''b'', ''a''], host_req [''b'']]\<rparr>]. term_names t n}"
  by (rule node_names_correct) simp

text \<open>C40. Clearing a filesystem volume on Linux: \<open>DeleteContents\<close> asks the operating system to
  remove every entry of the volume's directory, each exactly once and in order, even after some
  removals fail; nothing else is removed, every removed path lies strictly below the mount path,
  and it reports success exactly when every removal succeeded.\<close>

theorem delete_contents_correct:
  assumes "os_Open os mountPath = None" and "os_Readdirnames os mountPath = Inr files"
    and "\<forall>f\<in>set files. plain f"
  shows "\<exists>err. DeleteContents os hostPath mountPath = (map (\<lambda>f. FJoin [mountPath, f]) files, err)
    \<and> (\<forall>p\<in>set (map (\<lambda>f. FJoin [mountPath, f]) files). below mountPath p \<and> Clean p \<noteq> Clean mountPath)
    \<and> (err = None \<longleftrightarrow>
        (\<forall>i<length files. os_RemoveAll os (map (\<lambda>f. FJoin [mountPath, f]) (take i files))
           (FJoin [mountPath, files ! i]) = None))"
proof -
  obtain calls errs where loop: "remove_loop os mountPath files [] [] = (calls, errs)" by fastforce
  have "Clean (FJoin [mountPath, f]) \<noteq> Clean mountPath" if "f \<in> set files" for f
    using assms(3) that by (cases "path_norm mountPath") (simp add: Clean_eq_iff path_norm_FJoin_plain)
  moreover have "below mountPath (FJoin [mountPath, f])" if "f \<in> set files" for f
    using assms(3) that by (simp add: below_FJoin)
  ultimately show ?thesis
    using remove_loop_eq[OF loop] assms(1,2) loop
    by (simp add: DeleteContents_def NewAggregate_def)
qed

definition ex_os :: os where
  "ex_os = \<lparr>os_Open = (\<lambda>_. None), os_FileIsDir = (\<lambda>_. Inr True),
     os_Readdirnames = (\<lambda>_. Inr [''a'', ''b'']), os_OpenFile = (\<lambda>_. None),
     os_BlkGetSize64 = (\<lambda>_. Inr 0), os_StatMode = (\<lambda>_. Inr 16384),
     os_FsInfoCapacity = (\<lambda>_. Inr 0), os_RemoveAll = (\<lambda>_ _. None)\<rparr>"

theorem delete_contents_correct_witness:
  "\<exists>err. DeleteContents ex_os ''/h'' ''/mnt'' = (map (\<lambda>f. FJoin [''/mnt'', f]) [''a'', ''b''], err)
    \<and> (\<forall>p\<in>set (map (\<lambda>f. FJoin [''/mnt'', f]) [''a'', ''b'']). below ''/mnt'' p \<and> Clean p \<noteq> Clean ''/mnt'')
    \<and> (err = None \<longleftrightarrow>
        (\<forall>i<length [''a'', ''b'']. os_RemoveAll ex_os (map (\<lambda>f. FJoin [''/mnt'', f]) (take i [''a'', ''b'']))
           (FJoin [''/mnt'', [''a'', ''b''] ! i]) = None))"
  by (rule delete_contents_correct) (simp_all add: ex_os_def plain_def elem_ok_def)

end
