(* ===== verification/Listers.thy ===== *)
theory Listers
  imports Kube_Types
begin

text \<open>
  The informer listers of \<open>k8s.io/client-go\<close> the program reads through, and the label
  requirement it builds for one lookup. A lister is a pair of functions that may fail; the
  lister over an indexer is the instance the informers provide: its \<open>Get\<close> fails only with
  NotFound and its \<open>List\<close> never fails.
\<close>

record 'a lister =
  l_Get :: "string \<Rightarrow> 'a result"
  l_List :: "('a \<Rightarrow> bool) \<Rightarrow> 'a list result"

text \<open>The key of a namespaced object in an indexer.\<close>

definition ns_key :: "string \<Rightarrow> string \<Rightarrow> string" where
  "ns_key ns name = (if ns = [] then name else ns @ ''/'' @ name)"

definition indexer_Get :: "(string, 'a) gomap \<Rightarrow> string \<Rightarrow> 'a result" where
  "indexer_Get store key =
     (case gm_get store key of None \<Rightarrow> Inl ErrNotFound | Some obj \<Rightarrow> Inr obj)"

definition indexer_List :: "(string, 'a) gomap \<Rightarrow> ('a \<Rightarrow> bool) \<Rightarrow> 'a list result" where
  "indexer_List store sel = Inr (filter sel (map snd store))"

definition indexer_lister :: "(string, 'a) gomap \<Rightarrow> 'a lister" where
  "indexer_lister store = \<lparr>l_Get = indexer_Get store, l_List = indexer_List store\<rparr>"

section \<open>Label requirements\<close>

definition alnum :: "char \<Rightarrow> bool" where
  "alnum c \<longleftrightarrow> (CHR ''A'' \<le> c \<and> c \<le> CHR ''Z'') \<or> (CHR ''a'' \<le> c \<and> c \<le> CHR ''z'')
     \<or> (CHR ''0'' \<le> c \<and> c \<le> CHR ''9'')"

definition IsValidLabelValue :: "string \<Rightarrow> bool" where
  "IsValidLabelValue v \<longleftrightarrow> length v \<le> 63
     \<and> (v = [] \<or> alnum (hd v) \<and> alnum (last v)
          \<and> list_all (\<lambda>c. alnum c \<or> c \<in> {CHR ''-'', CHR ''_'', CHR ''.''}) v)"

text \<open>\<open>labels.NewRequirement(key, selection.Equals, []string{value})\<close> for a key that is valid:
  it fails exactly when the value is not a valid label value. A requirement is the predicate
  \<open>Matches\<close> evaluates on an object's labels.\<close>

definition NewRequirement_Equals :: "string \<Rightarrow> string \<Rightarrow> (labels \<Rightarrow> bool) result" where
  "NewRequirement_Equals key value =
     (if IsValidLabelValue value then Inr (\<lambda>ls. label_get ls key = Some value)
      else Inl (ErrOther ''invalid label value''))"

section \<open>What clients of a lister rely on\<close>

text \<open>An indexer whose entries are stored under their own key.\<close>

definition index_ok :: "('a \<Rightarrow> string) \<Rightarrow> (string, 'a) gomap \<Rightarrow> bool" where
  "index_ok key store \<longleftrightarrow> gm_inv store \<and> (\<forall>(k, v) \<in> set store. key v = k)"

text \<open>A lister that reflects a set of objects: lookups find exactly the objects of the set by
  their key and fail with NotFound otherwise, listings return the objects the selector keeps.\<close>

locale reflecting_lister =
  fixes get :: "'s \<Rightarrow> string \<Rightarrow> 'a result"
    and list_sel :: "'s \<Rightarrow> ('a \<Rightarrow> bool) \<Rightarrow> 'a list result"
    and key :: "'a \<Rightarrow> string"
    and objs :: "'s \<Rightarrow> 'a set"
    and inv :: "'s \<Rightarrow> bool"
  assumes get_found: "inv s \<Longrightarrow> x \<in> objs s \<Longrightarrow> get s (key x) = Inr x"
    and get_missing: "inv s \<Longrightarrow> (\<forall>x\<in>objs s. key x \<noteq> k) \<Longrightarrow> get s k = Inl ErrNotFound"
    and list_found: "inv s \<Longrightarrow> \<exists>xs. list_sel s sel = Inr xs \<and> set xs = {x \<in> objs s. sel x}"
begin

lemma get_cases:
  assumes "inv s"
  obtains (found) x where "x \<in> objs s" "key x = k" "get s k = Inr x"
    | (missing) "\<forall>x\<in>objs s. key x \<noteq> k" "get s k = Inl ErrNotFound"
proof (cases "\<exists>x\<in>objs s. key x = k")
  case True
  then obtain x where "x \<in> objs s" "key x = k" by blast
  with get_found[OF assms this(1)] show ?thesis by (intro found) auto
next
  case False
  then have *: "\<forall>x\<in>objs s. key x \<noteq> k" by blast
  from missing[OF * get_missing[OF assms *]] show ?thesis .
qed

lemma get_error: "inv s \<Longrightarrow> get s k = Inl e \<Longrightarrow> e = ErrNotFound"
  by (erule get_cases[of s k]) auto

lemma key_unique:
  assumes "inv s" "x \<in> objs s" "y \<in> objs s" "key x = key y"
  shows "x = y"
proof -
  have "Inr x = get s (key x)" by (rule get_found[OF assms(1,2), symmetric])
  also have "\<dots> = get s (key y)" by (simp only: assms(4))
  also have "\<dots> = Inr y" by (rule get_found[OF assms(1,3)])
  finally show ?thesis by (rule Inr_inject)
qed

lemma get_iff:
  assumes "inv s"
  shows "get s k = Inr x \<longleftrightarrow> x \<in> objs s \<and> key x = k"
  using assms by (cases rule: get_cases[of s k]) (auto dest: key_unique[OF assms])

end

lemma indexer_Get_found:
  assumes "index_ok key store" "x \<in> snd ` set store"
  shows "indexer_Get store (key x) = Inr x"
proof -
  from assms obtain k where "(k, x) \<in> set store" "key x = k"
    unfolding index_ok_def by fastforce
  then have "gm_get store (key x) = Some x"
    using assms(1) by (simp add: index_ok_def)
  then show ?thesis by (simp add: indexer_Get_def)
qed

lemma indexer_Get_missing:
  assumes "\<forall>x\<in>snd ` set store. key x \<noteq> k" "index_ok key store"
  shows "indexer_Get store k = Inl ErrNotFound"
proof (cases "gm_get store k")
  case (Some x)
  then have "(k, x) \<in> set store" by (rule map_of_SomeD)
  with assms show ?thesis by (force simp: index_ok_def)
qed (simp add: indexer_Get_def)

lemma indexer_List_found:
  "\<exists>xs. indexer_List store sel = Inr xs \<and> set xs = {x \<in> snd ` set store. sel x}"
  by (auto simp: indexer_List_def)

abbreviation node_Name :: "node \<Rightarrow> string" where
  "node_Name nd \<equiv> om_Name (node_Meta nd)"

interpretation node_index: reflecting_lister indexer_Get indexer_List node_Name
  "\<lambda>store. snd ` set store" "index_ok node_Name"
  by unfold_locales (auto intro: indexer_Get_found indexer_Get_missing indexer_List_found)

interpretation pv_index: reflecting_lister indexer_Get indexer_List pv_Name
  "\<lambda>store. snd ` set store" "index_ok pv_Name"
  by unfold_locales (auto intro: indexer_Get_found indexer_Get_missing indexer_List_found)

end
