(* ===== verification/Names.thy ===== *)
theory Names
  imports Prelude "HOL-Library.Word"
begin

unbundle bit_operations_syntax

text \<open>
  The generated object names. \<open>generatePVName\<close> of the discoverer and \<open>GenerateMountName\<close> of
  \<open>common\<close> hash their arguments with the 32-bit FNV-1a hash of \<open>hash/fnv\<close> and print the hash
  with \<open>%x\<close>; the cleaning job is named after its volume. Words keep the hash at its width.
\<close>

section \<open>FNV-1a\<close>

type_synonym u32 = "32 word"

definition fnv_offset32 :: u32 where "fnv_offset32 = 2166136261"
definition fnv_prime32 :: u32 where "fnv_prime32 = 16777619"

definition fnv_step :: "u32 \<Rightarrow> char \<Rightarrow> u32" where
  "fnv_step h c = (h XOR of_char c) * fnv_prime32"

text \<open>\<open>Write\<close> folds the bytes into the state, so writing in pieces is writing the
  concatenation.\<close>

definition fnv_write :: "u32 \<Rightarrow> string \<Rightarrow> u32" where
  "fnv_write h s = foldl fnv_step h s"

lemma fnv_write_append [simp]: "fnv_write (fnv_write h a) b = fnv_write h (a @ b)"
  by (simp add: fnv_write_def)

section \<open>Hexadecimal printing\<close>

definition hex_digit :: "nat \<Rightarrow> char" where
  "hex_digit d = ''0123456789abcdef'' ! d"

fun hex_nat :: "nat \<Rightarrow> string" where
  "hex_nat n = (if n < 16 then [hex_digit n] else hex_nat (n div 16) @ [hex_digit (n mod 16)])"

declare hex_nat.simps [simp del]

definition unhex_digit :: "char \<Rightarrow> nat" where
  "unhex_digit c = (if of_char c < (87 :: nat) then of_char c - 48 else of_char c - 87)"

definition unhex :: "string \<Rightarrow> nat" where
  "unhex s = foldl (\<lambda>n c. 16 * n + unhex_digit c) 0 s"

lemma unhex_hex_digit: "d < 16 \<Longrightarrow> unhex_digit (hex_digit d) = d"
proof -
  have "\<forall>d\<in>set [0..<16]. unhex_digit (hex_digit d) = d" by code_simp
  then show "d < 16 \<Longrightarrow> unhex_digit (hex_digit d) = d" by simp
qed

lemma unhex_hex_nat: "unhex (hex_nat n) = n"
proof (induction n rule: hex_nat.induct)
  case (1 n)
  show ?case
  proof (cases "n < 16")
    case True
    then show ?thesis
      by (simp add: hex_nat.simps[of n] unhex_def unhex_hex_digit)
  next
    case False
    with 1 have "unhex (hex_nat (n div 16)) = n div 16" by simp
    with False show ?thesis
      by (simp add: hex_nat.simps[of n] unhex_def unhex_hex_digit)
  qed
qed

lemma hex_nat_inject [simp]: "hex_nat m = hex_nat n \<longleftrightarrow> m = n"
  by (metis unhex_hex_nat)

lemma length_hex_nat: "0 < k \<Longrightarrow> n < 16 ^ k \<Longrightarrow> length (hex_nat n) \<le> k"
proof (induction k arbitrary: n)
  case (Suc k)
  show ?case
  proof (cases "n < 16")
    case True
    then show ?thesis by (simp add: hex_nat.simps[of n])
  next
    case False
    with Suc.prems have "k \<noteq> 0" by (cases k) auto
    moreover from Suc.prems have "n div 16 < 16 ^ k"
      by (simp add: less_mult_imp_div_less mult.commute)
    ultimately have "length (hex_nat (n div 16)) \<le> k" using Suc.IH by simp
    with False show ?thesis by (simp add: hex_nat.simps[of n])
  qed
qed simp

section \<open>Names\<close>

definition generatePVName :: "string \<Rightarrow> string \<Rightarrow> string \<Rightarrow> string" where
  "generatePVName file node class =
     (let h = fnv_offset32;
          h = fnv_write h file;
          h = fnv_write h node;
          h = fnv_write h class
      in ''local-pv-'' @ hex_nat (unat h))"

definition JobNamePrefix :: string where "JobNamePrefix = ''cleanup-''"

definition generateCleaningJobName :: "string \<Rightarrow> string" where
  "generateCleaningJobName pvName = JobNamePrefix @ pvName"

lemma generateCleaningJobName_inj [simp]:
  "generateCleaningJobName a = generateCleaningJobName b \<longleftrightarrow> a = b"
  by (simp add: generateCleaningJobName_def)

lemma generatePVName_eq_iff:
  "generatePVName f n c = generatePVName f' n' c' \<longleftrightarrow>
     fnv_write fnv_offset32 (f @ n @ c) = fnv_write fnv_offset32 (f' @ n' @ c')"
  by (auto simp: generatePVName_def simp: word_unat_eq_iff)

lemma generatePVName_mount1: "generatePVName ''mount1'' ''test-node'' ''sc1'' = ''local-pv-aaaafef5''"
  by (simp add: generatePVName_def fnv_write_def fnv_step_def fnv_offset32_def fnv_prime32_def
      hex_nat.simps hex_digit_def)

end
