(* ===== verification/Common.thy ===== *)
theory Common
  imports Cache Volume_Util Listers Names "HOL-Library.Monad_Syntax"
begin

text \<open>
  \<open>pkg/common/common.go\<close>: the configuration of the provisioner, the construction of a
  PersistentVolume, the path of a volume inside the container, the mode of a volume, and the
  checks the node-cleanup controller shares with the provisioner. A function that can panic or
  exit the process returns an \<open>option\<close>: \<open>None\<close> is the end of the process.
\<close>

declare map_of_eq_Some_iff [simp del] Some_eq_map_of_iff [simp del]

section \<open>Constants\<close>

abbreviation AnnProvisionedBy :: string where "AnnProvisionedBy \<equiv> ''pv.kubernetes.io/provisioned-by''"
abbreviation NodeLabelKey :: string where "NodeLabelKey \<equiv> LabelHostname"
abbreviation DefaultBlockCleanerCommand :: string where
  "DefaultBlockCleanerCommand \<equiv> ''/scripts/quick_reset.sh''"
abbreviation EventVolumeFailedDelete :: string where "EventVolumeFailedDelete \<equiv> ''VolumeFailedDelete''"
abbreviation VolumeDelete :: string where "VolumeDelete \<equiv> ''VolumeDelete''"
abbreviation AlphaStorageNodeAffinityAnnotation :: string where
  "AlphaStorageNodeAffinityAnnotation \<equiv> ''volume.alpha.kubernetes.io/node-affinity''"
abbreviation ProvisonerStorageClassConfig :: string where
  "ProvisonerStorageClassConfig \<equiv> ''storageClassMap''"
abbreviation ProvisionerNodeLabelsForPV :: string where
  "ProvisionerNodeLabelsForPV \<equiv> ''nodeLabelsForPV''"
abbreviation ProvisionerUseAlphaAPI :: string where "ProvisionerUseAlphaAPI \<equiv> ''useAlphaAPI''"
abbreviation LocalPVEnv :: string where "LocalPVEnv \<equiv> ''LOCAL_PV_BLKDEVICE''"
abbreviation LocalFilesystemEnv :: string where "LocalFilesystemEnv \<equiv> ''LOCAL_PV_FILESYSTEM''"
abbreviation NodeNameLabel :: string where "NodeNameLabel \<equiv> ''kubernetes.io/hostname''"
abbreviation DefaultVolumeMode :: string where "DefaultVolumeMode \<equiv> ''Filesystem''"
abbreviation DefaultNamePattern :: string where "DefaultNamePattern \<equiv> ''*''"

section \<open>Configuration\<close>

text \<open>A nil \<open>BlockCleanerCommand\<close> is \<open>None\<close>; its length is then 0.\<close>

record MountConfig =
  mc_HostDir :: string
  mc_MountDir :: string
  mc_BlockCleanerCommand :: "string list option"
  mc_VolumeMode :: string
  mc_AccessMode :: string
  mc_FsType :: string
  mc_NamePattern :: string
  mc_Selector :: "node_selector_term list"

definition cleaner_command :: "MountConfig \<Rightarrow> string list" where
  "cleaner_command mc = (case mc_BlockCleanerCommand mc of None \<Rightarrow> [] | Some c \<Rightarrow> c)"

record UserConfig =
  uc_Node :: node
  uc_DiscoveryMap :: "(string, MountConfig) gomap"
  uc_NodeLabelsForPV :: "string list"
  uc_UseAlphaAPI :: bool
  uc_UseJobForCleaning :: bool
  uc_Namespace :: string
  uc_JobContainerImage :: string
  uc_JobTolerations :: "toleration list"
  uc_MinResyncPeriod :: int
  uc_UseNodeNameOnly :: bool
  uc_LabelsForPV :: "(string, string) gomap"
  uc_SetPVOwnerRef :: bool
  uc_RemoveNodeNotReadyTaint :: bool
  uc_ProvisionerNotReadyNodeTaintKey :: string

text \<open>\<open>RuntimeConfig\<close>: the name and the user configuration. Its other fields are references to
  the cache, the API and volume layers, the recorder, the mounter and the informers, which are
  the other components' states and arguments.\<close>

record RuntimeConfig =
  rc_UserConfig :: UserConfig
  rc_Name :: string

record ProvisionerConfiguration =
  pc_StorageClassConfig :: "(string, MountConfig) gomap"
  pc_NodeLabelsForPV :: "string list"
  pc_UseAlphaAPI :: bool
  pc_UseJobForCleaning :: bool
  pc_JobTolerations :: "toleration list"
  pc_MinResyncPeriod :: int
  pc_UseNodeNameOnly :: bool
  pc_LabelsForPV :: "(string, string) gomap"
  pc_SetPVOwnerRef :: bool
  pc_RemoveNodeNotReadyTaint :: bool
  pc_ProvisionerNotReadyNodeTaintKey :: string

definition UserConfigFromProvisionerConfig ::
    "node \<Rightarrow> string \<Rightarrow> string \<Rightarrow> ProvisionerConfiguration \<Rightarrow> UserConfig" where
  "UserConfigFromProvisionerConfig nd namespace jobImage config =
     \<lparr>uc_Node = nd,
      uc_DiscoveryMap = pc_StorageClassConfig config,
      uc_NodeLabelsForPV = pc_NodeLabelsForPV config,
      uc_UseAlphaAPI = pc_UseAlphaAPI config,
      uc_UseJobForCleaning = pc_UseJobForCleaning config,
      uc_Namespace = namespace,
      uc_JobContainerImage = jobImage,
      uc_JobTolerations = pc_JobTolerations config,
      uc_MinResyncPeriod = pc_MinResyncPeriod config,
      uc_UseNodeNameOnly = pc_UseNodeNameOnly config,
      uc_LabelsForPV = pc_LabelsForPV config,
      uc_SetPVOwnerRef = pc_SetPVOwnerRef config,
      uc_RemoveNodeNotReadyTaint = pc_RemoveNodeNotReadyTaint config,
      uc_ProvisionerNotReadyNodeTaintKey = pc_ProvisionerNotReadyNodeTaintKey config\<rparr>"

subsection \<open>Defaults and validation\<close>

text \<open>\<open>runtime.GOOS\<close> is an argument.\<close>

definition replace_slash :: "string \<Rightarrow> string" where
  "replace_slash s = map (\<lambda>c. if c = CHR ''/'' then CHR 0x5C else c) s"

definition normalizePath :: "string \<Rightarrow> string \<Rightarrow> string" where
  "normalizePath goos path =
     (if goos \<noteq> ''windows'' then path
      else let normalizedPath = replace_slash path in
           if prefix [CHR 0x5C] normalizedPath then ''c:'' @ normalizedPath else normalizedPath)"

text \<open>The body of the loop over the storage classes: the configuration with its defaults, or the
  error that ends the function.\<close>

definition default_config :: "string \<Rightarrow> string \<Rightarrow> MountConfig \<Rightarrow> MountConfig result" where
  "default_config goos class config =
     (if mc_BlockCleanerCommand config = Some [] then
        Inl (Errorf ''Invalid empty block cleaner command for class %v'' [class])
      else
        let config = (if mc_BlockCleanerCommand config = None
              then config\<lparr>mc_BlockCleanerCommand := Some [DefaultBlockCleanerCommand]\<rparr> else config) in
        if mc_MountDir config = [] \<or> mc_HostDir config = [] then
          Inl (Errorf ''Storage Class %v is misconfigured, missing HostDir or MountDir parameter'' [class])
        else
          let config = config\<lparr>mc_MountDir := normalizePath goos (mc_MountDir config)\<rparr>;
              config = config\<lparr>mc_HostDir := normalizePath goos (mc_HostDir config)\<rparr>;
              config = (if mc_VolumeMode config = [] then config\<lparr>mc_VolumeMode := DefaultVolumeMode\<rparr>
                        else config);
              config = (if mc_NamePattern config = [] then config\<lparr>mc_NamePattern := DefaultNamePattern\<rparr>
                        else config) in
          if mc_VolumeMode config \<noteq> PersistentVolumeBlock \<and> mc_VolumeMode config \<noteq> PersistentVolumeFilesystem
          then Inl (Errorf ''unsupported volume mode %s'' [mc_VolumeMode config])
          else Inr config)"

fun default_loop :: "string \<Rightarrow> (string, MountConfig) gomap \<Rightarrow> (string, MountConfig) gomap
    \<Rightarrow> error option \<times> (string, MountConfig) gomap" where
  "default_loop goos [] m = (None, m)"
| "default_loop goos ((class, config) # rest) m =
     (case default_config goos class config of
        Inl err \<Rightarrow> (Some err, m)
      | Inr config' \<Rightarrow> default_loop goos rest (gm_put class config' m))"

definition insertSpaces :: "string \<Rightarrow> string" where
  "insertSpaces original =
     concat (map (\<lambda>line. ''   '' @ line @ [CHR 0x0A]) (Split original (CHR 0x0A)))"

definition raw_yaml :: "(string, string) gomap \<Rightarrow> string" where
  "raw_yaml data = concat (map (\<lambda>(key, val). key @ '': '' @ [CHR 0x0A] @ insertSpaces val) data)"

text \<open>\<open>yaml.Unmarshal\<close> is an argument: it fills the configuration it is given, perhaps only in part when it fails.\<close>

definition ConfigMapDataToVolumeConfig ::
    "(string \<Rightarrow> ProvisionerConfiguration \<Rightarrow> error option \<times> ProvisionerConfiguration) \<Rightarrow> string
     \<Rightarrow> (string, string) gomap \<Rightarrow> ProvisionerConfiguration
     \<Rightarrow> error option \<times> ProvisionerConfiguration" where
  "ConfigMapDataToVolumeConfig unmarshal goos data pc =
     (case unmarshal (raw_yaml data) pc of
        (Some err, pc') \<Rightarrow> (Some (Wrapf ''fail to Unmarshal yaml due to: %#v'' [] err), pc')
      | (None, pc') \<Rightarrow>
          (case default_loop goos (pc_StorageClassConfig pc') (pc_StorageClassConfig pc') of
             (err, m) \<Rightarrow> (err, pc'\<lparr>pc_StorageClassConfig := m\<rparr>)))"

text \<open>\<open>yaml.Marshal\<close> of the three values is an argument each.\<close>

definition VolumeConfigToConfigMapData ::
    "((string, MountConfig) gomap \<Rightarrow> string result) \<Rightarrow> (string list \<Rightarrow> string result)
     \<Rightarrow> (bool \<Rightarrow> string result) \<Rightarrow> ProvisionerConfiguration \<Rightarrow> (string, string) gomap result" where
  "VolumeConfigToConfigMapData marshalClasses marshalLabels marshalBool config =
     (case marshalClasses (pc_StorageClassConfig config) of
        Inl err \<Rightarrow> Inl (Wrapf ''unable to Marshal volume config: %v'' [] err)
      | Inr val \<Rightarrow>
          let d = gm_put ProvisonerStorageClassConfig val [] in
          case (if length (pc_NodeLabelsForPV config) > 0
                then (case marshalLabels (pc_NodeLabelsForPV config) of
                        Inl err \<Rightarrow> Inl (Wrapf ''unable to Marshal node label: %v'' [] err)
                      | Inr nodeLabels \<Rightarrow> Inr (gm_put ProvisionerNodeLabelsForPV nodeLabels d))
                else Inr d) of
            Inl err \<Rightarrow> Inl err
          | Inr d' \<Rightarrow>
              (case marshalBool (pc_UseAlphaAPI config) of
                 Inl err \<Rightarrow> Inl (Wrapf ''unable to Marshal API version config: %v'' [] err)
               | Inr ver \<Rightarrow> Inr (gm_put ProvisionerUseAlphaAPI ver d')))"

text \<open>The directory listing (name and whether it is a directory) and the file contents are
  arguments.\<close>

fun load_files :: "(string \<Rightarrow> string result) \<Rightarrow> string \<Rightarrow> (string \<times> bool) list
    \<Rightarrow> (string, string) gomap \<Rightarrow> (string, string) gomap result" where
  "load_files readFile configPath [] data = Inr data"
| "load_files readFile configPath ((name, isdir) # files) data =
     (if \<not> isdir \<and> name \<noteq> ''..data'' then
        (case readFile (FJoin [configPath, name]) of
           Inl err \<Rightarrow> Inl err
         | Inr contents \<Rightarrow> load_files readFile configPath files (gm_put name contents data))
      else load_files readFile configPath files data)"

definition LoadProvisionerConfigs ::
    "(string \<Rightarrow> (string \<times> bool) list result) \<Rightarrow> (string \<Rightarrow> string result)
     \<Rightarrow> (string \<Rightarrow> ProvisionerConfiguration \<Rightarrow> error option \<times> ProvisionerConfiguration) \<Rightarrow> string
     \<Rightarrow> string \<Rightarrow> ProvisionerConfiguration \<Rightarrow> error option \<times> ProvisionerConfiguration" where
  "LoadProvisionerConfigs readDir readFile unmarshal goos configPath pc =
     (case readDir configPath of
        Inl err \<Rightarrow> (Some err, pc)
      | Inr files \<Rightarrow>
          (case load_files readFile configPath files [] of
             Inl err \<Rightarrow> (Some err, pc)
           | Inr data \<Rightarrow> ConfigMapDataToVolumeConfig unmarshal goos data pc))"

section \<open>Volumes\<close>

record LocalPVConfig =
  lp_Name :: string
  lp_HostPath :: string
  lp_Capacity :: int
  lp_StorageClass :: string
  lp_ReclaimPolicy :: string
  lp_ProvisionerName :: string
  lp_UseAlphaAPI :: bool
  lp_AffinityAnn :: string
  lp_NodeAffinity :: "node_selector option option"
  lp_VolumeMode :: string
  lp_AccessMode :: string
  lp_MountOptions :: "string list"
  lp_FsType :: "string option"
  lp_Labels :: "(string, string) gomap"
  lp_SetPVOwnerRef :: bool
  lp_OwnerReference :: "owner_reference option"

text \<open>Dereferencing a nil owner reference panics.\<close>

definition CreateLocalPVSpec :: "LocalPVConfig \<Rightarrow> persistent_volume option" where
  "CreateLocalPVSpec config =
     (let ann = [(AnnProvisionedBy, lp_ProvisionerName config)];
          pv = \<lparr>pv_Meta = empty_meta\<lparr>om_Name := lp_Name config, om_Labels := Some (lp_Labels config),
                   om_Annotations := Some ann\<rparr>,
                pv_Spec = \<lparr>pvs_Capacity = [(ResourceStorage, lp_Capacity config)],
                   pvs_Local = Some \<lparr>lvs_Path = lp_HostPath config, lvs_FSType = lp_FsType config\<rparr>,
                   pvs_AccessModes = [lp_AccessMode config],
                   pvs_ClaimRef = None,
                   pvs_ReclaimPolicy = lp_ReclaimPolicy config,
                   pvs_StorageClassName = lp_StorageClass config,
                   pvs_MountOptions = lp_MountOptions config,
                   pvs_VolumeMode = Some (lp_VolumeMode config),
                   pvs_NodeAffinity = None\<rparr>,
                pv_Phase = []\<rparr>;
          pv = (if lp_AccessMode config = [] then
                  pv\<lparr>pv_Spec := (pv_Spec pv)\<lparr>pvs_AccessModes := [ReadWriteOnce]\<rparr>\<rparr> else pv);
          pv = (if lp_UseAlphaAPI config then
                  pv\<lparr>pv_Meta := (pv_Meta pv)\<lparr>om_Annotations :=
                       Some (gm_put AlphaStorageNodeAffinityAnnotation (lp_AffinityAnn config) ann)\<rparr>\<rparr>
                else pv\<lparr>pv_Spec := (pv_Spec pv)\<lparr>pvs_NodeAffinity := lp_NodeAffinity config\<rparr>\<rparr>)
      in if lp_SetPVOwnerRef config then
           (case lp_OwnerReference config of
              None \<Rightarrow> None
            | Some r \<Rightarrow> Some (pv\<lparr>pv_Meta := (pv_Meta pv)\<lparr>om_OwnerReferences := [r]\<rparr>\<rparr>))
         else Some pv)"

text \<open>Reading \<open>pv.Spec.Local.Path\<close> panics for a volume without a local source.\<close>

definition GetContainerPath :: "persistent_volume \<Rightarrow> MountConfig \<Rightarrow> string result option" where
  "GetContainerPath pv config =
     (case pvs_Local (pv_Spec pv) of
        None \<Rightarrow> None
      | Some lvs \<Rightarrow>
          (case Rel (mc_HostDir config) (lvs_Path lvs) of
             Inl err \<Rightarrow> Some (Inl (Wrapf ''Could not get relative path for pv %q: %v'' [pv_Name pv] err))
           | Inr relativePath \<Rightarrow> Some (Inr (FJoin [mc_MountDir config, relativePath]))))"

definition GenerateMountName :: "MountConfig \<Rightarrow> string" where
  "GenerateMountName mount =
     (let h = fnv_offset32;
          h = fnv_write h (mc_HostDir mount);
          h = fnv_write h (mc_MountDir mount)
      in ''mount-'' @ hex_nat (unat h))"

definition GetVolumeMode :: "string \<Rightarrow> VolumeUtil \<Rightarrow> string \<Rightarrow> string result" where
  "GetVolumeMode goos volUtil fullPath =
     (if goos = ''windows'' then Inr PersistentVolumeFilesystem
      else case vu_IsDir volUtil fullPath of (isdir, errdir) \<Rightarrow>
        if isdir then Inr PersistentVolumeFilesystem
        else case vu_IsBlock volUtil fullPath of (isblk, errblk) \<Rightarrow>
          if isblk then Inr PersistentVolumeBlock
          else case (errdir, errblk) of
            (None, None) \<Rightarrow> Inl (Errorf ''Skipping file %q: not a directory nor block device'' [fullPath])
          | (Some e, _) \<Rightarrow> Inl (Wrapf ''Directory check for %q failed: %s'' [fullPath] e)
          | (None, Some e) \<Rightarrow> Inl (Wrapf ''Block device check for %q failed: %s'' [fullPath] e))"

section \<open>Nodes and storage classes\<close>

fun AnyNodeExists :: "node lister \<Rightarrow> string list \<Rightarrow> bool" where
  "AnyNodeExists nodeLister [] = False"
| "AnyNodeExists nodeLister (nodeName # rest) =
     (case l_Get nodeLister nodeName of
        Inr _ \<Rightarrow> True
      | Inl err \<Rightarrow>
          if \<not> IsNotFound err then True
          else case NewRequirement_Equals NodeLabelKey nodeName of
            Inl _ \<Rightarrow> True
          | Inr req \<Rightarrow>
              (case l_List nodeLister (\<lambda>nd. req (om_Labels (node_Meta nd))) of
                 Inl _ \<Rightarrow> True
               | Inr nodes \<Rightarrow> if length nodes > 0 then True else AnyNodeExists nodeLister rest))"

fun matches_class :: "string \<Rightarrow> string list \<Rightarrow> bool" where
  "matches_class c [] = False"
| "matches_class c (storageClassName # rest) =
     (if c = storageClassName then True else matches_class c rest)"

definition IsLocalPVWithStorageClass :: "persistent_volume \<Rightarrow> string list \<Rightarrow> bool" where
  "IsLocalPVWithStorageClass pv storageClassNames =
     (if pvs_Local (pv_Spec pv) = None then False
      else matches_class (pvs_StorageClassName (pv_Spec pv)) storageClassNames)"

lemma matches_class_iff [simp]: "matches_class c cs \<longleftrightarrow> c \<in> set cs"
  by (induction cs) auto

section \<open>What callers rely on in a volume utility\<close>

text \<open>
  Every implementation of \<open>VolumeUtil\<close> returns a true flag only without an error, so the
  mode of a volume is decided by the flags alone and the errors only explain a failure.
\<close>

locale volume_util =
  fixes vu :: "'x \<Rightarrow> VolumeUtil"
  assumes dir_flag: "vu_IsDir (vu x) p = (True, e) \<Longrightarrow> e = None"
    and block_flag: "vu_IsBlock (vu x) p = (True, e) \<Longrightarrow> e = None"
begin

lemma mode_filesystem:
  "goos \<noteq> ''windows'' \<Longrightarrow>
   GetVolumeMode goos (vu x) p = Inr PersistentVolumeFilesystem \<longleftrightarrow> vu_IsDir (vu x) p = (True, None)"
  by (auto simp: GetVolumeMode_def dir_flag split: prod.splits option.splits)

lemma mode_block:
  "goos \<noteq> ''windows'' \<Longrightarrow>
   GetVolumeMode goos (vu x) p = Inr PersistentVolumeBlock \<longleftrightarrow>
     \<not> fst (vu_IsDir (vu x) p) \<and> vu_IsBlock (vu x) p = (True, None)"
  by (auto simp: GetVolumeMode_def block_flag split: prod.splits option.splits)

end

interpretation linux_vu: volume_util linux_VolumeUtil
  by unfold_locales
    (auto simp: linux_VolumeUtil_def Volume_Util.IsDir_def IsBlock_def split: option.splits sum.splits)

interpretation windows_vu: volume_util "\<lambda>(os, csi). windows_VolumeUtil os csi"
  by unfold_locales
    (auto simp: windows_VolumeUtil_def Volume_Util.IsDir_def Win_IsBlock_def split: option.splits sum.splits)

interpretation unsupported_vu: volume_util unsupported_VolumeUtil
  by unfold_locales
    (auto simp: unsupported_VolumeUtil_def Volume_Util.IsDir_def split: option.splits sum.splits)

interpretation fake_vu: volume_util fake_VolumeUtil
  by unfold_locales
    (auto simp: fake_VolumeUtil_def Fake_IsDir_def Fake_IsBlock_def split: option.splits sum.splits if_splits)

lemma GetVolumeMode_cases:
  assumes "GetVolumeMode goos vu p = Inr m"
  shows "m = PersistentVolumeFilesystem \<or> m = PersistentVolumeBlock"
  using assms by (auto simp: GetVolumeMode_def split: if_splits prod.splits option.splits)

section \<open>Configuration lemmas\<close>

text \<open>What the rest of the program relies on in a storage class configuration.\<close>

definition config_ok :: "MountConfig \<Rightarrow> bool" where
  "config_ok c \<longleftrightarrow> mc_HostDir c \<noteq> [] \<and> mc_MountDir c \<noteq> [] \<and> cleaner_command c \<noteq> []
     \<and> mc_VolumeMode c \<in> {PersistentVolumeBlock, PersistentVolumeFilesystem}
     \<and> mc_NamePattern c \<noteq> []"

lemma normalizePath_Nil [simp]: "normalizePath goos p = [] \<longleftrightarrow> p = []"
  by (cases p) (simp_all add: normalizePath_def replace_slash_def Let_def)

lemma replace_slash_idem [simp]: "replace_slash (replace_slash s) = replace_slash s"
  by (simp add: replace_slash_def)

lemma replace_slash_drive: "replace_slash (CHR ''c'' # CHR '':'' # s) = CHR ''c'' # CHR '':'' # replace_slash s"
  by (simp add: replace_slash_def)

lemma normalizePath_idem [simp]: "normalizePath goos (normalizePath goos p) = normalizePath goos p"
  by (auto simp: normalizePath_def Let_def replace_slash_drive)

lemma default_config_ok: "default_config goos class c = Inr c' \<Longrightarrow> config_ok c'"
  by (auto simp: default_config_def config_ok_def cleaner_command_def Let_def
      split: if_splits option.splits)

lemma default_config_normal:
  "default_config goos class c = Inr c' \<Longrightarrow>
     mc_BlockCleanerCommand c' \<noteq> None \<and> normalizePath goos (mc_MountDir c') = mc_MountDir c'
     \<and> normalizePath goos (mc_HostDir c') = mc_HostDir c'"
  by (auto simp: default_config_def Let_def split: if_splits)

lemma default_config_fixed:
  assumes "config_ok c" "mc_BlockCleanerCommand c \<noteq> None"
    "normalizePath goos (mc_MountDir c) = mc_MountDir c" "normalizePath goos (mc_HostDir c) = mc_HostDir c"
  shows "default_config goos class c = Inr c"
  using assms by (auto simp: default_config_def config_ok_def cleaner_command_def Let_def)

lemma default_config_idem:
  "default_config goos class c = Inr c' \<Longrightarrow> default_config goos class' c' = Inr c'"
  by (intro default_config_fixed) (auto dest: default_config_ok default_config_normal)

lemma default_loop_lookup:
  "default_loop goos cs m = (None, m') \<Longrightarrow> distinct (map fst cs) \<Longrightarrow>
   gm_get m' k = (case gm_get cs k of
      None \<Rightarrow> gm_get m k
    | Some c \<Rightarrow> (case default_config goos k c of Inr c' \<Rightarrow> Some c' | Inl _ \<Rightarrow> None))
   \<and> (\<forall>c. gm_get cs k = Some c \<longrightarrow> (\<exists>c'. default_config goos k c = Inr c'))"
proof (induction cs arbitrary: m)
  case (Cons a cs)
  obtain cl config where a: "a = (cl, config)" by fastforce
  from Cons.prems a obtain c' where c': "default_config goos cl config = Inr c'"
    by (auto split: sum.splits)
  with Cons.prems a have "default_loop goos cs (gm_put cl c' m) = (None, m')" by simp
  moreover from Cons.prems(2) a have "gm_get cs cl = None" "gm_inv cs"
    by (simp_all add: map_of_eq_None_iff)
  ultimately show ?case
    using Cons.IH[of "gm_put cl c' m"] a c' by (cases "k = cl"; cases "gm_get cs k") auto
qed simp

lemma default_loop_error:
  "default_loop goos cs m = (Some e, m') \<Longrightarrow>
     \<exists>class c. (class, c) \<in> set cs \<and> default_config goos class c = Inl e"
  by (induction cs arbitrary: m) (fastforce split: sum.splits)+

section \<open>Properties\<close>

text \<open>C29. Loading the provisioner configuration: whatever the YAML decoder produced, if the load
  reports success then every storage class of the decoded configuration is in the result with
  its defaults filled in, no other class is, and each result is usable: both directories are
  set, there is a block cleaner command, the volume mode is Block or Filesystem and the name
  pattern is not empty. If the load fails after decoding, some class was rejected.\<close>

theorem volume_config_valid:
  assumes "unmarshal (raw_yaml data) pc = (None, pc')" and "gm_inv (pc_StorageClassConfig pc')"
  shows "case ConfigMapDataToVolumeConfig unmarshal goos data pc of
      (None, r) \<Rightarrow>
        dom (gm_get (pc_StorageClassConfig r)) = dom (gm_get (pc_StorageClassConfig pc'))
        \<and> (\<forall>class c. gm_get (pc_StorageClassConfig r) class = Some c \<longrightarrow> config_ok c
             \<and> default_config goos class (the (gm_get (pc_StorageClassConfig pc') class)) = Inr c)
    | (Some e, r) \<Rightarrow> \<exists>class c. gm_get (pc_StorageClassConfig pc') class = Some c
             \<and> default_config goos class c = Inl e"
proof -
  let ?cs = "pc_StorageClassConfig pc'"
  obtain err m where loop: "default_loop goos ?cs ?cs = (err, m)" by fastforce
  with assms(1) have r: "ConfigMapDataToVolumeConfig unmarshal goos data pc
      = (err, pc'\<lparr>pc_StorageClassConfig := m\<rparr>)"
    by (simp add: ConfigMapDataToVolumeConfig_def)
  show ?thesis
  proof (cases err)
    case None
    note look = default_loop_lookup[OF loop[unfolded None] assms(2)]
    have "dom (gm_get m) = dom (gm_get ?cs)"
      using look by (fastforce split: option.splits)
    moreover have "config_ok c \<and> default_config goos cl (the (gm_get ?cs cl)) = Inr c"
      if "gm_get m cl = Some c" for cl c
      using look[of cl] that by (cases "gm_get ?cs cl") (auto dest: default_config_ok)
    ultimately show ?thesis using r None by simp
  next
    case (Some e)
    from default_loop_error[OF loop[unfolded Some]] obtain cl c
      where "(cl, c) \<in> set ?cs" "default_config goos cl c = Inl e" by blast
    with assms(2) r Some show ?thesis by (auto intro!: exI[of _ cl] exI[of _ c])
  qed
qed

definition ex_mount :: MountConfig where
  "ex_mount = \<lparr>mc_HostDir = ''/mnt/disks'', mc_MountDir = ''/mnt/disks'', mc_BlockCleanerCommand = None,
     mc_VolumeMode = [], mc_AccessMode = [], mc_FsType = [], mc_NamePattern = [], mc_Selector = []\<rparr>"

definition ex_pc :: "(string, MountConfig) gomap \<Rightarrow> ProvisionerConfiguration" where
  "ex_pc m = \<lparr>pc_StorageClassConfig = m, pc_NodeLabelsForPV = [], pc_UseAlphaAPI = False,
     pc_UseJobForCleaning = False, pc_JobTolerations = [], pc_MinResyncPeriod = 300000000000,
     pc_UseNodeNameOnly = False, pc_LabelsForPV = [], pc_SetPVOwnerRef = False,
     pc_RemoveNodeNotReadyTaint = False, pc_ProvisionerNotReadyNodeTaintKey = []\<rparr>"

theorem volume_config_valid_witness:
  "case ConfigMapDataToVolumeConfig (\<lambda>_ _. (None, ex_pc [(''fast'', ex_mount)])) ''linux'' [] (ex_pc []) of
      (None, r) \<Rightarrow>
        dom (gm_get (pc_StorageClassConfig r)) = dom (gm_get (pc_StorageClassConfig (ex_pc [(''fast'', ex_mount)])))
        \<and> (\<forall>class c. gm_get (pc_StorageClassConfig r) class = Some c \<longrightarrow> config_ok c
             \<and> default_config ''linux'' class (the (gm_get (pc_StorageClassConfig (ex_pc [(''fast'', ex_mount)])) class)) = Inr c)
    | (Some e, r) \<Rightarrow> \<exists>class c. gm_get (pc_StorageClassConfig (ex_pc [(''fast'', ex_mount)])) class = Some c
             \<and> default_config ''linux'' class c = Inl e"
  by (rule volume_config_valid) (simp_all add: ex_pc_def)

text \<open>Filling in the defaults is idempotent: a storage class configuration that was accepted
  is accepted again unchanged, on every platform, so reloading an unchanged configuration into
  the same structure leaves it unchanged.\<close>

theorem defaults_idempotent:
  assumes "default_config goos class c = Inr c'"
  shows "default_config goos class c' = Inr c' \<and> config_ok c'"
  using assms default_config_idem default_config_ok by blast

theorem defaults_idempotent_witness:
  "default_config ''windows'' ''fast'' (ex_mount\<lparr>mc_HostDir := CHR ''c'' # CHR '':'' # CHR 0x5C # ''d'',
      mc_MountDir := CHR ''c'' # CHR '':'' # CHR 0x5C # ''d'',
      mc_BlockCleanerCommand := Some [DefaultBlockCleanerCommand],
      mc_VolumeMode := DefaultVolumeMode, mc_NamePattern := DefaultNamePattern\<rparr>)
    = Inr (ex_mount\<lparr>mc_HostDir := CHR ''c'' # CHR '':'' # CHR 0x5C # ''d'',
      mc_MountDir := CHR ''c'' # CHR '':'' # CHR 0x5C # ''d'',
      mc_BlockCleanerCommand := Some [DefaultBlockCleanerCommand],
      mc_VolumeMode := DefaultVolumeMode, mc_NamePattern := DefaultNamePattern\<rparr>)"
proof -
  have "default_config ''windows'' ''fast'' (ex_mount\<lparr>mc_HostDir := ''c:/d'', mc_MountDir := ''c:/d''\<rparr>)
    = Inr (ex_mount\<lparr>mc_HostDir := CHR ''c'' # CHR '':'' # CHR 0x5C # ''d'',
      mc_MountDir := CHR ''c'' # CHR '':'' # CHR 0x5C # ''d'',
      mc_BlockCleanerCommand := Some [DefaultBlockCleanerCommand],
      mc_VolumeMode := DefaultVolumeMode, mc_NamePattern := DefaultNamePattern\<rparr>)"
    by (simp add: default_config_def ex_mount_def normalizePath_def replace_slash_def Let_def)
  from defaults_idempotent[OF this] show ?thesis by (rule conjunct1)
qed

text \<open>Host path and container path: the volume the discoverer finds as file \<open>f\<close> of a class's
  mount directory and publishes under the host directory is found again by the deleter under
  exactly the path it was discovered at, for any host and mount directories, clean or not,
  rooted or not.\<close>

theorem container_path_roundtrip:
  assumes "plain f" and "pvs_Local (pv_Spec pv) = Some \<lparr>lvs_Path = FJoin [mc_HostDir config, f], lvs_FSType = fs\<rparr>"
  shows "GetContainerPath pv config = Some (Inr (FJoin [mc_MountDir config, f]))"
  using assms by (simp add: GetContainerPath_def Rel_FJoin)

theorem container_path_roundtrip_witness:
  "GetContainerPath (ex_pv ''p'') (ex_mount\<lparr>mc_MountDir := ''/local''\<rparr>) = Some (Inr (FJoin [''/local'', ''vol1'']))"
proof -
  have "FJoin [''/mnt/disks'', ''vol1''] = ''/mnt/disks/vol1''" by code_simp
  then have "pvs_Local (pv_Spec (ex_pv ''p'')) = Some \<lparr>lvs_Path = FJoin [mc_HostDir (ex_mount\<lparr>mc_MountDir := ''/local''\<rparr>), ''vol1''], lvs_FSType = None\<rparr>"
    by (simp add: ex_pv_def ex_spec_def ex_mount_def)
  from container_path_roundtrip[OF _ this] show ?thesis by (simp add: plain_def elem_ok_def)
qed

lemma AnyNodeExists_indexer:
  assumes "index_ok node_Name store"
  shows "AnyNodeExists (indexer_lister store) names \<longleftrightarrow>
    (\<exists>n\<in>set names. \<not> IsValidLabelValue n
       \<or> (\<exists>nd\<in>snd ` set store. node_Name nd = n \<or> label_get (om_Labels (node_Meta nd)) NodeLabelKey = Some n))"
proof (induction names)
  case (Cons n names)
  show ?case
    using assms
  proof (cases rule: node_index.get_cases[where k = n])
    case (found x)
    then show ?thesis by (auto simp: indexer_lister_def)
  next
    case missing
    let ?sel = "\<lambda>nd. label_get (om_Labels (node_Meta nd)) NodeLabelKey = Some n"
    obtain xs where xs: "indexer_List store ?sel = Inr xs" "set xs = {x \<in> snd ` set store. ?sel x}"
      using indexer_List_found[of store ?sel] by blast
    then have nonempty: "xs \<noteq> [] \<longleftrightarrow> (\<exists>x\<in>snd ` set store. ?sel x)"
      by (auto simp: set_empty[symmetric] simp del: set_empty)
    from missing xs(1) nonempty Cons show ?thesis
      by (auto simp: indexer_lister_def NewRequirement_Equals_def)
  qed
qed simp

text \<open>\<open>AnyNodeExists\<close> over an informer's index is conservative: it answers true exactly when
  one of the names is the name of a node, or the value of a node's hostname label, or is not a
  valid label value (where the code assumes that the node exists).\<close>

theorem any_node_exists_iff:
  assumes "index_ok node_Name store"
  shows "AnyNodeExists (indexer_lister store) names \<longleftrightarrow>
    (\<exists>n\<in>set names. \<not> IsValidLabelValue n
       \<or> (\<exists>nd\<in>snd ` set store. node_Name nd = n \<or> label_get (om_Labels (node_Meta nd)) NodeLabelKey = Some n))"
  using assms by (rule AnyNodeExists_indexer)

definition ex_node :: "string \<Rightarrow> node" where
  "ex_node n = \<lparr>node_Meta = empty_meta\<lparr>om_Name := n, om_UID := n @ ''-uid'', om_Labels := Some [(NodeLabelKey, n)]\<rparr>,
     node_Taints = []\<rparr>"

theorem any_node_exists_iff_witness:
  "AnyNodeExists (indexer_lister [(''n1'', ex_node ''n1'')]) [''n2''] \<longleftrightarrow>
    (\<exists>n\<in>set [''n2'']. \<not> IsValidLabelValue n
       \<or> (\<exists>nd\<in>snd ` set [(''n1'', ex_node ''n1'')].
            node_Name nd = n \<or> label_get (om_Labels (node_Meta nd)) NodeLabelKey = Some n))"
  by (rule any_node_exists_iff) (simp add: index_ok_def ex_node_def)

text \<open>A configuration the witnesses of the other theories use.\<close>

definition ex_user :: UserConfig where
  "ex_user = \<lparr>uc_Node = ex_node ''n1'', uc_DiscoveryMap = [(''fast'', ex_mount)], uc_NodeLabelsForPV = [],
     uc_UseAlphaAPI = False, uc_UseJobForCleaning = False, uc_Namespace = ''ns'', uc_JobContainerImage = ''img'',
     uc_JobTolerations = [], uc_MinResyncPeriod = 300000000000, uc_UseNodeNameOnly = False, uc_LabelsForPV = [],
     uc_SetPVOwnerRef = False, uc_RemoveNodeNotReadyTaint = False, uc_ProvisionerNotReadyNodeTaintKey = []\<rparr>"

definition ex_rc :: RuntimeConfig where
  "ex_rc = \<lparr>rc_UserConfig = ex_user, rc_Name = ''local-volume-provisioner-n1-u1''\<rparr>"

end
