(* ===== verification/Populator.thy ===== *)
theory Populator
  imports Common
begin

text \<open>
  \<open>pkg/populator/populator.go\<close>: the event handlers that keep the volume cache in step with the
  PersistentVolume informer. An informer delivers objects of any type and, after a missed
  deletion, a tombstone that wraps the last known object.
\<close>

declare map_of_eq_Some_iff [simp del] Some_eq_map_of_iff [simp del]

section \<open>Handlers\<close>

definition handlePVUpdate :: "RuntimeConfig \<Rightarrow> persistent_volume \<Rightarrow> VolumeCache \<Rightarrow> VolumeCache" where
  "handlePVUpdate p pv c =
     (case GetPV c (pv_Name pv) of
        Some _ \<Rightarrow> UpdatePV pv c
      | None \<Rightarrow>
          if om_Annotations (pv_Meta pv) \<noteq> None then
            (case label_get (om_Annotations (pv_Meta pv)) AnnProvisionedBy of
               None \<Rightarrow> c
             | Some provisioner \<Rightarrow>
                 if provisioner = rc_Name p then AddPV pv c
                 else if uc_UseNodeNameOnly (rc_UserConfig p) then
                   (case label_get (om_Labels (pv_Meta pv)) NodeNameLabel of
                      None \<Rightarrow> c
                    | Some nodeLabel \<Rightarrow>
                        if nodeLabel \<noteq> node_Name (uc_Node (rc_UserConfig p)) then c
                        else if prefix (rc_Name p @ ''-'') provisioner then AddPV pv c
                        else c)
                 else c)
          else c)"

definition handlePVDelete :: "persistent_volume \<Rightarrow> VolumeCache \<Rightarrow> VolumeCache" where
  "handlePVDelete pv c =
     (case GetPV c (pv_Name pv) of
        Some _ \<Rightarrow> DeletePV (pv_Name pv) c
      | None \<Rightarrow> c)"

section \<open>Informer events\<close>

datatype informer_obj = ObjPV persistent_volume | ObjTombstone informer_obj | ObjOther string

definition AddFunc :: "RuntimeConfig \<Rightarrow> informer_obj \<Rightarrow> VolumeCache \<Rightarrow> VolumeCache" where
  "AddFunc p obj c = (case obj of ObjPV pv \<Rightarrow> handlePVUpdate p pv c | _ \<Rightarrow> c)"

definition UpdateFunc :: "RuntimeConfig \<Rightarrow> informer_obj \<Rightarrow> informer_obj \<Rightarrow> VolumeCache \<Rightarrow> VolumeCache" where
  "UpdateFunc p oldObj newObj c = (case newObj of ObjPV newPV \<Rightarrow> handlePVUpdate p newPV c | _ \<Rightarrow> c)"

definition DeleteFunc :: "informer_obj \<Rightarrow> VolumeCache \<Rightarrow> VolumeCache" where
  "DeleteFunc obj c =
     (case obj of
        ObjPV pv \<Rightarrow> handlePVDelete pv c
      | ObjTombstone (ObjPV pv) \<Rightarrow> handlePVDelete pv c
      | _ \<Rightarrow> c)"

datatype pv_event = EvAdd informer_obj | EvUpdate informer_obj informer_obj | EvDelete informer_obj

fun pv_event_handler :: "RuntimeConfig \<Rightarrow> VolumeCache \<Rightarrow> pv_event \<Rightarrow> VolumeCache" where
  "pv_event_handler p c (EvAdd obj) = AddFunc p obj c"
| "pv_event_handler p c (EvUpdate oldObj newObj) = UpdateFunc p oldObj newObj c"
| "pv_event_handler p c (EvDelete obj) = DeleteFunc obj c"

section \<open>What the cache holds\<close>

text \<open>The volumes a provisioner regards as its own.\<close>

definition own_pv :: "RuntimeConfig \<Rightarrow> persistent_volume \<Rightarrow> bool" where
  "own_pv p pv \<longleftrightarrow>
     (case label_get (om_Annotations (pv_Meta pv)) AnnProvisionedBy of
        None \<Rightarrow> False
      | Some provisioner \<Rightarrow> provisioner = rc_Name p
          \<or> uc_UseNodeNameOnly (rc_UserConfig p)
            \<and> label_get (om_Labels (pv_Meta pv)) NodeNameLabel = Some (node_Name (uc_Node (rc_UserConfig p)))
            \<and> prefix (rc_Name p @ ''-'') provisioner)"

lemma handlePVUpdate_eq:
  "handlePVUpdate p pv c = (if GetPV c (pv_Name pv) \<noteq> None \<or> own_pv p pv then AddPV pv c else c)"
  by (auto simp: handlePVUpdate_def own_pv_def split: option.splits)

lemma cache_inv_handler: "cache_inv c \<Longrightarrow> cache_inv (pv_event_handler p c e)"
  by (cases e) (auto simp: AddFunc_def UpdateFunc_def DeleteFunc_def handlePVUpdate_eq handlePVDelete_def
      split: informer_obj.splits option.splits)

text \<open>What an event says about the volume named \<open>n\<close>: nothing, its new object, or that it is
  gone.\<close>

definition obj_upd :: "string \<Rightarrow> informer_obj \<Rightarrow> persistent_volume option" where
  "obj_upd n obj = (case obj of ObjPV pv \<Rightarrow> if pv_Name pv = n then Some pv else None | _ \<Rightarrow> None)"

fun ev_upd :: "string \<Rightarrow> pv_event \<Rightarrow> persistent_volume option" where
  "ev_upd n (EvAdd obj) = obj_upd n obj"
| "ev_upd n (EvUpdate _ obj) = obj_upd n obj"
| "ev_upd n (EvDelete _) = None"

fun ev_del :: "string \<Rightarrow> pv_event \<Rightarrow> bool" where
  "ev_del n (EvDelete (ObjPV pv)) = (pv_Name pv = n)"
| "ev_del n (EvDelete (ObjTombstone (ObjPV pv))) = (pv_Name pv = n)"
| "ev_del n _ = False"

text \<open>The objects of \<open>n\<close> delivered since its last deletion, oldest first.\<close>

definition since_delete :: "string \<Rightarrow> pv_event list \<Rightarrow> persistent_volume list" where
  "since_delete n es = List.map_filter (ev_upd n) (rev (takeWhile (\<lambda>e. \<not> ev_del n e) (rev es)))"

definition run_events :: "RuntimeConfig \<Rightarrow> pv_event list \<Rightarrow> VolumeCache \<Rightarrow> VolumeCache" where
  "run_events p es c = foldl (pv_event_handler p) c es"

lemma since_delete_Nil [simp]: "since_delete n [] = []"
  by (simp add: since_delete_def List.map_filter_def)

lemma since_delete_snoc:
  "since_delete n (es @ [e]) = (if ev_del n e then []
     else since_delete n es @ (case ev_upd n e of None \<Rightarrow> [] | Some pv \<Rightarrow> [pv]))"
  by (auto simp: since_delete_def List.map_filter_def split: option.splits)

lemma handler_lookup:
  "GetPV (pv_event_handler p c e) n =
     (if ev_del n e then None
      else case ev_upd n e of
        None \<Rightarrow> GetPV c n
      | Some pv \<Rightarrow> if GetPV c n \<noteq> None \<or> own_pv p pv then Some pv else None)"
  by (cases "(n, e)" rule: ev_del.cases)
    (auto simp: AddFunc_def UpdateFunc_def DeleteFunc_def handlePVUpdate_eq handlePVDelete_def obj_upd_def
      split: informer_obj.splits option.splits)

lemma run_events_lookup:
  "GetPV (run_events p es NewVolumeCache) n =
     (if \<exists>pv\<in>set (since_delete n es). own_pv p pv then Some (last (since_delete n es)) else None)"
proof (induction es rule: rev_induct)
  case Nil
  then show ?case by (simp add: run_events_def)
next
  case (snoc e es)
  have "run_events p (es @ [e]) NewVolumeCache = pv_event_handler p (run_events p es NewVolumeCache) e"
    by (simp add: run_events_def)
  with snoc show ?case
    by (auto simp: handler_lookup since_delete_snoc split: option.splits)
qed

lemma run_events_inv: "cache_inv (run_events p es NewVolumeCache)"
  unfolding run_events_def by (rule foldl_invariant) (simp_all add: cache_inv_handler)

section \<open>Properties\<close>

text \<open>C24. What the cache holds after any sequence of informer events, malformed objects and
  tombstones included: a volume is cached exactly if, since its last deletion, some delivered
  object of it was marked as created by this provisioner, and the cached object is then the
  latest one delivered.\<close>

theorem cache_reflects_events:
  "GetPV (run_events p es NewVolumeCache) n =
     (if \<exists>pv\<in>set (since_delete n es). own_pv p pv then Some (last (since_delete n es)) else None)"
  by (rule run_events_lookup)

text \<open>A provisioner never acts on another provisioner's volumes: without node-name-only mode,
  if no delivered object ever carries this provisioner's name in its annotation, the cache stays
  empty whatever else is delivered.\<close>

theorem cache_only_own:
  assumes "\<not> uc_UseNodeNameOnly (rc_UserConfig p)"
    and "\<forall>e\<in>set es. \<forall>n pv. ev_upd n e = Some pv \<longrightarrow>
           label_get (om_Annotations (pv_Meta pv)) AnnProvisionedBy \<noteq> Some (rc_Name p)"
  shows "ListPVs (run_events p es NewVolumeCache) = []"
proof -
  let ?c = "run_events p es NewVolumeCache"
  have sub: "pv \<in> set (since_delete n es) \<Longrightarrow> \<exists>e\<in>set es. ev_upd n e = Some pv" for n pv
    by (auto simp: since_delete_def List.map_filter_def dest!: set_takeWhileD)
  then have "\<not> own_pv p pv" if "pv \<in> set (since_delete n es)" for n pv
    using assms that by (fastforce simp: own_pv_def split: option.splits)
  then have "GetPV ?c n = None" for n by (auto simp: run_events_lookup)
  then have "pv \<notin> set (ListPVs ?c)" for pv by (simp add: ListPVs_iff run_events_inv)
  then show ?thesis by (metis hd_in_set)
qed

theorem cache_only_own_witness:
  "ListPVs (run_events ex_rc [EvAdd (ObjPV (ex_pv ''p'')), EvDelete (ObjTombstone (ObjPV (ex_pv ''q'')))]
     NewVolumeCache) = []"
  by (rule cache_only_own)
    (auto simp: ex_rc_def ex_user_def ex_pv_def empty_meta_def obj_upd_def split: if_splits)

end
