(* ===== verification/Proc_Table.thy ===== *)
theory Proc_Table
  imports Kube_Types
begin

text \<open>
  \<open>pkg/deleter/proctable.go\<close>: the table of cleanup processes, keyed by volume name, with its
  counters, and the mock table that counts calls. Every method of the table holds its mutex for
  the whole body and is one atomic function on the state; an operation that returns an error
  still returns the state, since the counters are updated by a deferred function on every path.
\<close>

section \<open>Cleanup states\<close>

datatype CleanupState = CSUnknown | CSNotFound | CSRunning | CSFailed | CSSucceeded

text \<open>The constants are \<open>iota + 1\<close>.\<close>

fun cs_int :: "CleanupState \<Rightarrow> int" where
  "cs_int CSUnknown = 1"
| "cs_int CSNotFound = 2"
| "cs_int CSRunning = 3"
| "cs_int CSFailed = 4"
| "cs_int CSSucceeded = 5"

lemma cs_int_inject [simp]: "cs_int a = cs_int b \<longleftrightarrow> a = b"
  by (cases a; cases b) simp_all

instantiation CleanupState :: linorder
begin

definition less_eq_CleanupState :: "CleanupState \<Rightarrow> CleanupState \<Rightarrow> bool" where
  "less_eq_CleanupState a b \<longleftrightarrow> cs_int a \<le> cs_int b"

definition less_CleanupState :: "CleanupState \<Rightarrow> CleanupState \<Rightarrow> bool" where
  "less_CleanupState a b \<longleftrightarrow> cs_int a < cs_int b"

instance
  by standard (auto simp: less_eq_CleanupState_def less_CleanupState_def)

end

section \<open>The table\<close>

record ProcTableStats =
  Running :: int
  Succeeded :: int
  Failed :: int

record ProcEntry =
  pe_StartTime :: time
  pe_Status :: CleanupState

record ProcTableImpl =
  pt_procTable :: "(string, ProcEntry) gomap"
  pt_succeeded :: int
  pt_failed :: int

definition NewProcTable :: ProcTableImpl where
  "NewProcTable = \<lparr>pt_procTable = [], pt_succeeded = 0, pt_failed = 0\<rparr>"

definition IsRunning :: "string \<Rightarrow> ProcTableImpl \<Rightarrow> bool" where
  "IsRunning pvName v =
     (case gm_get (pt_procTable v) pvName of
        None \<Rightarrow> False
      | Some entry \<Rightarrow> if pe_Status entry \<noteq> CSRunning then False else True)"

definition IsEmpty :: "ProcTableImpl \<Rightarrow> bool" where
  "IsEmpty v \<longleftrightarrow> length (pt_procTable v) = 0"

text \<open>\<open>time.Now()\<close> is an argument.\<close>

definition MarkRunning :: "time \<Rightarrow> string \<Rightarrow> ProcTableImpl \<Rightarrow> error option \<times> ProcTableImpl" where
  "MarkRunning now pvName v =
     (case gm_get (pt_procTable v) pvName of
        Some _ \<Rightarrow> (Some (Errorf ''Failed to mark running of %q as it is already running, should never happen'' [pvName]), v)
      | None \<Rightarrow>
          (None, v\<lparr>pt_procTable := gm_put pvName \<lparr>pe_StartTime = now, pe_Status = CSRunning\<rparr>
                     (pt_procTable v)\<rparr>))"

definition count_status :: "CleanupState \<Rightarrow> ProcTableImpl \<Rightarrow> ProcTableImpl" where
  "count_status status v =
     (if status = CSSucceeded then v\<lparr>pt_succeeded := pt_succeeded v + 1\<rparr>
      else if status = CSFailed then v\<lparr>pt_failed := pt_failed v + 1\<rparr>
      else v)"

definition markStatus :: "string \<Rightarrow> CleanupState \<Rightarrow> ProcTableImpl \<Rightarrow> error option \<times> ProcTableImpl" where
  "markStatus pvName status v =
     (case gm_get (pt_procTable v) pvName of
        None \<Rightarrow>
          (Some (Errorf ''failed to mark status %d for pv %q as it is not present in proctable'' [dec_int (cs_int status), pvName]),
           count_status status v)
      | Some entry \<Rightarrow>
          (None, count_status status
             (v\<lparr>pt_procTable := gm_put pvName (entry\<lparr>pe_Status := status\<rparr>) (pt_procTable v)\<rparr>)))"

definition MarkFailed :: "string \<Rightarrow> ProcTableImpl \<Rightarrow> error option \<times> ProcTableImpl" where
  "MarkFailed pvName v = markStatus pvName CSFailed v"

definition MarkSucceeded :: "string \<Rightarrow> ProcTableImpl \<Rightarrow> error option \<times> ProcTableImpl" where
  "MarkSucceeded pvName v = markStatus pvName CSSucceeded v"

type_synonym removed = "CleanupState \<times> time option \<times> error option"

definition RemoveEntry :: "string \<Rightarrow> ProcTableImpl \<Rightarrow> removed \<times> ProcTableImpl" where
  "RemoveEntry pvName v =
     (case gm_get (pt_procTable v) pvName of
        None \<Rightarrow> ((CSNotFound, None, None), v)
      | Some entry \<Rightarrow>
          if pe_Status entry = CSRunning then
            ((CSUnknown, None, Some (Errorf ''cannot remove proctable entry for %q when it is still running'' [pvName])), v)
          else if pe_Status entry = CSUnknown then
            ((CSUnknown, None, Some (Errorf ''proctable entry for %q in unexpected unknown state'' [pvName])), v)
          else
            ((pe_Status entry, Some (pe_StartTime entry), None),
             v\<lparr>pt_procTable := gm_del pvName (pt_procTable v)\<rparr>))"

fun count_running :: "(string, ProcEntry) gomap \<Rightarrow> int \<Rightarrow> int" where
  "count_running [] running = running"
| "count_running ((_, entry) # es) running =
     count_running es (if pe_Status entry = CSRunning then running + 1 else running)"

definition Stats :: "ProcTableImpl \<Rightarrow> ProcTableStats" where
  "Stats v = \<lparr>Running = count_running (pt_procTable v) 0,
              Succeeded = pt_succeeded v, Failed = pt_failed v\<rparr>"

section \<open>The mock table\<close>

record FakeProcTableImpl =
  fp_realTable :: ProcTableImpl
  fp_IsRunningCount :: int
  fp_MarkRunningCount :: int
  fp_MarkDoneCount :: int
  fp_RemoveCount :: int
  fp_StatsCount :: int

definition NewFakeProcTable :: FakeProcTableImpl where
  "NewFakeProcTable = \<lparr>fp_realTable = NewProcTable, fp_IsRunningCount = 0, fp_MarkRunningCount = 0,
     fp_MarkDoneCount = 0, fp_RemoveCount = 0, fp_StatsCount = 0\<rparr>"

definition Fake_IsRunning :: "string \<Rightarrow> FakeProcTableImpl \<Rightarrow> bool \<times> FakeProcTableImpl" where
  "Fake_IsRunning pvName f =
     (IsRunning pvName (fp_realTable f), f\<lparr>fp_IsRunningCount := fp_IsRunningCount f + 1\<rparr>)"

definition Fake_IsEmpty :: "FakeProcTableImpl \<Rightarrow> bool" where
  "Fake_IsEmpty f = IsEmpty (fp_realTable f)"

definition on_real :: "('a \<times> ProcTableImpl) \<Rightarrow> FakeProcTableImpl \<Rightarrow> 'a \<times> FakeProcTableImpl" where
  "on_real r f = (fst r, f\<lparr>fp_realTable := snd r\<rparr>)"

definition Fake_MarkRunning :: "time \<Rightarrow> string \<Rightarrow> FakeProcTableImpl \<Rightarrow> error option \<times> FakeProcTableImpl" where
  "Fake_MarkRunning now pvName f =
     on_real (MarkRunning now pvName (fp_realTable f))
       (f\<lparr>fp_MarkRunningCount := fp_MarkRunningCount f + 1\<rparr>)"

definition Fake_MarkFailed :: "string \<Rightarrow> FakeProcTableImpl \<Rightarrow> error option \<times> FakeProcTableImpl" where
  "Fake_MarkFailed pvName f =
     on_real (MarkFailed pvName (fp_realTable f)) (f\<lparr>fp_MarkDoneCount := fp_MarkDoneCount f + 1\<rparr>)"

definition Fake_MarkSucceeded :: "string \<Rightarrow> FakeProcTableImpl \<Rightarrow> error option \<times> FakeProcTableImpl" where
  "Fake_MarkSucceeded pvName f =
     on_real (MarkSucceeded pvName (fp_realTable f)) (f\<lparr>fp_MarkDoneCount := fp_MarkDoneCount f + 1\<rparr>)"

definition Fake_RemoveEntry :: "string \<Rightarrow> FakeProcTableImpl \<Rightarrow> removed \<times> FakeProcTableImpl" where
  "Fake_RemoveEntry pvName f =
     on_real (RemoveEntry pvName (fp_realTable f)) (f\<lparr>fp_RemoveCount := fp_RemoveCount f + 1\<rparr>)"

definition Fake_Stats :: "FakeProcTableImpl \<Rightarrow> ProcTableStats \<times> FakeProcTableImpl" where
  "Fake_Stats f = (Stats (fp_realTable f), f\<lparr>fp_StatsCount := fp_StatsCount f + 1\<rparr>)"

section \<open>Invariant and abstract view\<close>

text \<open>An entry is running, failed or succeeded; the other two states are return values only.\<close>

definition pt_inv :: "ProcTableImpl \<Rightarrow> bool" where
  "pt_inv v \<longleftrightarrow> gm_inv (pt_procTable v)
     \<and> (\<forall>e \<in> snd ` set (pt_procTable v). pe_Status e \<in> {CSRunning, CSFailed, CSSucceeded})"

definition pt_view :: "ProcTableImpl \<Rightarrow> string \<Rightarrow> CleanupState option" where
  "pt_view v p = map_option pe_Status (gm_get (pt_procTable v) p)"

lemma pt_inv_view: "pt_inv v \<Longrightarrow> pt_view v p = Some s \<Longrightarrow> s \<in> {CSRunning, CSFailed, CSSucceeded}"
  by (force simp: pt_inv_def pt_view_def dest: map_of_SomeD)

lemma count_status_simps [simp]:
  "pt_procTable (count_status s v) = pt_procTable v" "pt_view (count_status s v) = pt_view v"
  "pt_inv (count_status s v) = pt_inv v"
  by (auto simp: count_status_def pt_view_def pt_inv_def fun_eq_iff)

lemma pt_view_New [simp]: "pt_view NewProcTable p = None" "pt_inv NewProcTable"
  by (simp_all add: NewProcTable_def pt_view_def pt_inv_def)

lemma IsRunning_view: "IsRunning p v \<longleftrightarrow> pt_view v p = Some CSRunning"
  by (auto simp: IsRunning_def pt_view_def split: option.splits)

lemma IsEmpty_view: "IsEmpty v \<longleftrightarrow> (\<forall>p. pt_view v p = None)"
  using gm_size_zero[of "pt_procTable v"] by (simp add: IsEmpty_def pt_view_def)

lemma pt_inv_put:
  "pt_inv v \<Longrightarrow> pe_Status e \<in> {CSRunning, CSFailed, CSSucceeded} \<Longrightarrow>
   pt_inv (v\<lparr>pt_procTable := gm_put p e (pt_procTable v)\<rparr>)"
  by (auto simp: pt_inv_def set_gm_put image_iff split: if_splits)

lemma pt_inv_del: "pt_inv v \<Longrightarrow> pt_inv (v\<lparr>pt_procTable := gm_del p (pt_procTable v)\<rparr>)"
  by (auto simp: pt_inv_def set_gm_del)

lemma MarkRunning_view:
  "MarkRunning t p v = (e, v') \<Longrightarrow> pt_inv v \<Longrightarrow>
     (e = None \<longleftrightarrow> pt_view v p = None) \<and> pt_inv v' \<and>
     pt_view v' = (if e = None then (pt_view v)(p := Some CSRunning) else pt_view v)"
  by (auto simp: MarkRunning_def pt_view_def fun_eq_iff pt_inv_put split: option.splits)

lemma markStatus_view:
  "markStatus p s v = (e, v') \<Longrightarrow> pt_inv v \<Longrightarrow> s \<in> {CSFailed, CSSucceeded} \<Longrightarrow>
     (e = None \<longleftrightarrow> pt_view v p \<noteq> None) \<and> pt_inv v' \<and>
     pt_view v' = (if e = None then (pt_view v)(p := Some s) else pt_view v)"
  by (auto simp: markStatus_def pt_view_def fun_eq_iff pt_inv_put split: option.splits)

fun removed_state :: "CleanupState option \<Rightarrow> CleanupState" where
  "removed_state None = CSNotFound"
| "removed_state (Some st) = (if st = CSRunning then CSUnknown else st)"

lemma removed_state_Succeeded [simp]:
  "removed_state v = CSSucceeded \<longleftrightarrow> v = Some CSSucceeded" "CSSucceeded = removed_state v \<longleftrightarrow> v = Some CSSucceeded"
  by (cases v; auto)+

lemma RemoveEntry_view:
  "RemoveEntry p v = ((s, t, e), v') \<Longrightarrow> pt_inv v \<Longrightarrow>
     pt_inv v' \<and>
     s = removed_state (pt_view v p) \<and> (e = None \<longleftrightarrow> pt_view v p \<noteq> Some CSRunning) \<and>
      (t = None \<longleftrightarrow> pt_view v p \<in> {None, Some CSRunning}) \<and>
      pt_view v' = (if e = None then (pt_view v)(p := None) else pt_view v)"
  using pt_inv_view[of v p]
  by (cases "gm_get (pt_procTable v) p")
    (auto simp: RemoveEntry_def pt_view_def fun_eq_iff pt_inv_del
      split: option.splits if_splits CleanupState.splits)

section \<open>The interface\<close>

text \<open>
  The \<open>ProcTable\<close> interface of the source, as the deleter and the discoverer rely on it: each
  operation's effect on the abstract view, a partial map from volume names to the state of the
  cleanup.
\<close>

locale proc_table =
  fixes new :: "'t"
    and is_running :: "string \<Rightarrow> 't \<Rightarrow> bool \<times> 't"
    and mark_running :: "time \<Rightarrow> string \<Rightarrow> 't \<Rightarrow> error option \<times> 't"
    and mark_failed :: "string \<Rightarrow> 't \<Rightarrow> error option \<times> 't"
    and mark_succeeded :: "string \<Rightarrow> 't \<Rightarrow> error option \<times> 't"
    and remove_entry :: "string \<Rightarrow> 't \<Rightarrow> removed \<times> 't"
    and view :: "'t \<Rightarrow> string \<Rightarrow> CleanupState option"
    and inv :: "'t \<Rightarrow> bool"
  assumes new: "inv new" "view new p = None"
    and is_running: "is_running p v = (b, v') \<Longrightarrow> inv v \<Longrightarrow>
      (b \<longleftrightarrow> view v p = Some CSRunning) \<and> inv v' \<and> view v' = view v"
    and mark_running: "mark_running t p v = (e, v') \<Longrightarrow> inv v \<Longrightarrow>
      (e = None \<longleftrightarrow> view v p = None) \<and> inv v' \<and>
      view v' = (if e = None then (view v)(p := Some CSRunning) else view v)"
    and mark_failed: "mark_failed p v = (e, v') \<Longrightarrow> inv v \<Longrightarrow>
      (e = None \<longleftrightarrow> view v p \<noteq> None) \<and> inv v' \<and>
      view v' = (if e = None then (view v)(p := Some CSFailed) else view v)"
    and mark_succeeded: "mark_succeeded p v = (e, v') \<Longrightarrow> inv v \<Longrightarrow>
      (e = None \<longleftrightarrow> view v p \<noteq> None) \<and> inv v' \<and>
      view v' = (if e = None then (view v)(p := Some CSSucceeded) else view v)"
    and remove_entry: "remove_entry p v = ((s, st0, e), v') \<Longrightarrow> inv v \<Longrightarrow>
      inv v' \<and>
      s = removed_state (view v p) \<and> (e = None \<longleftrightarrow> view v p \<noteq> Some CSRunning) \<and>
      (st0 = None \<longleftrightarrow> view v p \<in> {None, Some CSRunning}) \<and>
      view v' = (if e = None then (view v)(p := None) else view v)"
    and view_states: "inv v \<Longrightarrow> view v p = Some s \<Longrightarrow> s \<in> {CSRunning, CSFailed, CSSucceeded}"
begin

text \<open>A second start of the same volume is refused until the entry is removed.\<close>

lemma no_double_start:
  assumes "inv v" "mark_running t p v = (None, v1)"
  shows "fst (mark_running t' p v1) \<noteq> None"
proof -
  from assms have "inv v1" "view v1 p = Some CSRunning"
    by (auto dest: mark_running)
  then show ?thesis
    using mark_running[of t' p v1 "fst (mark_running t' p v1)" "snd (mark_running t' p v1)"] by auto
qed

text \<open>Removing the status of a cleanup that is not running succeeds.\<close>

lemma remove_not_running:
  assumes "inv v" "view v p \<noteq> Some CSRunning" "remove_entry p v = ((s, t, e), v')"
  shows "e = None" "s = (case view v p of None \<Rightarrow> CSNotFound | Some st \<Rightarrow> st)"
    "view v' = (view v)(p := None)" "inv v'"
  using remove_entry[OF assms(3,1)] assms(2) by (auto split: option.splits)

text \<open>A whole cleanup: started, finished, its status removed. The status removed is the one
  the process ended with, and the view is as it was.\<close>

lemma cleanup_cycle:
  assumes "inv v" "mark_running t p v = (None, v1)"
    and "mark_succeeded p v1 = (e2, v2)" "remove_entry p v2 = ((s, t', e3), v3)"
  shows "e2 = None \<and> s = CSSucceeded \<and> e3 = None \<and> view v3 = view v"
proof -
  from mark_running[OF assms(2,1)]
  have 1: "inv v1" "view v p = None" "view v1 = (view v)(p := Some CSRunning)" by auto
  from mark_succeeded[OF assms(3) 1(1)] 1(3)
  have 2: "e2 = None" "inv v2" "view v2 = (view v)(p := Some CSSucceeded)"
    by (auto split: if_splits)
  have "view v2 p \<noteq> Some CSRunning" by (simp add: 2)
  from remove_not_running[OF 2(2) this assms(4)] 2 1(2)
  show ?thesis by auto
qed

end

interpretation pt: proc_table NewProcTable "\<lambda>p v. (IsRunning p v, v)" MarkRunning MarkFailed
  MarkSucceeded RemoveEntry pt_view pt_inv
proof unfold_locales
  show "RemoveEntry p v = ((s, t, e), v') \<Longrightarrow> pt_inv v \<Longrightarrow>
     pt_inv v' \<and>
     s = removed_state (pt_view v p) \<and> (e = None \<longleftrightarrow> pt_view v p \<noteq> Some CSRunning) \<and>
      (t = None \<longleftrightarrow> pt_view v p \<in> {None, Some CSRunning}) \<and>
      pt_view v' = (if e = None then (pt_view v)(p := None) else pt_view v)"
    for p v s t e v' by (rule RemoveEntry_view)
qed (simp_all add: IsRunning_view MarkRunning_view MarkFailed_def MarkSucceeded_def markStatus_view
  pt_inv_view[simplified])

definition fp_view :: "FakeProcTableImpl \<Rightarrow> string \<Rightarrow> CleanupState option" where
  "fp_view f = pt_view (fp_realTable f)"

definition fp_inv :: "FakeProcTableImpl \<Rightarrow> bool" where
  "fp_inv f = pt_inv (fp_realTable f)"

lemmas fake_defs = fp_view_def fp_inv_def on_real_def Fake_IsRunning_def Fake_MarkRunning_def
  Fake_MarkFailed_def Fake_MarkSucceeded_def Fake_RemoveEntry_def NewFakeProcTable_def

interpretation fpt: proc_table NewFakeProcTable Fake_IsRunning Fake_MarkRunning Fake_MarkFailed
  Fake_MarkSucceeded Fake_RemoveEntry fp_view fp_inv
proof unfold_locales
  show "Fake_RemoveEntry p v = ((s, t, e), v') \<Longrightarrow> fp_inv v \<Longrightarrow>
     fp_inv v' \<and>
     s = removed_state (fp_view v p) \<and> (e = None \<longleftrightarrow> fp_view v p \<noteq> Some CSRunning) \<and>
      (t = None \<longleftrightarrow> fp_view v p \<in> {None, Some CSRunning}) \<and>
      fp_view v' = (if e = None then (fp_view v)(p := None) else fp_view v)"
    for p v s t e v'
    using pt.remove_entry[of p "fp_realTable v" s t e "fp_realTable v'"]
    by (cases "RemoveEntry p (fp_realTable v)") (auto simp: fake_defs)
next
  show "Fake_MarkRunning t p v = (e, v') \<Longrightarrow> fp_inv v \<Longrightarrow>
      (e = None \<longleftrightarrow> fp_view v p = None) \<and> fp_inv v' \<and>
      fp_view v' = (if e = None then (fp_view v)(p := Some CSRunning) else fp_view v)" for t p v e v'
    using pt.mark_running[of t p "fp_realTable v" e "fp_realTable v'"]
    by (cases "MarkRunning t p (fp_realTable v)") (auto simp: fake_defs)
next
  show "Fake_MarkFailed p v = (e, v') \<Longrightarrow> fp_inv v \<Longrightarrow>
      (e = None \<longleftrightarrow> fp_view v p \<noteq> None) \<and> fp_inv v' \<and>
      fp_view v' = (if e = None then (fp_view v)(p := Some CSFailed) else fp_view v)" for p v e v'
    using pt.mark_failed[of p "fp_realTable v" e "fp_realTable v'"]
    by (cases "MarkFailed p (fp_realTable v)") (auto simp: fake_defs)
next
  show "Fake_MarkSucceeded p v = (e, v') \<Longrightarrow> fp_inv v \<Longrightarrow>
      (e = None \<longleftrightarrow> fp_view v p \<noteq> None) \<and> fp_inv v' \<and>
      fp_view v' = (if e = None then (fp_view v)(p := Some CSSucceeded) else fp_view v)" for p v e v'
    using pt.mark_succeeded[of p "fp_realTable v" e "fp_realTable v'"]
    by (cases "MarkSucceeded p (fp_realTable v)") (auto simp: fake_defs)
qed (auto simp: fake_defs IsRunning_view pt_inv_view[simplified])

section \<open>Counters\<close>

abbreviation running_set :: "ProcTableImpl \<Rightarrow> string set" where
  "running_set v \<equiv> {p. pt_view v p = Some CSRunning}"

lemma finite_running_set [simp]: "finite (running_set v)"
  by (rule finite_subset[OF _ finite_dom_map_of[of "pt_procTable v"]]) (auto simp: pt_view_def)

lemma count_running_eq:
  "count_running es n = n + int (length (filter (\<lambda>(_, e). pe_Status e = CSRunning) es))"
  by (induction es n rule: count_running.induct) auto

lemma Stats_Running: "pt_inv v \<Longrightarrow> Running (Stats v) = int (card (running_set v))"
proof -
  assume "pt_inv v"
  let ?run = "filter (\<lambda>(_, e). pe_Status e = CSRunning) (pt_procTable v)"
  have gm: "gm_inv (pt_procTable v)" using \<open>pt_inv v\<close> by (simp add: pt_inv_def)
  then have "distinct (map fst ?run)" by (rule distinct_map_filter)
  then have "length ?run = card (fst ` set ?run)"
    by (metis distinct_card length_map set_map)
  also have "fst ` set ?run = running_set v"
    using gm by (force simp: pt_view_def map_of_eq_Some_iff)
  finally show ?thesis by (simp add: Stats_def count_running_eq)
qed

text \<open>
  The runs of the table under the deleter's protocol: a volume is marked failed or succeeded
  only by the cleanup that was started for it and is still running. The first argument counts
  the cleanups started.
\<close>

inductive pt_run :: "nat \<Rightarrow> ProcTableImpl \<Rightarrow> bool" where
  run_new: "pt_run 0 NewProcTable"
| run_start: "pt_run n v \<Longrightarrow> MarkRunning t p v = (e, v') \<Longrightarrow>
    pt_run (if e = None then Suc n else n) v'"
| run_finish: "pt_run n v \<Longrightarrow> IsRunning p v \<Longrightarrow> s \<in> {CSFailed, CSSucceeded} \<Longrightarrow>
    markStatus p s v = (e, v') \<Longrightarrow> pt_run n v'"
| run_remove: "pt_run n v \<Longrightarrow> RemoveEntry p v = (r, v') \<Longrightarrow> pt_run n v'"

lemma MarkRunning_counters:
  "MarkRunning t p v = (e, v') \<Longrightarrow> pt_succeeded v' = pt_succeeded v \<and> pt_failed v' = pt_failed v"
  by (auto simp: MarkRunning_def split: option.splits)

lemma RemoveEntry_counters:
  "RemoveEntry p v = (r, v') \<Longrightarrow> pt_succeeded v' = pt_succeeded v \<and> pt_failed v' = pt_failed v"
  by (auto simp: RemoveEntry_def split: option.splits if_splits)

lemma markStatus_counters:
  "markStatus p s v = (e, v') \<Longrightarrow> s \<in> {CSFailed, CSSucceeded} \<Longrightarrow>
     pt_succeeded v' + pt_failed v' = pt_succeeded v + pt_failed v + 1"
  by (auto simp: markStatus_def count_status_def split: option.splits)

lemma RemoveEntry_running_set:
  assumes "pt_inv v" "RemoveEntry p v = (r, v')"
  shows "running_set v' = running_set v"
proof -
  obtain s t e where "r = (s, t, e)" by (cases r) auto
  with RemoveEntry_view[of p v s t e v'] assms show ?thesis by (auto split: if_splits)
qed

lemma pt_run_inv:
  "pt_run n v \<Longrightarrow>
     pt_inv v \<and> int (card (running_set v)) + pt_succeeded v + pt_failed v = int n"
proof (induction rule: pt_run.induct)
  case run_new
  then show ?case by (simp add: NewProcTable_def pt_view_def pt_inv_def)
next
  case (run_start n v t p e v')
  then have v: "pt_inv v" "pt_inv v'" "e = None \<longleftrightarrow> pt_view v p = None"
    "pt_view v' = (if e = None then (pt_view v)(p := Some CSRunning) else pt_view v)"
    using MarkRunning_view[OF run_start.hyps(2)] by auto
  then have "running_set v' = (if e = None then insert p (running_set v) else running_set v)"
    by auto
  with v run_start MarkRunning_counters[OF run_start.hyps(2)] show ?case
    by auto
next
  case (run_finish n v p s e v')
  then have v: "pt_inv v'" "pt_view v' = (if e = None then (pt_view v)(p := Some s) else pt_view v)"
      "e = None \<longleftrightarrow> pt_view v p \<noteq> None"
    using markStatus_view[OF run_finish.hyps(4)] by auto
  from run_finish.hyps(2) have p: "p \<in> running_set v" by (simp add: IsRunning_view)
  then have "running_set v' = running_set v - {p}" using v run_finish.hyps(3) by auto
  moreover have "Suc (card (running_set v - {p})) = card (running_set v)"
    using p by (intro card_Suc_Diff1) simp_all
  ultimately have "int (card (running_set v')) + 1 = int (card (running_set v))"
    by (simp flip: of_nat_Suc)
  with v run_finish markStatus_counters[OF run_finish.hyps(4,3)] show ?case by auto
next
  case (run_remove n v p r v')
  then obtain s t e where "r = (s, t, e)" by (cases r) auto
  with run_remove RemoveEntry_view[of p v s t e v'] RemoveEntry_running_set[of v p r v']
    RemoveEntry_counters[of p v r v']
  show ?case by auto
qed

section \<open>Properties\<close>

text \<open>C25. Conservation of cleanups: in every run of the process table under the deleter's
  protocol, the cleanups that were started are exactly accounted for by the three numbers
  \<open>Stats\<close> reports: those still running, those counted as succeeded and those counted as failed.\<close>

theorem proc_table_accounting:
  assumes "pt_run n v"
  shows "Running (Stats v) + Succeeded (Stats v) + Failed (Stats v) = int n"
proof -
  from pt_run_inv[OF assms]
  have "pt_inv v" "int (card (running_set v)) + pt_succeeded v + pt_failed v = int n" by auto
  with Stats_Running[of v] show ?thesis by (simp add: Stats_def)
qed

theorem proc_table_accounting_witness:
  "Running (Stats (snd (MarkRunning 7 ''pv'' NewProcTable)))
     + Succeeded (Stats (snd (MarkRunning 7 ''pv'' NewProcTable)))
     + Failed (Stats (snd (MarkRunning 7 ''pv'' NewProcTable))) = int 1"
proof -
  have "MarkRunning 7 ''pv'' NewProcTable = (None, snd (MarkRunning 7 ''pv'' NewProcTable))"
    by (simp add: MarkRunning_def NewProcTable_def)
  from pt_run.run_start[OF pt_run.run_new this]
  have "pt_run 1 (snd (MarkRunning 7 ''pv'' NewProcTable))" by simp
  then show ?thesis by (rule proc_table_accounting)
qed

text \<open>The life of one cleanup entry: on a table where the volume has no entry, starting
  the cleanup succeeds, a second start is refused while the entry exists, marking the outcome
  succeeds, and removing the entry returns exactly that outcome with the recorded start time
  and leaves the table's view as it was before.\<close>

theorem proc_table_cycle:
  assumes "pt_inv v" and "pt_view v p = None" and "s \<in> {CSFailed, CSSucceeded}"
  shows "let v1 = snd (MarkRunning t p v); v2 = snd (markStatus p s v1) in
    fst (MarkRunning t p v) = None \<and> fst (MarkRunning t' p v1) \<noteq> None
    \<and> fst (markStatus p s v1) = None \<and> fst (RemoveEntry p v2) = (s, Some t, None)
    \<and> pt_view (snd (RemoveEntry p v2)) = pt_view v"
proof -
  let ?v1 = "snd (MarkRunning t p v)" and ?v2 = "snd (markStatus p s (snd (MarkRunning t p v)))"
  from assms(2) have p: "gm_get (pt_procTable v) p = None" by (simp add: pt_view_def)
  then have v1: "pt_procTable ?v1 = gm_put p \<lparr>pe_StartTime = t, pe_Status = CSRunning\<rparr> (pt_procTable v)"
    by (simp add: MarkRunning_def)
  then have v2: "pt_procTable ?v2 = gm_put p \<lparr>pe_StartTime = t, pe_Status = s\<rparr> (pt_procTable ?v1)"
    by (simp add: markStatus_def)
  have "fst (MarkRunning t p v) = None" using p by (simp add: MarkRunning_def)
  moreover have "fst (MarkRunning t' p ?v1) \<noteq> None" by (simp add: MarkRunning_def[of t'] v1)
  moreover have "fst (markStatus p s ?v1) = None" by (simp add: markStatus_def v1)
  moreover have "fst (RemoveEntry p ?v2) = (s, Some t, None)"
    using assms(3) by (auto simp: RemoveEntry_def v2)
  moreover have "pt_view (snd (RemoveEntry p ?v2)) = pt_view v"
    using assms(3) p by (auto simp: RemoveEntry_def v2 v1 pt_view_def fun_eq_iff)
  ultimately show ?thesis by (simp add: Let_def)
qed

theorem proc_table_cycle_witness:
  "fst (RemoveEntry ''pv'' (snd (markStatus ''pv'' CSSucceeded (snd (MarkRunning 7 ''pv'' NewProcTable)))))
     = (CSSucceeded, Some 7, None)"
  using proc_table_cycle[of NewProcTable "''pv''" CSSucceeded 7 8] by (simp add: Let_def)

end
