(* ===== verification/World.thy ===== *)
theory World
  imports Common Proc_Table
begin

text \<open>
  The state the provisioner's handlers share and the effects they have on the outside:
  \<open>pkg/util/api_util.go\<close>, the metrics of \<open>pkg/metrics/metrics.go\<close>, the event recorder, and the
  goroutine a cleanup is started in. A world is the volume cache, the process table and the log of
  all effects so far, oldest first. What the outside answers is read from an environment whose
  functions take the log, so that the API server, the clock, the volumes of the node and the
  informers may give a different answer after every effect.
\<close>

declare map_of_eq_Some_iff [simp del] Some_eq_map_of_iff [simp del]

section \<open>Effects\<close>

text \<open>A request to the API server. A claim is deleted under a UID precondition.\<close>

datatype request =
    ReqCreatePV persistent_volume
  | ReqDeletePV string
  | ReqCreateJob job
  | ReqDeleteJob string string
  | ReqUpdateNode node
  | ReqDeletePVC string string string

text \<open>The arguments of the goroutine \<open>go d.asyncCleanPV(pv, volMode, mountPath, config)\<close>.\<close>

record cleanup =
  cl_PV :: persistent_volume
  cl_VolMode :: string
  cl_MountPath :: string
  cl_Config :: MountConfig

text \<open>
  \<open>Call\<close> is a request with its answer; \<open>Event\<close> an event on the named object with type, reason
  and message; \<open>Inc\<close>, \<open>Observe\<close> and \<open>SetGauge\<close> are updates of a metric with its label values;
  \<open>Spawn\<close> starts the cleanup goroutine and \<open>Finished\<close> is the end of one, with its outcome;
  \<open>RemoveContents\<close> is a call of \<open>VolUtil.DeleteContents\<close> and \<open>Exec\<close> a cleaner command with its
  arguments and environment, both run by such a goroutine; \<open>Sleep\<close> is a pause of the caller.
\<close>

datatype effect =
    Call request "error option"
  | Event string string string error
  | Inc string "string list"
  | Observe string "string list" time
  | SetGauge string "string list" int
  | Spawn cleanup
  | Finished string bool
  | RemoveContents string string
  | Exec string "string list" "string list"
  | Sleep time

type_synonym trace = "effect list"

record world =
  w_Cache :: VolumeCache
  w_ProcTable :: ProcTableImpl
  w_trace :: trace

text \<open>What running a command meets: the errors of the calls in their order, the bytes it writes to its
  two pipes, whether it ends once its output has been taken, and how many bytes fit into a pipe that
  nobody reads.\<close>

record exec_result =
  x_StdoutPipe :: "error option"
  x_StderrPipe :: "error option"
  x_Start :: "error option"
  x_Stdout :: string
  x_Stderr :: string
  x_Ends :: bool
  x_PipeSize :: int
  x_Wait :: "error option"

record env =
  e_goos :: string
  e_api :: "trace \<Rightarrow> request \<Rightarrow> error option"
  e_now :: "trace \<Rightarrow> time"
  e_VolUtil :: "trace \<Rightarrow> VolumeUtil"
  e_jobs :: "trace \<Rightarrow> string \<Rightarrow> string \<Rightarrow> job result"
  e_classes :: "trace \<Rightarrow> storage_class lister"
  e_mounts :: "trace \<Rightarrow> string list result"
  e_nodes :: "trace \<Rightarrow> string \<Rightarrow> node result"
  e_FormatTime :: "time \<Rightarrow> string"
  e_ParseTime :: "string \<Rightarrow> time result"
  e_MarshalAffinity :: "node_selector \<Rightarrow> string result"
  e_DeleteContents :: "trace \<Rightarrow> string \<Rightarrow> string \<Rightarrow> error option"
  e_exec :: "trace \<Rightarrow> string \<Rightarrow> string list \<Rightarrow> string list \<Rightarrow> exec_result"
  e_Environ :: "string list"

definition emit :: "effect \<Rightarrow> world \<Rightarrow> world" where
  "emit e w = w\<lparr>w_trace := w_trace w @ [e]\<rparr>"

definition Now :: "env \<Rightarrow> world \<Rightarrow> time" where
  "Now env w = e_now env (w_trace w)"

text \<open>\<open>time.Since(start).Seconds()\<close>\<close>

definition Since :: "env \<Rightarrow> world \<Rightarrow> time \<Rightarrow> time" where
  "Since env w start = Now env w - start"

definition VolUtil :: "env \<Rightarrow> world \<Rightarrow> VolumeUtil" where
  "VolUtil env w = e_VolUtil env (w_trace w)"

text \<open>One round trip to the API server.\<close>

definition call :: "env \<Rightarrow> request \<Rightarrow> world \<Rightarrow> error option \<times> world" where
  "call env req w = (let err = e_api env (w_trace w) req in (err, emit (Call req err) w))"

section \<open>Metrics\<close>

abbreviation APIServerRequestCreate :: string where "APIServerRequestCreate \<equiv> ''create''"
abbreviation APIServerRequestDelete :: string where "APIServerRequestDelete \<equiv> ''delete''"
abbreviation DeleteTypeProcess :: string where "DeleteTypeProcess \<equiv> ''process''"
abbreviation DeleteTypeJob :: string where "DeleteTypeJob \<equiv> ''job''"

abbreviation PersistentVolumeCapacityBytes :: string where
  "PersistentVolumeCapacityBytes \<equiv> ''persistentvolume_capacity_bytes''"
abbreviation PersistentVolumeDiscoveryTotal :: string where
  "PersistentVolumeDiscoveryTotal \<equiv> ''persistentvolume_discovery_total''"
abbreviation PersistentVolumeDiscoveryDurationSeconds :: string where
  "PersistentVolumeDiscoveryDurationSeconds \<equiv> ''persistentvolume_discovery_duration_seconds''"
abbreviation PersistentVolumeDeleteTotal :: string where
  "PersistentVolumeDeleteTotal \<equiv> ''persistentvolume_delete_total''"
abbreviation PersistentVolumeDeleteFailedTotal :: string where
  "PersistentVolumeDeleteFailedTotal \<equiv> ''persistentvolume_delete_failed_total''"
abbreviation PersistentVolumeDeleteDurationSeconds :: string where
  "PersistentVolumeDeleteDurationSeconds \<equiv> ''persistentvolume_delete_duration_seconds''"
abbreviation APIServerRequestsTotal :: string where
  "APIServerRequestsTotal \<equiv> ''apiserver_requests_total''"
abbreviation APIServerRequestsFailedTotal :: string where
  "APIServerRequestsFailedTotal \<equiv> ''apiserver_requests_failed_total''"
abbreviation APIServerRequestsDurationSeconds :: string where
  "APIServerRequestsDurationSeconds \<equiv> ''apiserver_requests_duration_seconds''"

section \<open>The API utility\<close>

definition CreatePV :: "env \<Rightarrow> persistent_volume \<Rightarrow> world \<Rightarrow> error option \<times> world" where
  "CreatePV env pv w =
     (let startTime = Now env w;
          w = emit (Inc APIServerRequestsTotal [APIServerRequestCreate]) w;
          (err, w) = call env (ReqCreatePV pv) w;
          w = emit (Observe APIServerRequestsDurationSeconds [APIServerRequestCreate] (Since env w startTime)) w;
          w = (if err \<noteq> None then emit (Inc APIServerRequestsFailedTotal [APIServerRequestCreate]) w else w)
      in (err, w))"

definition DeletePV_api :: "env \<Rightarrow> string \<Rightarrow> world \<Rightarrow> error option \<times> world" where
  "DeletePV_api env pvName w =
     (let startTime = Now env w;
          w = emit (Inc APIServerRequestsTotal [APIServerRequestDelete]) w;
          (err, w) = call env (ReqDeletePV pvName) w;
          w = emit (Observe APIServerRequestsDurationSeconds [APIServerRequestDelete] (Since env w startTime)) w;
          w = (if err \<noteq> None then emit (Inc APIServerRequestsFailedTotal [APIServerRequestDelete]) w else w)
      in (err, w))"

definition CreateJob :: "env \<Rightarrow> job \<Rightarrow> world \<Rightarrow> error option \<times> world" where
  "CreateJob env jb w = call env (ReqCreateJob jb) w"

definition DeleteJob :: "env \<Rightarrow> string \<Rightarrow> string \<Rightarrow> world \<Rightarrow> error option \<times> world" where
  "DeleteJob env jobName namespace w = call env (ReqDeleteJob jobName namespace) w"

section \<open>Lemmas on effects\<close>

lemma emit_simps [simp]:
  "w_Cache (emit e w) = w_Cache w" "w_ProcTable (emit e w) = w_ProcTable w"
  "w_trace (emit e w) = w_trace w @ [e]"
  by (simp_all add: emit_def)

text \<open>\<open>ext P w w'\<close>: from \<open>w\<close> to \<open>w'\<close> the log grew by effects that all satisfy \<open>P\<close>.\<close>

definition ext :: "(effect \<Rightarrow> bool) \<Rightarrow> world \<Rightarrow> world \<Rightarrow> bool" where
  "ext P w w' \<longleftrightarrow> (\<exists>es. w_trace w' = w_trace w @ es \<and> list_all P es)"

lemma ext_refl [simp, intro]: "ext P w w"
  by (simp add: ext_def)

lemma ext_trans [trans]: "ext P w w' \<Longrightarrow> ext P w' w'' \<Longrightarrow> ext P w w''"
  by (auto simp: ext_def)

lemma ext_emit [simp]: "ext P w w' \<Longrightarrow> P e \<Longrightarrow> ext P w (emit e w')"
  by (auto simp: ext_def)

lemma ext_mono: "ext P w w' \<Longrightarrow> (\<And>e. P e \<Longrightarrow> Q e) \<Longrightarrow> ext Q w w'"
  by (auto simp: ext_def list_all_iff)

lemma ext_table [simp]:
  "ext P w (w'\<lparr>w_ProcTable := t\<rparr>) \<longleftrightarrow> ext P w w'" "ext P w (w'\<lparr>w_Cache := c\<rparr>) \<longleftrightarrow> ext P w w'"
  by (simp_all add: ext_def)

lemma ext_set: "ext P w w' \<Longrightarrow> e \<in> set (w_trace w') \<Longrightarrow> e \<in> set (w_trace w) \<or> P e"
  by (auto simp: ext_def list_all_iff)

text \<open>Effects that neither reach the API server nor start, end or are part of a cleanup.\<close>

fun quiet :: "effect \<Rightarrow> bool" where
  "quiet (Call _ _) = False"
| "quiet (Spawn _) = False"
| "quiet (Finished _ _) = False"
| "quiet (RemoveContents _ _) = False"
| "quiet (Exec _ _ _) = False"
| "quiet _ = True"

text \<open>Updates of metrics.\<close>

fun metric :: "effect \<Rightarrow> bool" where
  "metric (Inc _ _) = True"
| "metric (Observe _ _ _) = True"
| "metric (SetGauge _ _ _) = True"
| "metric _ = False"

text \<open>The requests of a log, in order.\<close>

fun requests :: "trace \<Rightarrow> request list" where
  "requests [] = []"
| "requests (Call r _ # es) = r # requests es"
| "requests (_ # es) = requests es"

lemma requests_append [simp]: "requests (xs @ ys) = requests xs @ requests ys"
  by (induction xs rule: requests.induct) simp_all

lemma set_requests: "r \<in> set (requests es) \<longleftrightarrow> (\<exists>x. Call r x \<in> set es)"
  by (induction es rule: requests.induct) auto

lemma metric_quiet: "metric e \<Longrightarrow> quiet e"
  by (cases e) auto

lemma call_simps [simp]:
  "fst (call env req w) = e_api env (w_trace w) req"
  "w_Cache (snd (call env req w)) = w_Cache w" "w_ProcTable (snd (call env req w)) = w_ProcTable w"
  "w_trace (snd (call env req w)) = w_trace w @ [Call req (e_api env (w_trace w) req)]"
  by (simp_all add: call_def Let_def)

lemma CreatePV_spec:
  assumes "CreatePV env pv w = (err, w')"
  shows "w_Cache w' = w_Cache w" "w_ProcTable w' = w_ProcTable w"
    "ext (\<lambda>e. metric e \<or> e = Call (ReqCreatePV pv) err) w w'"
    "Call (ReqCreatePV pv) err \<in> set (w_trace w')"
    "\<exists>ys. w_trace w' = w_trace w @ Inc APIServerRequestsTotal [APIServerRequestCreate] # Call (ReqCreatePV pv) err # ys"
  using assms by (auto simp: CreatePV_def Let_def call_def ext_def split: if_splits)

lemma DeletePV_api_spec:
  assumes "DeletePV_api env n w = (err, w')"
  shows "w_Cache w' = w_Cache w" "w_ProcTable w' = w_ProcTable w"
    "ext (\<lambda>e. metric e \<or> e = Call (ReqDeletePV n) err) w w'"
    "Call (ReqDeletePV n) err \<in> set (w_trace w')"
    "\<exists>ys. w_trace w' = w_trace w @ Inc APIServerRequestsTotal [APIServerRequestDelete] # Call (ReqDeletePV n) err # ys"
  using assms by (auto simp: DeletePV_api_def Let_def call_def ext_def split: if_splits)

end
