(* ===== verification/Workqueue.thy ===== *)
theory Workqueue
  imports Kube_Types
begin

text \<open>
  The rate-limited delaying work queue of \<open>k8s.io/client-go/util/workqueue\<close> that the job
  controller and the node-cleanup controller take their keys from: the queue with its dirty and
  processing sets, the entries that wait for their time, and the failure counts of the rate
  limiter. Durations are nanoseconds. The delay of the shared token bucket is an argument of the
  operation that asks for it; metrics are left out.
\<close>

declare map_of_eq_Some_iff [simp del] Some_eq_map_of_iff [simp del]

section \<open>Operations\<close>

record workqueue =
  wq_queue :: "string list"
  wq_dirty :: "string set"
  wq_processing :: "string set"
  wq_shuttingDown :: bool
  wq_waiting :: "(string, time) gomap"
  wq_failures :: "(string, nat) gomap"

definition wq_New :: workqueue where
  "wq_New = \<lparr>wq_queue = [], wq_dirty = {}, wq_processing = {}, wq_shuttingDown = False,
     wq_waiting = [], wq_failures = []\<rparr>"

definition wq_Add :: "string \<Rightarrow> workqueue \<Rightarrow> workqueue" where
  "wq_Add item q =
     (if wq_shuttingDown q then q
      else if item \<in> wq_dirty q then q
      else let q = q\<lparr>wq_dirty := insert item (wq_dirty q)\<rparr> in
           if item \<in> wq_processing q then q
           else q\<lparr>wq_queue := wq_queue q @ [item]\<rparr>)"

text \<open>\<open>Get\<close> blocks on an empty queue that is not shutting down.\<close>

datatype got = Blocked | Shutdown | Item string

definition wq_Get :: "workqueue \<Rightarrow> got \<times> workqueue" where
  "wq_Get q =
     (case wq_queue q of
        [] \<Rightarrow> (if wq_shuttingDown q then Shutdown else Blocked, q)
      | item # rest \<Rightarrow>
          (Item item, q\<lparr>wq_queue := rest, wq_processing := insert item (wq_processing q),
                        wq_dirty := wq_dirty q - {item}\<rparr>))"

definition wq_Done :: "string \<Rightarrow> workqueue \<Rightarrow> workqueue" where
  "wq_Done item q =
     (let q = q\<lparr>wq_processing := wq_processing q - {item}\<rparr> in
      if item \<in> wq_dirty q then q\<lparr>wq_queue := wq_queue q @ [item]\<rparr> else q)"

definition wq_ShutDown :: "workqueue \<Rightarrow> workqueue" where
  "wq_ShutDown q = q\<lparr>wq_shuttingDown := True\<rparr>"

definition wq_insert :: "string \<Rightarrow> time \<Rightarrow> (string, time) gomap \<Rightarrow> (string, time) gomap" where
  "wq_insert item readyAt ws =
     (case gm_get ws item of
        Some existing \<Rightarrow> if existing > readyAt then gm_put item readyAt ws else ws
      | None \<Rightarrow> gm_put item readyAt ws)"

definition wq_AddAfter :: "time \<Rightarrow> string \<Rightarrow> int \<Rightarrow> workqueue \<Rightarrow> workqueue" where
  "wq_AddAfter now item duration q =
     (if wq_shuttingDown q then q
      else if duration \<le> 0 then wq_Add item q
      else q\<lparr>wq_waiting := wq_insert item (now + duration) (wq_waiting q)\<rparr>)"

text \<open>One turn of \<open>waitingLoop\<close>: the entries whose time has come are added, earliest first.\<close>

definition wq_tick :: "time \<Rightarrow> workqueue \<Rightarrow> workqueue" where
  "wq_tick now q =
     (if wq_shuttingDown q then q
      else let ready = sort_key snd (filter (\<lambda>(_, t). t \<le> now) (wq_waiting q)) in
           foldl (\<lambda>q (item, _). wq_Add item q)
             (q\<lparr>wq_waiting := filter (\<lambda>(_, t). \<not> t \<le> now) (wq_waiting q)\<rparr>) ready)"

definition wq_NumRequeues :: "string \<Rightarrow> workqueue \<Rightarrow> nat" where
  "wq_NumRequeues item q = (case gm_get (wq_failures q) item of None \<Rightarrow> 0 | Some n \<Rightarrow> n)"

definition wq_Forget :: "string \<Rightarrow> workqueue \<Rightarrow> workqueue" where
  "wq_Forget item q = q\<lparr>wq_failures := gm_del item (wq_failures q)\<rparr>"

text \<open>\<open>When\<close> of the default controller rate limiter: 5 ms doubled per failure, at most 1000 s,
  or the bucket's delay if that is longer.\<close>

definition wq_When :: "int \<Rightarrow> string \<Rightarrow> workqueue \<Rightarrow> int \<times> workqueue" where
  "wq_When bucket item q =
     (let e = wq_NumRequeues item q;
          q = q\<lparr>wq_failures := gm_put item (e + 1) (wq_failures q)\<rparr>;
          backoff = 5000000 * 2 ^ e;
          d = (if backoff > 9223372036854775807 then 1000000000000
               else if backoff > 1000000000000 then 1000000000000 else backoff)
      in (max (max 0 d) bucket, q))"

definition wq_AddRateLimited :: "time \<Rightarrow> int \<Rightarrow> string \<Rightarrow> workqueue \<Rightarrow> workqueue" where
  "wq_AddRateLimited now bucket item q =
     (let (d, q) = wq_When bucket item q in wq_AddAfter now item d q)"

section \<open>Invariant\<close>

text \<open>Every queued item is dirty and not being processed, no item is queued twice, and a dirty
  item is queued or being processed.\<close>

definition wq_inv :: "workqueue \<Rightarrow> bool" where
  "wq_inv q \<longleftrightarrow> distinct (wq_queue q) \<and> set (wq_queue q) = wq_dirty q - wq_processing q
     \<and> gm_inv (wq_waiting q) \<and> gm_inv (wq_failures q)"

text \<open>The items the queue will still hand out, whatever is being processed.\<close>

definition wq_pending :: "workqueue \<Rightarrow> string set" where
  "wq_pending q = wq_dirty q \<union> fst ` set (wq_waiting q)"

lemma wq_New_inv [simp]: "wq_inv wq_New" "wq_pending wq_New = {}"
  by (simp_all add: wq_New_def wq_inv_def wq_pending_def)

lemma wq_Add_inv [simp]: "wq_inv q \<Longrightarrow> wq_inv (wq_Add item q)"
  by (auto simp: wq_inv_def wq_Add_def Let_def)

lemma wq_Add_pending [simp]:
  "wq_pending (wq_Add item q) = (if wq_shuttingDown q then wq_pending q else insert item (wq_pending q))"
  by (auto simp: wq_pending_def wq_Add_def Let_def)

lemma wq_Add_fields [simp]:
  "wq_processing (wq_Add item q) = wq_processing q" "wq_shuttingDown (wq_Add item q) = wq_shuttingDown q"
  "wq_waiting (wq_Add item q) = wq_waiting q" "wq_failures (wq_Add item q) = wq_failures q"
  by (simp_all add: wq_Add_def Let_def)

lemma wq_Get_cases:
  assumes "wq_Get q = (Item item, q')"
  obtains rest where "wq_queue q = item # rest"
    "q' = q\<lparr>wq_queue := rest, wq_processing := insert item (wq_processing q), wq_dirty := wq_dirty q - {item}\<rparr>"
  using assms by (auto simp: wq_Get_def split: list.splits if_splits)

lemma wq_Get_inv:
  assumes "wq_inv q" "wq_Get q = (g, q')"
  shows "wq_inv q'"
proof (cases g)
  case (Item x)
  with assms(2) obtain rest where q: "wq_queue q = x # rest"
    and q': "q' = q\<lparr>wq_queue := rest, wq_processing := insert x (wq_processing q), wq_dirty := wq_dirty q - {x}\<rparr>"
    by (auto elim: wq_Get_cases)
  from assms(1) q have "distinct (x # rest)" "set (x # rest) = wq_dirty q - wq_processing q"
    by (simp_all only: wq_inv_def)
  then have "set rest = wq_dirty q - wq_processing q - {x}" by auto
  also have "\<dots> = wq_dirty q - {x} - insert x (wq_processing q)" by blast
  finally have "set rest = wq_dirty q - {x} - insert x (wq_processing q)" .
  with assms(1) q q' \<open>distinct (x # rest)\<close> show ?thesis by (simp add: wq_inv_def)
qed (use assms in \<open>auto simp: wq_Get_def split: list.splits\<close>)

lemma wq_Get_item:
  assumes "wq_inv q" "wq_Get q = (Item item, q')"
  shows "item \<in> wq_pending q" "item \<notin> wq_processing q" "wq_processing q' = insert item (wq_processing q)"
    "wq_dirty q' = wq_dirty q - {item}" "wq_waiting q' = wq_waiting q" "wq_failures q' = wq_failures q"
    "wq_shuttingDown q' = wq_shuttingDown q"
proof -
  from assms(2) obtain rest where q: "wq_queue q = item # rest"
    and q': "q' = q\<lparr>wq_queue := rest, wq_processing := insert item (wq_processing q), wq_dirty := wq_dirty q - {item}\<rparr>"
    by (rule wq_Get_cases)
  from assms(1) q have "item \<in> wq_dirty q - wq_processing q"
    unfolding wq_inv_def by (metis list.set_intros(1))
  then show "item \<in> wq_pending q" "item \<notin> wq_processing q" by (simp_all add: wq_pending_def)
qed (use assms in \<open>auto elim: wq_Get_cases\<close>)

lemma wq_Done_inv: "wq_inv q \<Longrightarrow> item \<in> wq_processing q \<Longrightarrow> wq_inv (wq_Done item q)"
  by (auto simp: wq_inv_def wq_Done_def Let_def)

lemma wq_Done_fields [simp]:
  "wq_pending (wq_Done item q) = wq_pending q" "wq_processing (wq_Done item q) = wq_processing q - {item}"
  "wq_shuttingDown (wq_Done item q) = wq_shuttingDown q" "wq_failures (wq_Done item q) = wq_failures q"
  "wq_waiting (wq_Done item q) = wq_waiting q" "wq_dirty (wq_Done item q) = wq_dirty q"
  by (simp_all add: wq_Done_def Let_def wq_pending_def)

lemma wq_insert_dom [simp]: "fst ` set (wq_insert item t ws) = insert item (fst ` set ws)"
proof -
  have "dom (gm_get (wq_insert item t ws)) = insert item (dom (gm_get ws))"
    by (auto simp: wq_insert_def split: option.splits if_splits)
  then show ?thesis by (simp add: dom_map_of_conv_image_fst)
qed

lemma wq_insert_inv [simp]: "gm_inv ws \<Longrightarrow> gm_inv (wq_insert item t ws)"
  by (simp add: wq_insert_def split: option.splits)

lemma wq_AddAfter_inv [simp]: "wq_inv q \<Longrightarrow> wq_inv (wq_AddAfter now item d q)"
  by (auto simp: wq_AddAfter_def) (simp add: wq_inv_def)

lemma wq_AddAfter_pending [simp]:
  "wq_pending (wq_AddAfter now item d q) = (if wq_shuttingDown q then wq_pending q else insert item (wq_pending q))"
  by (simp add: wq_AddAfter_def) (auto simp: wq_pending_def)

text \<open>The time a waiting item becomes ready: the earlier of the one it had and the one it is given.\<close>

definition timer_due :: "time option \<Rightarrow> time \<Rightarrow> time" where
  "timer_due old new = (case old of None \<Rightarrow> new | Some t \<Rightarrow> min t new)"

lemma gm_get_wq_insert: "gm_get (wq_insert item t ws) k = (if k = item then Some (timer_due (gm_get ws item) t) else gm_get ws k)"
  by (auto simp: wq_insert_def timer_due_def split: option.splits)

lemma wq_AddAfter_timer:
  assumes "0 < d" "\<not> wq_shuttingDown q"
  shows "wq_queue (wq_AddAfter now item d q) = wq_queue q" "wq_dirty (wq_AddAfter now item d q) = wq_dirty q"
    "gm_get (wq_waiting (wq_AddAfter now item d q)) k =
       (if k = item then Some (timer_due (gm_get (wq_waiting q) item) (now + d)) else gm_get (wq_waiting q) k)"
  using assms by (simp_all add: wq_AddAfter_def gm_get_wq_insert)

lemma wq_AddAfter_fields [simp]:
  "wq_processing (wq_AddAfter now item d q) = wq_processing q"
  "wq_shuttingDown (wq_AddAfter now item d q) = wq_shuttingDown q"
  "wq_failures (wq_AddAfter now item d q) = wq_failures q"
  by (simp_all add: wq_AddAfter_def)

lemma wq_AddAfter_NumRequeues [simp]: "wq_NumRequeues k (wq_AddAfter now item d q) = wq_NumRequeues k q"
  by (simp add: wq_NumRequeues_def)

lemma wq_When_fields [simp]:
  "wq_pending (snd (wq_When b item q)) = wq_pending q" "wq_processing (snd (wq_When b item q)) = wq_processing q"
  "wq_shuttingDown (snd (wq_When b item q)) = wq_shuttingDown q"
  "wq_inv q \<Longrightarrow> wq_inv (snd (wq_When b item q))"
  "wq_NumRequeues k (snd (wq_When b item q)) = (if k = item then wq_NumRequeues item q + 1 else wq_NumRequeues k q)"
  by (auto simp: wq_When_def Let_def wq_pending_def wq_inv_def wq_NumRequeues_def split: option.splits)

lemma wq_Done_NumRequeues [simp]: "wq_NumRequeues k (wq_Done item q) = wq_NumRequeues k q"
  by (simp add: wq_NumRequeues_def)

lemma wq_AddRateLimited_fields [simp]:
  "wq_pending (wq_AddRateLimited now b item q) = (if wq_shuttingDown q then wq_pending q else insert item (wq_pending q))"
  "wq_processing (wq_AddRateLimited now b item q) = wq_processing q"
  "wq_shuttingDown (wq_AddRateLimited now b item q) = wq_shuttingDown q"
  "wq_inv q \<Longrightarrow> wq_inv (wq_AddRateLimited now b item q)"
  "wq_NumRequeues k (wq_AddRateLimited now b item q) = (if k = item then wq_NumRequeues item q + 1 else wq_NumRequeues k q)"
  by (simp_all add: wq_AddRateLimited_def Let_def case_prod_beta)

text \<open>The back-off is never zero, so a rate-limited item always waits.\<close>

lemma wq_When_pos: "0 < fst (wq_When b item q)"
  by (simp add: wq_When_def Let_def less_max_iff_disj)

lemma wq_AddRateLimited_queue [simp]:
  "wq_queue (wq_AddRateLimited now b item q) = wq_queue q" "wq_dirty (wq_AddRateLimited now b item q) = wq_dirty q"
proof -
  have "wq_queue (snd (wq_When b item q)) = wq_queue q" "wq_dirty (snd (wq_When b item q)) = wq_dirty q"
    by (simp_all add: wq_When_def Let_def)
  with wq_When_pos[of b item q] show
    "wq_queue (wq_AddRateLimited now b item q) = wq_queue q" "wq_dirty (wq_AddRateLimited now b item q) = wq_dirty q"
    by (simp_all add: wq_AddRateLimited_def Let_def case_prod_beta wq_AddAfter_def)
qed

lemma wq_Forget_queue [simp]:
  "wq_queue (wq_Forget item q) = wq_queue q" "wq_dirty (wq_Forget item q) = wq_dirty q"
  by (simp_all add: wq_Forget_def)

lemma wq_Forget_fields [simp]:
  "wq_pending (wq_Forget item q) = wq_pending q" "wq_processing (wq_Forget item q) = wq_processing q"
  "wq_shuttingDown (wq_Forget item q) = wq_shuttingDown q" "wq_inv q \<Longrightarrow> wq_inv (wq_Forget item q)"
  "wq_NumRequeues k (wq_Forget item q) = (if k = item then 0 else wq_NumRequeues k q)"
  by (auto simp: wq_Forget_def wq_pending_def wq_inv_def wq_NumRequeues_def)

lemma wq_adds:
  "wq_inv q \<Longrightarrow> wq_inv (foldl (\<lambda>q (item, _). wq_Add item q) q es)"
  "\<not> wq_shuttingDown q \<Longrightarrow>
     wq_pending (foldl (\<lambda>q (item, _). wq_Add item q) q es) = wq_pending q \<union> fst ` set es"
  by (induction es arbitrary: q) (auto simp: case_prod_beta)

lemma wq_tick_inv [simp]: "wq_inv q \<Longrightarrow> wq_inv (wq_tick now q)"
  by (auto simp: wq_tick_def Let_def intro!: wq_adds) (simp add: wq_inv_def distinct_map_filter)

text \<open>Time passing hands over waiting entries and loses none.\<close>

lemma wq_tick_pending [simp]: "wq_pending (wq_tick now q) = wq_pending q"
  by (auto simp: wq_tick_def Let_def wq_adds) (force simp: wq_pending_def)+

lemma wq_adds_fields [simp]:
  "wq_processing (foldl (\<lambda>q (item, _). wq_Add item q) q es) = wq_processing q"
  "wq_waiting (foldl (\<lambda>q (item, _). wq_Add item q) q es) = wq_waiting q"
  "wq_shuttingDown (foldl (\<lambda>q (item, _). wq_Add item q) q es) = wq_shuttingDown q"
  by (induction es arbitrary: q) (simp_all add: case_prod_beta)

lemma wq_tick_fields [simp]:
  "wq_processing (wq_tick now q) = wq_processing q" "wq_shuttingDown (wq_tick now q) = wq_shuttingDown q"
  "wq_waiting (wq_tick now q) = (if wq_shuttingDown q then wq_waiting q else filter (\<lambda>(_, t). \<not> t \<le> now) (wq_waiting q))"
  by (simp_all add: wq_tick_def Let_def)

text \<open>An entry whose time has come is queued.\<close>

lemma wq_tick_due:
  assumes "wq_inv q" "\<not> wq_shuttingDown q" "gm_get (wq_waiting q) k = Some t" "t \<le> now" "k \<notin> wq_processing q"
  shows "k \<in> set (wq_queue (wq_tick now q))"
proof -
  have kt: "(k, t) \<in> set (wq_waiting q)" using assms(3) by (rule map_of_SomeD)
  have "(k, t') \<notin> set (wq_waiting q)" if "t' \<noteq> t" for t'
    using assms(1,3) that by (auto simp: wq_inv_def dest: map_of_is_SomeI)
  then have "k \<notin> fst ` set (wq_waiting (wq_tick now q))" using assms(2,4) by force
  moreover have "k \<in> wq_pending (wq_tick now q)" using kt by (subst wq_tick_pending) (force simp: wq_pending_def)
  ultimately have "k \<in> wq_dirty (wq_tick now q)" by (simp add: wq_pending_def del: wq_tick_pending)
  with wq_tick_inv[OF assms(1), of now] assms(5) show ?thesis by (simp add: wq_inv_def)
qed

text \<open>An entry that is added again keeps the earlier of its times.\<close>

lemma wq_AddAfter_waiting:
  assumes "gm_get (wq_waiting q) k = Some t"
  shows "\<exists>t'\<le>t. gm_get (wq_waiting (wq_AddAfter now item d q)) k = Some t'"
  using assms by (auto simp: wq_AddAfter_def wq_insert_def split: option.splits)

text \<open>One turn of a worker: an item is taken, then forgotten or added back with its back-off, and
  released. A sole worker thereby takes the item off the queue for good or until its back-off.\<close>

lemma wq_turn:
  assumes "wq_inv q" "wq_Get q = (Item key, q1)"
    and "q2 = wq_Forget key q1 \<or> q2 = wq_AddRateLimited now b key q1"
  shows "wq_inv (wq_Done key q2)" "wq_shuttingDown (wq_Done key q2) = wq_shuttingDown q"
    "\<exists>rest. wq_queue q = key # rest \<and>
      (wq_processing q = {} \<longrightarrow> wq_processing (wq_Done key q2) = {} \<and> wq_queue (wq_Done key q2) = rest)"
proof -
  from assms(2) obtain rest where r: "wq_queue q = key # rest" and q1: "wq_queue q1 = rest"
    by (auto elim!: wq_Get_cases)
  have inv1: "wq_inv q1" by (rule wq_Get_inv[OF assms(1,2)])
  note item = wq_Get_item[OF assms(1,2)]
  have q2: "wq_inv q2" "wq_processing q2 = wq_processing q1" "wq_queue q2 = rest" "wq_dirty q2 = wq_dirty q1"
    "wq_shuttingDown q2 = wq_shuttingDown q"
    using assms(3) by (elim disjE; simp add: inv1 q1 item(7))+
  then show "wq_inv (wq_Done key q2)" by (simp add: wq_Done_inv item(3))
  show "wq_shuttingDown (wq_Done key q2) = wq_shuttingDown q" using q2 by simp
  have "wq_queue (wq_Done key q2) = rest \<and> wq_processing (wq_Done key q2) = {}" if "wq_processing q = {}"
    by (simp add: wq_Done_def Let_def q2 item(3,4) that)
  with r show "\<exists>rest. wq_queue q = key # rest \<and>
      (wq_processing q = {} \<longrightarrow> wq_processing (wq_Done key q2) = {} \<and> wq_queue (wq_Done key q2) = rest)"
    by blast
qed

section \<open>What a controller relies on\<close>

text \<open>The contract of a work queue: an item that was added is handed out again unless the queue
  shuts down, and never to two workers at a time.\<close>

locale work_queue =
  fixes add :: "string \<Rightarrow> 'q \<Rightarrow> 'q"
    and get :: "'q \<Rightarrow> got \<times> 'q"
    and fin :: "string \<Rightarrow> 'q \<Rightarrow> 'q"
    and pending :: "'q \<Rightarrow> string set"
    and processing :: "'q \<Rightarrow> string set"
    and closed :: "'q \<Rightarrow> bool"
    and inv :: "'q \<Rightarrow> bool"
  assumes add: "inv q \<Longrightarrow> inv (add x q) \<and> processing (add x q) = processing q \<and> closed (add x q) = closed q \<and>
      pending (add x q) = (if closed q then pending q else insert x (pending q))"
    and get: "inv q \<Longrightarrow> get q = (Item x, q') \<Longrightarrow> inv q' \<and> x \<in> pending q \<and> x \<notin> processing q
      \<and> processing q' = insert x (processing q) \<and> pending q - {x} \<subseteq> pending q' \<and> closed q' = closed q"
    and fin: "inv q \<Longrightarrow> x \<in> processing q \<Longrightarrow> inv (fin x q) \<and> processing (fin x q) = processing q - {x}
      \<and> pending (fin x q) = pending q \<and> closed (fin x q) = closed q"
begin

text \<open>An item that is taken, fails and is added back before it is released is pending again, and
  no other item is lost on the way.\<close>

lemma retry_keeps:
  assumes "inv q" "\<not> closed q" "get q = (Item x, q')"
  shows "pending q \<subseteq> pending (fin x (add x q'))" "processing (fin x (add x q')) = processing q"
  using get[OF assms(1,3)] add[of q' x] fin[of "add x q'" x] assms(2) by auto

end

interpretation wq: work_queue wq_Add wq_Get wq_Done wq_pending wq_processing wq_shuttingDown wq_inv
proof unfold_locales
  show "wq_inv q \<Longrightarrow> wq_Get q = (Item x, q') \<Longrightarrow> wq_inv q' \<and> x \<in> wq_pending q \<and> x \<notin> wq_processing q
      \<and> wq_processing q' = insert x (wq_processing q) \<and> wq_pending q - {x} \<subseteq> wq_pending q'
      \<and> wq_shuttingDown q' = wq_shuttingDown q" for q x q'
    using wq_Get_item[of q x q'] wq_Get_inv[of q "Item x" q'] by (auto simp: wq_pending_def)
qed (simp_all add: wq_Done_inv)

end
