(* ===== verification/Job_Controller.thy ===== *)
theory Job_Controller
  imports World Workqueue
begin

text \<open>
  \<open>pkg/deleter/jobcontroller.go\<close>: cleaning by a Kubernetes Job. The manifest of a cleaning job,
  the questions the deleter asks about the job of a volume, the controller's worker, and the mock
  controller. The job lister is the environment's \<^const>\<open>e_jobs\<close>, read by namespace and name.
\<close>

declare map_of_eq_Some_iff [simp del] Some_eq_map_of_iff [simp del]

section \<open>Keys and the worker\<close>

abbreviation maxRetries :: nat where "maxRetries \<equiv> 10"
abbreviation JobContainerName :: string where "JobContainerName \<equiv> ''cleaner''"
abbreviation PVLabel :: string where "PVLabel \<equiv> ''pv''"
abbreviation PVUuidLabel :: string where "PVUuidLabel \<equiv> ''pvuuid''"
abbreviation DeviceAnnotation :: string where "DeviceAnnotation \<equiv> ''device''"
abbreviation StartTimeAnnotation :: string where "StartTimeAnnotation \<equiv> ''start-time''"

definition SplitMetaNamespaceKey :: "string \<Rightarrow> (string \<times> string) result" where
  "SplitMetaNamespaceKey key =
     (case Split key (CHR ''/'') of
        [name] \<Rightarrow> Inr ([], name)
      | [namespace, name] \<Rightarrow> Inr (namespace, name)
      | _ \<Rightarrow> Inl (Errorf ''unexpected key format: %q'' [key]))"

text \<open>The informer's notifications. A deletion that was missed arrives as a tombstone with the
  key.\<close>

datatype job_event = JobAdded job | JobUpdated job job | JobDeleted job | JobTombstone string

fun job_event_handler :: "workqueue \<Rightarrow> job_event \<Rightarrow> workqueue" where
  "job_event_handler q (JobAdded obj) = wq_Add (ns_key (om_Namespace (job_Meta obj)) (om_Name (job_Meta obj))) q"
| "job_event_handler q (JobUpdated oldObj newObj) =
     wq_Add (ns_key (om_Namespace (job_Meta newObj)) (om_Name (job_Meta newObj))) q"
| "job_event_handler q (JobDeleted obj) = wq_Add (ns_key (om_Namespace (job_Meta obj)) (om_Name (job_Meta obj))) q"
| "job_event_handler q (JobTombstone key) = wq_Add key q"

text \<open>\<open>processItem\<close> only logs what it finds; the job lister is its argument.\<close>

definition processItem :: "(string \<Rightarrow> string \<Rightarrow> job result) \<Rightarrow> string \<Rightarrow> error option" where
  "processItem jobs key =
     (case SplitMetaNamespaceKey key of
        Inl err \<Rightarrow> Some err
      | Inr (namespace, name) \<Rightarrow>
          (case jobs namespace name of
             Inl err \<Rightarrow>
               if IsNotFound err then None
               else Some (Wrapf ''Error fetching object with key %s from store: %v'' [key] err)
           | Inr jb \<Rightarrow>
               if om_DeletionTimestamp (job_Meta jb) \<noteq> None then None
               else if job_Succeeded jb = 0 then None
               else None))"

text \<open>The result is \<open>None\<close> while the queue blocks, and otherwise whether the worker goes on.\<close>

definition processNextItem ::
    "(string \<Rightarrow> string \<Rightarrow> job result) \<Rightarrow> time \<Rightarrow> int \<Rightarrow> workqueue \<Rightarrow> bool option \<times> workqueue" where
  "processNextItem jobs now bucket q =
     (case wq_Get q of
        (Blocked, q) \<Rightarrow> (None, q)
      | (Shutdown, q) \<Rightarrow> (Some False, q)
      | (Item key, q) \<Rightarrow>
          let err = processItem jobs key;
              q = (if err = None then wq_Forget key q
                   else if wq_NumRequeues key q < maxRetries then wq_AddRateLimited now bucket key q
                   else wq_Forget key q)
          in (Some True, wq_Done key q))"

text \<open>\<open>runWorker\<close> for at most the given number of items: whether it returned, and the queue.\<close>

fun runWorker ::
    "(string \<Rightarrow> string \<Rightarrow> job result) \<Rightarrow> time \<Rightarrow> int \<Rightarrow> nat \<Rightarrow> workqueue \<Rightarrow> bool \<times> workqueue" where
  "runWorker jobs now bucket 0 q = (False, q)"
| "runWorker jobs now bucket (Suc n) q =
     (case processNextItem jobs now bucket q of
        (None, q) \<Rightarrow> (False, q)
      | (Some False, q) \<Rightarrow> (True, q)
      | (Some True, q) \<Rightarrow> runWorker jobs now bucket n q)"

text \<open>\<open>Run\<close> is \<open>wait.Until(c.runWorker, time.Second, stopCh)\<close>, followed by the deferred \<open>ShutDown\<close>:
  the list says, for each time \<open>Until\<close> looks, whether the stop channel is closed; the number bounds
  the items of each run of the worker. The result is whether \<open>Run\<close> has returned, and the queue.\<close>

fun jobController_Run ::
    "(string \<Rightarrow> string \<Rightarrow> job result) \<Rightarrow> time \<Rightarrow> int \<Rightarrow> nat \<Rightarrow> bool list \<Rightarrow> workqueue \<Rightarrow> bool \<times> workqueue" where
  "jobController_Run jobs now bucket n [] q = (False, q)"
| "jobController_Run jobs now bucket n (stop # stops) q =
     (if stop then (True, wq_ShutDown q)
      else case runWorker jobs now bucket n q of
        (False, q) \<Rightarrow> (False, q)
      | (True, q) \<Rightarrow> jobController_Run jobs now bucket n stops q)"

text \<open>The controller: its namespace, its queue and the label set its informer selects jobs by.\<close>

record jobController =
  jc_namespace :: string
  jc_queue :: workqueue
  jc_labels :: "(string, string) gomap"

definition NewJobController :: "(string, string) gomap \<Rightarrow> RuntimeConfig \<Rightarrow> jobController" where
  "NewJobController labelmap config =
     \<lparr>jc_namespace = uc_Namespace (rc_UserConfig config), jc_queue = wq_New, jc_labels = labelmap\<rparr>"

text \<open>\<open>labels.SelectorFromSet(labelset)\<close> as the informer's list and watch apply it.\<close>

definition jc_selects :: "jobController \<Rightarrow> job \<Rightarrow> bool" where
  "jc_selects c jb \<longleftrightarrow> om_Namespace (job_Meta jb) = jc_namespace c
     \<and> list_all (\<lambda>(k, v). label_get (om_Labels (job_Meta jb)) k = Some v) (jc_labels c)"

section \<open>The job of a volume\<close>

definition IsCleaningJobRunning :: "env \<Rightarrow> string \<Rightarrow> string \<Rightarrow> world \<Rightarrow> bool" where
  "IsCleaningJobRunning env namespace pvName w =
     (case e_jobs env (w_trace w) namespace (generateCleaningJobName pvName) of
        Inl err \<Rightarrow> if IsNotFound err then False else True
      | Inr jb \<Rightarrow> job_Succeeded jb \<le> 0)"

definition job_start_time :: "env \<Rightarrow> job \<Rightarrow> time option" where
  "job_start_time env jb =
     (case label_get (om_Annotations (job_Meta jb)) StartTimeAnnotation of
        None \<Rightarrow> None
      | Some s \<Rightarrow> (case e_ParseTime env s of Inl _ \<Rightarrow> None | Inr t \<Rightarrow> Some t))"

definition RemoveJob :: "env \<Rightarrow> string \<Rightarrow> string \<Rightarrow> world \<Rightarrow> removed \<times> world" where
  "RemoveJob env namespace pvName w =
     (let jobName = generateCleaningJobName pvName in
      case e_jobs env (w_trace w) namespace jobName of
        Inl err \<Rightarrow>
          if IsNotFound err then ((CSNotFound, None, None), w)
          else ((CSUnknown, None,
                 Some (Wrapf ''Failed to check whether job %s has succeeded. Error - %s'' [jobName] err)), w)
      | Inr jb \<Rightarrow>
          let startTime = job_start_time env jb in
          if job_Succeeded jb = 0 then
            ((CSUnknown, None,
              Some (Errorf ''Error deleting Job %q: Cannot remove job that has not succeeded'' [om_Name (job_Meta jb)])), w)
          else
            (case DeleteJob env (om_Name (job_Meta jb)) namespace w of
               (Some err, w) \<Rightarrow>
                 ((CSUnknown, None, Some (Wrapf ''Error deleting Job %q: %s'' [om_Name (job_Meta jb)] err)), w)
             | (None, w) \<Rightarrow> ((CSSucceeded, startTime, None), w)))"

definition NewCleanupJob :: "(time \<Rightarrow> string) \<Rightarrow> time \<Rightarrow> persistent_volume \<Rightarrow> string \<Rightarrow> string \<Rightarrow> toleration list
    \<Rightarrow> string \<Rightarrow> string \<Rightarrow> string \<Rightarrow> MountConfig \<Rightarrow> job result" where
  "NewCleanupJob format now pv volMode imageName tolerations nodeName namespace mountPath config =
     (let jobContainer = \<lparr>c_Name = JobContainerName, c_Image = imageName, c_Privileged = Some True,
            c_Command = [], c_Env = [], c_VolumeMounts = []\<rparr> in
      case (if volMode = PersistentVolumeBlock then
              Inr (jobContainer\<lparr>c_Command := cleaner_command config, c_Env := [(LocalPVEnv, mountPath)]\<rparr>)
            else if volMode = PersistentVolumeFilesystem then
              Inr (jobContainer\<lparr>c_Command := [''/scripts/fsclean.sh''], c_Env := [(LocalFilesystemEnv, mountPath)]\<rparr>)
            else Inl (Errorf ''unknown PersistentVolume mode: %v'' [volMode])) of
        Inl err \<Rightarrow> Inl err
      | Inr jobContainer \<Rightarrow>
          let mountName = GenerateMountName config;
              volumes = [(mountName, mc_HostDir config)];
              jobContainer = jobContainer\<lparr>c_VolumeMounts := [(mountName, mc_MountDir config)]\<rparr>;
              (volumes, jobContainer) =
                (if volMode = PersistentVolumeBlock then
                   (volumes @ [(''dev'', ''/dev'')],
                    jobContainer\<lparr>c_VolumeMounts := c_VolumeMounts jobContainer @ [(''dev'', ''/dev'')]\<rparr>)
                 else (volumes, jobContainer));
              labels = [(NodeNameLabel, nodeName), (PVLabel, pv_Name pv), (PVUuidLabel, om_UID (pv_Meta pv))];
              annotations = [(DeviceAnnotation, mountPath), (StartTimeAnnotation, format now)]
          in Inr \<lparr>job_Meta = empty_meta\<lparr>om_Name := generateCleaningJobName (pv_Name pv), om_Namespace := namespace,
                     om_Labels := Some labels, om_Annotations := Some annotations\<rparr>,
                  job_PodSpec = \<lparr>ps_Containers = [jobContainer], ps_Volumes = volumes,
                     ps_NodeSelector = [(NodeNameLabel, nodeName)], ps_Tolerations = tolerations,
                     ps_RestartPolicy = RestartPolicyOnFailure\<rparr>,
                  job_Succeeded = 0\<rparr>)"

section \<open>The mock controller\<close>

record FakeJobController =
  fj_pvCleanupRunning :: "(string, CleanupState) gomap"
  fj_IsRunningCount :: int
  fj_RemoveCompletedCount :: int

definition NewFakeJobController :: FakeJobController where
  "NewFakeJobController = \<lparr>fj_pvCleanupRunning = [], fj_IsRunningCount = 0, fj_RemoveCompletedCount = 0\<rparr>"

definition FakeJob_MarkRunning :: "string \<Rightarrow> FakeJobController \<Rightarrow> FakeJobController" where
  "FakeJob_MarkRunning pvName c = c\<lparr>fj_pvCleanupRunning := gm_put pvName CSRunning (fj_pvCleanupRunning c)\<rparr>"

definition FakeJob_MarkSucceeded :: "string \<Rightarrow> FakeJobController \<Rightarrow> FakeJobController" where
  "FakeJob_MarkSucceeded pvName c = c\<lparr>fj_pvCleanupRunning := gm_put pvName CSSucceeded (fj_pvCleanupRunning c)\<rparr>"

definition FakeJob_IsCleaningJobRunning :: "string \<Rightarrow> FakeJobController \<Rightarrow> bool \<times> FakeJobController" where
  "FakeJob_IsCleaningJobRunning pvName c =
     (let c = c\<lparr>fj_IsRunningCount := fj_IsRunningCount c + 1\<rparr>
      in (gm_get (fj_pvCleanupRunning c) pvName \<noteq> None, c))"

definition FakeJob_RemoveJob :: "string \<Rightarrow> FakeJobController \<Rightarrow> removed \<times> FakeJobController" where
  "FakeJob_RemoveJob pvName c =
     (let c = c\<lparr>fj_RemoveCompletedCount := fj_RemoveCompletedCount c + 1\<rparr> in
      case gm_get (fj_pvCleanupRunning c) pvName of
        None \<Rightarrow> ((CSNotFound, None, None), c)
      | Some status \<Rightarrow>
          if status \<noteq> CSSucceeded then
            ((CSUnknown, None, Some (Errorf ''cannot remove job that has not yet completed %s status %d'' [pvName, dec_int (cs_int status)])), c)
          else ((CSSucceeded, None, None), c))"

section \<open>What the cleanup tracker relies on\<close>

text \<open>The state of a volume's job as a lister shows it: absent, present, or present and
  succeeded. An error other than NotFound counts as present.\<close>

datatype job_view = NoJob | Unfinished | Succeeded_job

locale job_controller =
  fixes is_running :: "string \<Rightarrow> 's \<Rightarrow> bool \<times> 's"
    and remove_job :: "string \<Rightarrow> 's \<Rightarrow> removed \<times> 's"
    and view :: "'s \<Rightarrow> string \<Rightarrow> job_view"
  assumes absent: "view s p = NoJob \<Longrightarrow> \<not> fst (is_running p s) \<and> fst (remove_job p s) = (CSNotFound, None, None)"
    and unfinished: "view s p = Unfinished \<Longrightarrow> fst (is_running p s)"
    and removed: "fst (remove_job p s) = (st, t, e) \<Longrightarrow>
      st = CSNotFound \<and> e = None \<and> view s p = NoJob
      \<or> st = CSSucceeded \<and> e = None \<and> view s p = Succeeded_job
      \<or> st = CSUnknown \<and> e \<noteq> None \<and> view s p \<noteq> NoJob"
begin

text \<open>A caller that saw the job not running gets either no job, the outcome of a job that did
  succeed, or an error, never the state of an unfinished job.\<close>

lemma removed_after_check:
  assumes "\<not> fst (is_running p s)" "fst (remove_job p s) = (st, t, None)"
  shows "st = CSNotFound \<and> view s p = NoJob \<or> st = CSSucceeded \<and> view s p = Succeeded_job"
  using removed[OF assms(2)] by auto

lemma removed_state_cases:
  assumes "fst (remove_job p s) = (st, t, e)"
  shows "st \<in> {CSNotFound, CSSucceeded, CSUnknown}" "e = None \<longleftrightarrow> st \<noteq> CSUnknown"
  using removed[OF assms] by auto

end

definition job_lister_view :: "env \<Rightarrow> string \<Rightarrow> world \<Rightarrow> string \<Rightarrow> job_view" where
  "job_lister_view env namespace w p =
     (case e_jobs env (w_trace w) namespace (generateCleaningJobName p) of
        Inl err \<Rightarrow> if IsNotFound err then NoJob else Unfinished
      | Inr jb \<Rightarrow> if job_Succeeded jb = 0 then Unfinished else Succeeded_job)"

lemma RemoveJob_view:
  assumes "fst (RemoveJob env ns p w) = (st, t, e)"
  shows "st = CSNotFound \<and> e = None \<and> job_lister_view env ns w p = NoJob
      \<or> st = CSSucceeded \<and> e = None \<and> job_lister_view env ns w p = Succeeded_job
      \<or> st = CSUnknown \<and> e \<noteq> None \<and> job_lister_view env ns w p \<noteq> NoJob"
  using assms
  by (auto simp: RemoveJob_def job_lister_view_def Let_def split: sum.splits if_splits prod.splits option.splits)

interpretation rjc: job_controller "\<lambda>p w. (IsCleaningJobRunning env ns p w, w)" "RemoveJob env ns"
  "job_lister_view env ns" for env ns
proof unfold_locales
  show "fst (RemoveJob env ns p s) = (st, t, e) \<Longrightarrow>
      st = CSNotFound \<and> e = None \<and> job_lister_view env ns s p = NoJob
      \<or> st = CSSucceeded \<and> e = None \<and> job_lister_view env ns s p = Succeeded_job
      \<or> st = CSUnknown \<and> e \<noteq> None \<and> job_lister_view env ns s p \<noteq> NoJob" for p s st t e
    by (rule RemoveJob_view)
qed (auto simp: IsCleaningJobRunning_def RemoveJob_def job_lister_view_def Let_def
  split: sum.splits if_splits)

definition fake_job_view :: "FakeJobController \<Rightarrow> string \<Rightarrow> job_view" where
  "fake_job_view c p =
     (case gm_get (fj_pvCleanupRunning c) p of
        None \<Rightarrow> NoJob
      | Some s \<Rightarrow> if s = CSSucceeded then Succeeded_job else Unfinished)"

interpretation fjc: job_controller FakeJob_IsCleaningJobRunning FakeJob_RemoveJob fake_job_view
  by unfold_locales
    (auto simp: FakeJob_IsCleaningJobRunning_def FakeJob_RemoveJob_def fake_job_view_def Let_def
      split: option.splits if_splits)

text \<open>The effects of \<open>RemoveJob\<close>: at most one request, the deletion of the job the lister found,
  and only for a job that succeeded.\<close>

lemma RemoveJob_effects:
  assumes "RemoveJob env ns p w = ((st, t, e), w')"
  shows "w_Cache w' = w_Cache w" "w_ProcTable w' = w_ProcTable w"
    "ext (\<lambda>x. \<exists>jb r. x = Call (ReqDeleteJob (om_Name (job_Meta jb)) ns) r \<and> job_Succeeded jb \<noteq> 0
        \<and> e_jobs env (w_trace w) ns (generateCleaningJobName p) = Inr jb) w w'"
  using assms
  by (auto simp: RemoveJob_def DeleteJob_def call_def Let_def ext_def
      split: sum.splits if_splits prod.splits option.splits)

section \<open>The worker\<close>

lemma processNextItem_item:
  assumes "wq_inv q" "processNextItem jobs now bucket q = (Some True, q')"
  obtains key rest where "wq_queue q = key # rest" "wq_inv q'" "wq_shuttingDown q' = wq_shuttingDown q"
    "wq_processing q = {} \<longrightarrow> wq_processing q' = {} \<and> wq_queue q' = rest"
proof -
  from assms(2) obtain key q1 where g: "wq_Get q = (Item key, q1)"
    and q': "q' = wq_Done key (if processItem jobs key = None then wq_Forget key q1
                   else if wq_NumRequeues key q1 < maxRetries then wq_AddRateLimited now bucket key q1
                   else wq_Forget key q1)" (is "_ = wq_Done key ?q2")
    by (auto simp: processNextItem_def Let_def split: prod.splits got.splits)
  have "?q2 = wq_Forget key q1 \<or> ?q2 = wq_AddRateLimited now bucket key q1" by simp
  from wq_turn[OF assms(1) g this] that show ?thesis unfolding q' by blast
qed

lemma runWorker_drains_aux:
  "wq_inv q \<Longrightarrow> wq_processing q = {} \<Longrightarrow> length (wq_queue q) < n \<Longrightarrow>
     \<exists>q'. runWorker jobs now bucket n q = (wq_shuttingDown q, q') \<and> wq_queue q' = [] \<and> wq_inv q'"
proof (induction n arbitrary: q)
  case (Suc n)
  show ?case
  proof (cases "wq_queue q")
    case Nil
    with Suc.prems show ?thesis by (simp add: processNextItem_def wq_Get_def)
  next
    case (Cons key rest)
    then obtain q1 where p: "processNextItem jobs now bucket q = (Some True, q1)"
      by (auto simp: processNextItem_def wq_Get_def Let_def)
    moreover have "wq_inv q1 \<and> wq_processing q1 = {} \<and> length (wq_queue q1) < n
        \<and> wq_shuttingDown q1 = wq_shuttingDown q"
      using processNextItem_item[OF Suc.prems(1) p] Suc.prems Cons by auto
    ultimately show ?thesis using Suc.IH[of q1] by auto
  qed
qed simp

lemma processNextItem_requeues:
  assumes "\<forall>k. wq_NumRequeues k q \<le> maxRetries" and "processNextItem jobs now bucket q = (r, q')"
  shows "wq_NumRequeues k q' \<le> maxRetries"
proof -
  obtain g q1 where g: "wq_Get q = (g, q1)" by fastforce
  then have same: "wq_NumRequeues k q1 = wq_NumRequeues k q" for k
    by (auto simp: wq_Get_def wq_NumRequeues_def split: list.splits)
  show ?thesis
    using assms g same by (auto simp: processNextItem_def Let_def split: got.splits)
qed

lemma processNextItem_shutting:
  "processNextItem jobs now bucket q = (r, q') \<Longrightarrow>
     wq_shuttingDown q' = wq_shuttingDown q \<and> (r = Some False \<longrightarrow> wq_shuttingDown q)"
  by (auto simp: processNextItem_def wq_Get_def Let_def split: list.splits if_splits)

lemma runWorker_open:
  "runWorker jobs now bucket n q = (b, q') \<Longrightarrow> \<not> wq_shuttingDown q \<Longrightarrow> \<not> b \<and> \<not> wq_shuttingDown q'"
proof (induction n arbitrary: q)
  case (Suc n)
  obtain r q1 where p: "processNextItem jobs now bucket q = (r, q1)" by fastforce
  note shut = processNextItem_shutting[OF p]
  show ?case
  proof (cases "r = Some True")
    case True
    with Suc.prems p shut Suc.IH[of q1] show ?thesis by simp
  next
    case False
    with Suc.prems p shut show ?thesis by (cases r) (auto split: bool.splits)
  qed
qed simp

section \<open>Properties\<close>

text \<open>C28. Once its worker runs, the job controller cannot be stopped: as long as nobody else shuts
  the queue down, \<open>Run\<close> never returns, whatever the stop channel says after the first look and
  however many items arrive, because the worker leaves its loop only when the queue shuts down
  and \<open>Run\<close> shuts the queue down only after the worker has left.\<close>

theorem job_controller_never_stops:
  assumes "\<not> wq_shuttingDown q"
  shows "\<exists>q'. jobController_Run jobs now bucket n (False # stops) q = (False, q') \<and> \<not> wq_shuttingDown q'"
  using runWorker_open[OF _ assms, of jobs now bucket n] by (auto split: prod.splits bool.splits)

theorem job_controller_never_stops_witness:
  "\<exists>q'. jobController_Run (\<lambda>_ _. Inl ErrNotFound) 0 0 5 [False, True, True] (wq_Add ''ns/a'' wq_New) = (False, q')
     \<and> \<not> wq_shuttingDown q'"
  by (rule job_controller_never_stops) (simp add: wq_Add_def wq_New_def)

text \<open>A cleaning job cleans exactly its volume. For a block or filesystem volume the manifest
  exists, is named after the volume, is pinned to the node, mounts the class's host directory at
  its mount directory (so the path handed to the cleaner is the discovered one) and passes that
  path to a command fit for the mode, with \<open>/dev\<close> mounted only for block volumes; any other
  mode is refused.\<close>

theorem cleanup_job_targets_volume:
  "case NewCleanupJob format now pv mode img tols nd ns path config of
     Inr jb \<Rightarrow>
       om_Name (job_Meta jb) = generateCleaningJobName (pv_Name pv) \<and> om_Namespace (job_Meta jb) = ns
       \<and> gm_get (ps_NodeSelector (job_PodSpec jb)) NodeNameLabel = Some nd
       \<and> label_get (om_Labels (job_Meta jb)) PVUuidLabel = Some (om_UID (pv_Meta pv))
       \<and> ps_RestartPolicy (job_PodSpec jb) = RestartPolicyOnFailure \<and> job_Succeeded jb = 0
       \<and> (\<exists>c. ps_Containers (job_PodSpec jb) = [c] \<and> c_Image c = img
            \<and> (GenerateMountName config, mc_HostDir config) \<in> set (ps_Volumes (job_PodSpec jb))
            \<and> (GenerateMountName config, mc_MountDir config) \<in> set (c_VolumeMounts c)
            \<and> set (map fst (c_VolumeMounts c)) = set (map fst (ps_Volumes (job_PodSpec jb)))
            \<and> (mode = PersistentVolumeBlock \<and> c_Command c = cleaner_command config
                 \<and> c_Env c = [(LocalPVEnv, path)] \<and> (''dev'', ''/dev'') \<in> set (ps_Volumes (job_PodSpec jb))
               \<or> mode = PersistentVolumeFilesystem \<and> c_Command c = [''/scripts/fsclean.sh'']
                 \<and> c_Env c = [(LocalFilesystemEnv, path)] \<and> length (ps_Volumes (job_PodSpec jb)) = 1))
   | Inl e \<Rightarrow> mode \<noteq> PersistentVolumeBlock \<and> mode \<noteq> PersistentVolumeFilesystem"
  by (auto simp: NewCleanupJob_def Let_def empty_meta_def)

text \<open>The controller sees the jobs the deleter creates: a cleaning job built for the configured
  namespace and node is selected by the informer that was set up for the node's label, so its
  progress reaches the lister.\<close>

theorem cleanup_job_watched:
  assumes "NewCleanupJob format now pv mode img tols (node_Name (uc_Node (rc_UserConfig config)))
      (uc_Namespace (rc_UserConfig config)) path mc = Inr jb"
  shows "jc_selects (NewJobController [(NodeNameLabel, node_Name (uc_Node (rc_UserConfig config)))] config) (jb\<lparr>job_Succeeded := n\<rparr>)"
  using assms by (auto simp: NewCleanupJob_def jc_selects_def NewJobController_def Let_def split: if_splits)

text \<open>C26. The life of a cleaning job through the lister: while the job that was created has no
  success recorded it counts as running and is not removed; once a success is recorded and the
  deletion is accepted, removing it reports success with the time the job was created, through
  the annotation, given that the printed time parses back.\<close>

theorem cleanup_job_roundtrip:
  assumes "NewCleanupJob (e_FormatTime env) t0 pv mode img tols nd ns path config = Inr jb"
    and "e_ParseTime env (e_FormatTime env t0) = Inr t0"
    and "e_jobs env (w_trace w) ns (generateCleaningJobName (pv_Name pv)) = Inr (jb\<lparr>job_Succeeded := n\<rparr>)"
    and "e_api env (w_trace w) (ReqDeleteJob (generateCleaningJobName (pv_Name pv)) ns) = None" and "0 \<le> n"
  shows "IsCleaningJobRunning env ns (pv_Name pv) w = (n = 0)
    \<and> (if n = 0 then snd (RemoveJob env ns (pv_Name pv) w) = w
         \<and> fst (fst (RemoveJob env ns (pv_Name pv) w)) = CSUnknown
       else fst (RemoveJob env ns (pv_Name pv) w) = (CSSucceeded, Some t0, None)
         \<and> w_trace (snd (RemoveJob env ns (pv_Name pv) w))
             = w_trace w @ [Call (ReqDeleteJob (generateCleaningJobName (pv_Name pv)) ns) None])"
proof -
  from assms(1) have jb: "om_Name (job_Meta jb) = generateCleaningJobName (pv_Name pv)"
    "label_get (om_Annotations (job_Meta jb)) StartTimeAnnotation = Some (e_FormatTime env t0)"
    by (auto simp: NewCleanupJob_def Let_def split: if_splits)
  then have t: "job_start_time env (jb\<lparr>job_Succeeded := n\<rparr>) = Some t0"
    using assms(2) by (simp add: job_start_time_def)
  show ?thesis
    using assms(3-5) jb t
    by (auto simp: IsCleaningJobRunning_def RemoveJob_def DeleteJob_def call_def Let_def)
qed

definition ex_env :: env where
  "ex_env = \<lparr>e_goos = ''linux'', e_api = (\<lambda>_ _. None), e_now = (\<lambda>tr. int (length tr)),
     e_VolUtil = (\<lambda>_. fake_VolumeUtil \<lparr>fv_directoryFiles = [(''/mnt/disks'',
       [\<lparr>fd_Name = ''vol1'', fd_VolumeType = FakeEntryFile, fd_Capacity = 107374182400\<rparr>])], fv_deleteShouldFail = False\<rparr>), e_jobs = (\<lambda>_ _ _. Inl ErrNotFound),
     e_classes = (\<lambda>_. indexer_lister [(''fast'', \<lparr>sc_ReclaimPolicy = None, sc_MountOptions = []\<rparr>)]),
     e_mounts = (\<lambda>_. Inr [''/mnt/disks/vol1'']), e_nodes = (\<lambda>_ _. Inl ErrNotFound),
     e_FormatTime = dec_int, e_ParseTime = (\<lambda>s. Inr (int (undec s))), e_MarshalAffinity = (\<lambda>_. Inr ''{}''),
     e_DeleteContents = (\<lambda>_ _ _. None),
     e_exec = (\<lambda>_ _ _ _. \<lparr>x_StdoutPipe = None, x_StderrPipe = None, x_Start = None, x_Stdout = [], x_Stderr = [], x_Ends = True,
       x_PipeSize = 65536, x_Wait = None\<rparr>), e_Environ = []\<rparr>"

theorem cleanup_job_watched_witness:
  "\<exists>jb. NewCleanupJob dec_int 7 (ex_pv ''p'') PersistentVolumeBlock ''img'' [] ''n1'' ''ns'' ''/mnt/disks/vol1'' ex_mount = Inr jb
     \<and> jc_selects (NewJobController [(NodeNameLabel, ''n1'')] ex_rc) (jb\<lparr>job_Succeeded := 1\<rparr>)"
proof -
  obtain jb where "NewCleanupJob dec_int 7 (ex_pv ''p'') PersistentVolumeBlock ''img'' [] ''n1'' ''ns'' ''/mnt/disks/vol1'' ex_mount = Inr jb"
    by (simp add: NewCleanupJob_def Let_def)
  with cleanup_job_watched[of dec_int 7 "ex_pv ''p''" PersistentVolumeBlock "''img''" "[]" ex_rc "''/mnt/disks/vol1''" ex_mount jb 1]
  show ?thesis by (simp add: ex_rc_def ex_user_def ex_node_def)
qed

definition ex_world :: world where
  "ex_world = \<lparr>w_Cache = NewVolumeCache, w_ProcTable = NewProcTable, w_trace = []\<rparr>"

definition ex_job :: job where
  "ex_job = (case NewCleanupJob dec_int 7 (ex_pv ''p'') PersistentVolumeBlock ''img'' [] ''n1'' ''ns''
      ''/mnt/disks/vol1'' ex_mount of Inr jb \<Rightarrow> jb)"

theorem cleanup_job_roundtrip_witness:
  "fst (RemoveJob (ex_env\<lparr>e_jobs := \<lambda>_ _ _. Inr (ex_job\<lparr>job_Succeeded := 1\<rparr>)\<rparr>) ''ns'' ''p'' ex_world)
     = (CSSucceeded, Some 7, None)"
proof -
  let ?env = "ex_env\<lparr>e_jobs := \<lambda>_ _ _. Inr (ex_job\<lparr>job_Succeeded := 1\<rparr>)\<rparr>"
  have "NewCleanupJob (e_FormatTime ?env) 7 (ex_pv ''p'') PersistentVolumeBlock ''img'' [] ''n1'' ''ns''
      ''/mnt/disks/vol1'' ex_mount = Inr ex_job"
    by (simp add: ex_job_def ex_env_def NewCleanupJob_def Let_def)
  moreover have "undec (dec_int 7) = 7" by (simp add: dec_int_def undec_dec_nat)
  moreover have "pv_Name (ex_pv ''p'') = ''p''" by (simp add: ex_pv_def)
  ultimately show ?thesis
    using cleanup_job_roundtrip[of ?env 7 "ex_pv ''p''" PersistentVolumeBlock "''img''" "[]" "''n1''"
        "''ns''" "''/mnt/disks/vol1''" ex_mount ex_job ex_world 1]
    by (simp add: ex_env_def)
qed

text \<open>A job is only ever removed after it succeeded: whatever the lister and the API server
  answer, \<open>RemoveJob\<close> sends at most a deletion of the job the lister returned for this volume, that
  job has a recorded success, and it reports success exactly if that deletion was accepted.\<close>

theorem remove_job_only_succeeded:
  assumes "RemoveJob env ns p w = ((st, t, e), w')" and "w_trace w' \<noteq> w_trace w"
  shows "\<exists>jb r. e_jobs env (w_trace w) ns (generateCleaningJobName p) = Inr jb \<and> job_Succeeded jb \<noteq> 0
    \<and> w_trace w' = w_trace w @ [Call (ReqDeleteJob (om_Name (job_Meta jb)) ns) r]
    \<and> (st = CSSucceeded \<longleftrightarrow> r = None) \<and> (e = None \<longleftrightarrow> r = None)"
  using assms
  by (auto simp: RemoveJob_def DeleteJob_def call_def Let_def split: sum.splits if_splits option.splits)

theorem remove_job_only_succeeded_witness:
  "\<exists>jb r. e_jobs (ex_env\<lparr>e_jobs := \<lambda>_ _ _. Inr (ex_job\<lparr>job_Succeeded := 1\<rparr>)\<rparr>) (w_trace ex_world) ''ns''
        (generateCleaningJobName ''p'') = Inr jb \<and> job_Succeeded jb \<noteq> 0
    \<and> w_trace (snd (RemoveJob (ex_env\<lparr>e_jobs := \<lambda>_ _ _. Inr (ex_job\<lparr>job_Succeeded := 1\<rparr>)\<rparr>) ''ns'' ''p'' ex_world))
        = w_trace ex_world @ [Call (ReqDeleteJob (om_Name (job_Meta jb)) ''ns'') r]
    \<and> (CSSucceeded = CSSucceeded \<longleftrightarrow> r = None) \<and> (None = (None :: error option) \<longleftrightarrow> r = None)"
  by (rule remove_job_only_succeeded[where st = CSSucceeded and t = "job_start_time ex_env ex_job"])
    (simp_all add: ex_env_def ex_world_def RemoveJob_def DeleteJob_def call_def Let_def job_start_time_def
      split: option.split)

text \<open>C27. A worker drains its queue: with no item being processed and no concurrent additions,
  one more iteration than there are queued keys empties the queue, whatever each key's
  processing returns, because a failed key waits for its back-off instead of being queued again;
  the worker then returns only if the queue was shut down.\<close>

theorem worker_drains_queue:
  assumes "wq_inv q" and "wq_processing q = {}" and "length (wq_queue q) < n"
  shows "\<exists>q'. runWorker jobs now bucket n q = (wq_shuttingDown q, q') \<and> wq_queue q' = [] \<and> wq_inv q'"
  using assms by (rule runWorker_drains_aux)

theorem worker_drains_queue_witness:
  "\<exists>q'. runWorker (\<lambda>_ _. Inl (ErrOther ''io'')) 5 0 3 (wq_Add ''ns/b'' (wq_Add ''ns/a'' wq_New))
      = (wq_shuttingDown (wq_Add ''ns/b'' (wq_Add ''ns/a'' wq_New)), q') \<and> wq_queue q' = [] \<and> wq_inv q'"
  by (rule worker_drains_queue) (simp_all add: wq_Add_def[of "''ns/b''"] wq_Add_def[of "''ns/a''"] wq_New_def wq_inv_def insert_commute)

end
