(* ===== verification/Metrics.thy ===== *)
theory Metrics
  imports Proc_Table Complex_Main "HOL-Library.Log_Nat"
begin

text \<open>
  \<open>pkg/metrics/metrics.go\<close> and \<open>pkg/metrics/collectors\<close>: the capacity label of the deletion
  latency, which is computed in \<open>float64\<close>, and the gauges of the process table. A finite
  \<open>float64\<close> is the rational number it denotes, and an operation rounds its exact result to 53
  significant bits, ties to even; the magnitudes here are far from overflow and underflow.
\<close>

section \<open>float64\<close>

definition round_even :: "rat \<Rightarrow> int" where
  "round_even x =
     (let f = \<lfloor>x\<rfloor>; r = x - of_int f in
      if r < 1 / 2 then f else if 1 / 2 < r then f + 1 else if even f then f else f + 1)"

definition binexp :: "rat \<Rightarrow> int" where
  "binexp x =
     (case quotient_of \<bar>x\<bar> of (a, b) \<Rightarrow>
        let e = bitlen a - bitlen b in
        if (2 :: rat) powi e \<le> \<bar>x\<bar> then e else e - 1)"

definition float64 :: "rat \<Rightarrow> rat" where
  "float64 x = (if x = 0 then 0
     else let u = (2 :: rat) powi (binexp x - 52) in of_int (round_even (x / u)) * u)"

section \<open>Capacity label\<close>

abbreviation GiB :: int where "GiB \<equiv> 1073741824"
abbreviation MiB :: int where "MiB \<equiv> 1048576"

definition CapacityBreakDown :: "int \<Rightarrow> string" where
  "CapacityBreakDown capacityBytes =
     (let n = \<lceil>float64 (float64 (of_int capacityBytes) / float64 (of_int (500 * GiB)))\<rceil>
      in dec_int (n * 500) @ ''G'')"

section \<open>The process table collector\<close>

datatype gauge = Gauge string int

definition Collect :: "ProcTableImpl \<Rightarrow> gauge list" where
  "Collect procTable =
     (let stats = Stats procTable
      in [Gauge ''proctable_running'' (Running stats), Gauge ''proctable_succeeded'' (Succeeded stats),
          Gauge ''proctable_failed'' (Failed stats)])"

definition Describe :: "string list" where
  "Describe = [''proctable_running'', ''proctable_succeeded'', ''proctable_failed'']"

lemma CapacityBreakDown_0: "CapacityBreakDown 0 = ''0G''"
  by code_simp

lemma CapacityBreakDown_1: "CapacityBreakDown 1 = ''500G''"
  by code_simp

lemma CapacityBreakDown_500: "CapacityBreakDown (500 * GiB) = ''500G''"
  by code_simp

lemma CapacityBreakDown_501: "CapacityBreakDown (500 * GiB + 1) = ''1000G''"
  by code_simp

end
