(* ===== verification/Deleter.thy ===== *)
theory Deleter
  imports Job_Controller Metrics
begin

text \<open>
  \<open>pkg/deleter/deleter.go\<close>: the deleter walks over the cached volumes, starts the cleanup of the
  released ones as a goroutine or as a job, and deletes a volume's object once its cleanup has
  succeeded. Every function that can dereference a nil pointer returns an option; \<open>None\<close> is the
  panic. The process table is the world's, shared with the cleanup goroutines.
\<close>

declare map_of_eq_Some_iff [simp del] Some_eq_map_of_iff [simp del]

section \<open>The cleanup status tracker\<close>

text \<open>The job controller, given by its namespace, is nil unless jobs are used for cleaning.\<close>

record CleanupStatusTracker =
  ct_JobController :: "string option"

definition InProgress :: "env \<Rightarrow> CleanupStatusTracker \<Rightarrow> string \<Rightarrow> bool \<Rightarrow> world \<Rightarrow> bool option" where
  "InProgress env c pvName isJob w =
     (if isJob then
        (case ct_JobController c of
           None \<Rightarrow> None
         | Some namespace \<Rightarrow> Some (IsCleaningJobRunning env namespace pvName w))
      else Some (IsRunning pvName (w_ProcTable w)))"

definition RemoveStatus :: "env \<Rightarrow> CleanupStatusTracker \<Rightarrow> string \<Rightarrow> bool \<Rightarrow> world \<Rightarrow> (removed \<times> world) option" where
  "RemoveStatus env c pvName isJob w =
     (if isJob then
        (case ct_JobController c of
           None \<Rightarrow> None
         | Some namespace \<Rightarrow> Some (RemoveJob env namespace pvName w))
      else let (r, t) = RemoveEntry pvName (w_ProcTable w) in Some (r, w\<lparr>w_ProcTable := t\<rparr>))"

section \<open>The deleter\<close>

record Deleter =
  dl_RuntimeConfig :: RuntimeConfig
  dl_CleanupStatus :: CleanupStatusTracker

abbreviation dl_User :: "Deleter \<Rightarrow> UserConfig" where
  "dl_User d \<equiv> rc_UserConfig (dl_RuntimeConfig d)"

definition NewDeleter :: "RuntimeConfig \<Rightarrow> CleanupStatusTracker \<Rightarrow> Deleter" where
  "NewDeleter config cleanupTracker = \<lparr>dl_RuntimeConfig = config, dl_CleanupStatus = cleanupTracker\<rparr>"

definition getVolMode :: "env \<Rightarrow> Deleter \<Rightarrow> persistent_volume \<Rightarrow> world \<Rightarrow> string result option" where
  "getVolMode env d pv w =
     (case gm_get (uc_DiscoveryMap (dl_User d)) (pvs_StorageClassName (pv_Spec pv)) of
        None \<Rightarrow> Some (Inl (Errorf ''Unknown storage class name %s'' [pvs_StorageClassName (pv_Spec pv)]))
      | Some config \<Rightarrow>
          (case GetContainerPath pv config of
             None \<Rightarrow> None
           | Some (Inl err) \<Rightarrow> Some (Inl err)
           | Some (Inr mountPath) \<Rightarrow> Some (GetVolumeMode (e_goos env) (VolUtil env w) mountPath)))"

definition shouldRunJob :: "Deleter \<Rightarrow> string \<Rightarrow> bool" where
  "shouldRunJob d mode \<longleftrightarrow> mode = PersistentVolumeBlock \<and> uc_UseJobForCleaning (dl_User d)"

definition runJob :: "env \<Rightarrow> Deleter \<Rightarrow> persistent_volume \<Rightarrow> string \<Rightarrow> string \<Rightarrow> MountConfig \<Rightarrow> world
    \<Rightarrow> error option \<times> world" where
  "runJob env d pv volMode mountPath config w =
     (if uc_JobContainerImage (dl_User d) = [] then
        (Some (Errorf ''cannot run cleanup job without specifying job image name in the environment variable'' []), w)
      else
        case NewCleanupJob (e_FormatTime env) (Now env w) pv volMode (uc_JobContainerImage (dl_User d))
               (uc_JobTolerations (dl_User d)) (node_Name (uc_Node (dl_User d))) (uc_Namespace (dl_User d))
               mountPath config of
          Inl err \<Rightarrow> (Some err, w)
        | Inr jb \<Rightarrow> CreateJob env jb w)"

definition runProcess :: "env \<Rightarrow> persistent_volume \<Rightarrow> string \<Rightarrow> string \<Rightarrow> MountConfig \<Rightarrow> world
    \<Rightarrow> error option \<times> world" where
  "runProcess env pv volMode mountPath config w =
     (case MarkRunning (Now env w) (pv_Name pv) (w_ProcTable w) of
        (Some err, t) \<Rightarrow> (Some err, w\<lparr>w_ProcTable := t\<rparr>)
      | (None, t) \<Rightarrow>
          (None, emit (Spawn \<lparr>cl_PV = pv, cl_VolMode = volMode, cl_MountPath = mountPath, cl_Config = config\<rparr>)
                   (w\<lparr>w_ProcTable := t\<rparr>)))"

text \<open>The branch of \<open>deletePV\<close> that found a completed cleanup.\<close>

definition delete_cleaned :: "env \<Rightarrow> persistent_volume \<Rightarrow> string \<Rightarrow> bool \<Rightarrow> MountConfig \<Rightarrow> time option
    \<Rightarrow> world \<Rightarrow> error option \<times> world" where
  "delete_cleaned env pv volMode runjob config startTime w =
     (case DeletePV_api env (pv_Name pv) w of (err, w) \<Rightarrow>
        case (case err of None \<Rightarrow> None | Some e \<Rightarrow> if \<not> IsNotFound e then Some e else None) of
          Some e \<Rightarrow>
            (Some (Wrapf ''Error deleting PV %q: %v'' [pv_Name pv] e),
             emit (Event (pv_Name pv) EventTypeWarning EventVolumeFailedDelete e) w)
        | None \<Rightarrow>
            let deleteType = (if runjob then DeleteTypeJob else DeleteTypeProcess);
                w = emit (Inc PersistentVolumeDeleteTotal [volMode, deleteType]) w
            in (None,
                case startTime of
                  None \<Rightarrow> w
                | Some t \<Rightarrow>
                    let capacityBytes = (case gm_get (pvs_Capacity (pv_Spec pv)) ResourceStorage of
                                           None \<Rightarrow> 0 | Some capacity \<Rightarrow> capacity);
                        capacityBreakDown = CapacityBreakDown capacityBytes;
                        cleanupCommand = (if length (cleaner_command config) > 0
                                          then hd (cleaner_command config) else [])
                    in emit (Observe PersistentVolumeDeleteDurationSeconds
                               [volMode, deleteType, capacityBreakDown, cleanupCommand] (Since env w t)) w))"

text \<open>The end of \<open>deletePV\<close>, reached when no cleanup was found or the last one failed.\<close>

definition start_cleanup :: "env \<Rightarrow> Deleter \<Rightarrow> persistent_volume \<Rightarrow> string \<Rightarrow> bool \<Rightarrow> string \<Rightarrow> MountConfig
    \<Rightarrow> world \<Rightarrow> error option \<times> world" where
  "start_cleanup env d pv volMode runjob mountPath config w =
     (if volMode = PersistentVolumeBlock \<and> length (cleaner_command config) < 1 then
        (Some (Errorf ''Blockcleaner command was empty for pv %q mountPath %s but mount dir is %s''
                 [pv_Name pv, mountPath, mc_MountDir config]), w)
      else if runjob then runJob env d pv volMode mountPath config w
      else runProcess env pv volMode mountPath config w)"

definition deletePV :: "env \<Rightarrow> Deleter \<Rightarrow> persistent_volume \<Rightarrow> world \<Rightarrow> (error option \<times> world) option" where
  "deletePV env d pv w =
     (if pvs_Local (pv_Spec pv) = None then Some (Some (Errorf ''Unsupported volume type'' []), w)
      else case gm_get (uc_DiscoveryMap (dl_User d)) (pvs_StorageClassName (pv_Spec pv)) of
        None \<Rightarrow> Some (Some (Errorf ''Unknown storage class name %s'' [pvs_StorageClassName (pv_Spec pv)]), w)
      | Some config \<Rightarrow>
          (case GetContainerPath pv config of
             None \<Rightarrow> None
           | Some (Inl err) \<Rightarrow> Some (Some err, w)
           | Some (Inr mountPath) \<Rightarrow>
               (case getVolMode env d pv w of
                  None \<Rightarrow> None
                | Some (Inl err) \<Rightarrow>
                    Some (Some (Wrapf ''failed to get volume mode of path %q: %v'' [mountPath] err), w)
                | Some (Inr volMode) \<Rightarrow>
                    let runjob = shouldRunJob d volMode in
                    case InProgress env (dl_CleanupStatus d) (pv_Name pv) runjob w of
                      None \<Rightarrow> None
                    | Some True \<Rightarrow> Some (None, w)
                    | Some False \<Rightarrow>
                        (case RemoveStatus env (dl_CleanupStatus d) (pv_Name pv) runjob w of
                           None \<Rightarrow> None
                         | Some ((state, startTime, Some err), w) \<Rightarrow> Some (Some err, w)
                         | Some ((state, startTime, None), w) \<Rightarrow>
                             (case state of
                                CSSucceeded \<Rightarrow> Some (delete_cleaned env pv volMode runjob config startTime w)
                              | CSFailed \<Rightarrow> Some (start_cleanup env d pv volMode runjob mountPath config w)
                              | CSNotFound \<Rightarrow> Some (start_cleanup env d pv volMode runjob mountPath config w)
                              | _ \<Rightarrow> Some (Some (Errorf ''Unexpected state %d for pv %s''
                                              [dec_int (cs_int state), pv_Name pv]), w))))))"

text \<open>The body of the loop of \<open>DeletePVs\<close> for one volume.\<close>

definition reclaim :: "env \<Rightarrow> Deleter \<Rightarrow> persistent_volume \<Rightarrow> world \<Rightarrow> world option" where
  "reclaim env d pv w =
     (if pv_Phase pv \<noteq> VolumeReleased then Some w
      else if \<not> IsZero (om_DeletionTimestamp (pv_Meta pv)) then Some w
      else let policy = pvs_ReclaimPolicy (pv_Spec pv) in
        if policy = PersistentVolumeReclaimRetain then Some w
        else if policy = PersistentVolumeReclaimRecycle then
          Some (emit (Event (pv_Name pv) EventTypeWarning ''VolumeUnsupportedReclaimPolicy''
                  (Errorf ''Volume has unsupported PersistentVolumeReclaimPolicy: Recycle'' [])) w)
        else if policy = PersistentVolumeReclaimDelete then
          (case deletePV env d pv w of
             None \<Rightarrow> None
           | Some (None, w) \<Rightarrow> Some w
           | Some (Some err, w) \<Rightarrow>
               (case getVolMode env d pv w of
                  None \<Rightarrow> None
                | Some r \<Rightarrow>
                    let mode = (case r of Inl modeErr \<Rightarrow> ''unknown'' | Inr m \<Rightarrow> m);
                        deleteType = (if shouldRunJob d mode then DeleteTypeJob else DeleteTypeProcess);
                        w = emit (Inc PersistentVolumeDeleteFailedTotal [mode, deleteType]) w
                    in Some (emit (Event (pv_Name pv) EventTypeWarning EventVolumeFailedDelete
                               (Wrapf ''Error cleaning PV %q: %v'' [pv_Name pv] err)) w)))
        else
          Some (emit (Event (pv_Name pv) EventTypeWarning ''VolumeUnknownReclaimPolicy''
                  (Errorf ''Volume has unrecognized PersistentVolumeReclaimPolicy'' [])) w))"

fun reclaim_all :: "env \<Rightarrow> Deleter \<Rightarrow> persistent_volume list \<Rightarrow> world \<Rightarrow> world option" where
  "reclaim_all env d [] w = Some w"
| "reclaim_all env d (pv # pvs) w =
     (case reclaim env d pv w of None \<Rightarrow> None | Some w \<Rightarrow> reclaim_all env d pvs w)"

definition DeletePVs :: "env \<Rightarrow> Deleter \<Rightarrow> world \<Rightarrow> world option" where
  "DeletePVs env d w = reclaim_all env d (ListPVs (w_Cache w)) w"

section \<open>The cleanup goroutine\<close>

text \<open>How a function ends that waits for a command: it returns, or it never does.\<close>

datatype cleanup_end = Returned "error option" | Hangs

text \<open>A goroutine that reads a pipe with \<open>bufio.Scanner\<close>, line by line: what it leaves unread. A line
  that does not fit into the scanner's largest buffer ends it, with that buffer full.\<close>

abbreviation MaxScanTokenSize :: nat where "MaxScanTokenSize \<equiv> 65536"

function scan_lines :: "string \<Rightarrow> string" where
  "scan_lines s =
     (let line = takeWhile (\<lambda>c. c \<noteq> CHR 0x0A) s in
      if length line \<ge> MaxScanTokenSize then drop MaxScanTokenSize s
      else if length line = length s then []
      else scan_lines (drop (Suc (length line)) s))"
  by pat_completeness auto
termination
  by (relation "measure length") (auto simp: le_neq_implies_less length_takeWhile_le intro: diff_less)

declare scan_lines.simps [simp del]

text \<open>\<open>wg.Wait\<close> waits until both pipes were read to their end or given up, \<open>cmd.Wait\<close> until the command has
  ended: both wait forever for a command that never ends, and for one that is blocked because it
  has written more than fits into a pipe whose reader has stopped.\<close>

definition execScript :: "env \<Rightarrow> string \<Rightarrow> string \<Rightarrow> string \<Rightarrow> string list \<Rightarrow> world \<Rightarrow> cleanup_end \<times> world" where
  "execScript env pvName blkdevPath exe exeArgs w =
     (let cmdEnv = e_Environ env @ [LocalPVEnv @ ''='' @ blkdevPath];
          x = e_exec env (w_trace w) exe exeArgs cmdEnv in
      case x_StdoutPipe x of Some err \<Rightarrow> (Returned (Some err), w)
      | None \<Rightarrow> (case x_StderrPipe x of Some err \<Rightarrow> (Returned (Some err), w)
      | None \<Rightarrow> (case x_Start x of Some err \<Rightarrow> (Returned (Some err), w)
      | None \<Rightarrow>
          let w = emit (Exec exe exeArgs cmdEnv) w;
              outUnread = scan_lines (x_Stdout x);
              errUnread = scan_lines (x_Stderr x) in
          if \<not> x_Ends x \<or> int (length outUnread) > x_PipeSize x \<or> int (length errUnread) > x_PipeSize x then (Hangs, w)
          else (case x_Wait x of Some err \<Rightarrow> (Returned (Some err), w) | None \<Rightarrow> (Returned None, w)))))"

definition cleanFilePV :: "env \<Rightarrow> persistent_volume \<Rightarrow> string \<Rightarrow> MountConfig \<Rightarrow> world
    \<Rightarrow> (cleanup_end \<times> world) option" where
  "cleanFilePV env pv mountPath config w =
     (case pvs_Local (pv_Spec pv) of
        None \<Rightarrow> None
      | Some lvs \<Rightarrow>
          Some (Returned (e_DeleteContents env (w_trace w) (lvs_Path lvs) mountPath),
                emit (RemoveContents (lvs_Path lvs) mountPath) w))"

definition cleanBlockPV :: "env \<Rightarrow> persistent_volume \<Rightarrow> string \<Rightarrow> MountConfig \<Rightarrow> world
    \<Rightarrow> (cleanup_end \<times> world) option" where
  "cleanBlockPV env pv blkdevPath config w =
     (let w = emit (Event (pv_Name pv) EventTypeNormal VolumeDelete
                (Errorf ''Starting cleanup of Block PV %q, this may take a while'' [pv_Name pv])) w in
      if pvs_Local (pv_Spec pv) = None then None
      else case cleaner_command config of
        [] \<Rightarrow> None
      | exe # exeArgs \<Rightarrow> Some (execScript env (pv_Name pv) blkdevPath exe exeArgs w))"

definition cleanPV :: "env \<Rightarrow> persistent_volume \<Rightarrow> string \<Rightarrow> string \<Rightarrow> MountConfig \<Rightarrow> world
    \<Rightarrow> (cleanup_end \<times> world) option" where
  "cleanPV env pv volMode mountPath config w =
     (if \<not> prefix (mc_MountDir config) mountPath then
        Some (Returned (Some (Errorf ''Unexpected error pv %q mountPath %s but mount dir is %s''
                      [pv_Name pv, mountPath, mc_MountDir config])), w)
      else if volMode = PersistentVolumeFilesystem then cleanFilePV env pv mountPath config w
      else if volMode = PersistentVolumeBlock then cleanBlockPV env pv mountPath config w
      else case pvs_Local (pv_Spec pv) of
        None \<Rightarrow> None
      | Some lvs \<Rightarrow>
          Some (Returned (Some (Errorf ''Unexpected volume mode %q for deleting path %q'' [volMode, lvs_Path lvs])), w))"

text \<open>The result says whether the goroutine has come to its end.\<close>

definition asyncCleanPV :: "env \<Rightarrow> cleanup \<Rightarrow> world \<Rightarrow> (bool \<times> world) option" where
  "asyncCleanPV env cl w =
     (let name = pv_Name (cl_PV cl) in
      case cleanPV env (cl_PV cl) (cl_VolMode cl) (cl_MountPath cl) (cl_Config cl) w of
        None \<Rightarrow> None
      | Some (Hangs, w) \<Rightarrow> Some (False, w)
      | Some (Returned (Some err), w) \<Rightarrow>
          Some (True, emit (Finished name False) (w\<lparr>w_ProcTable := snd (MarkFailed name (w_ProcTable w))\<rparr>))
      | Some (Returned None, w) \<Rightarrow>
          Some (True, emit (Finished name True) (w\<lparr>w_ProcTable := snd (MarkSucceeded name (w_ProcTable w))\<rparr>)))"

section \<open>The branches of deletePV\<close>

text \<open>The volume's class is configured, its path is below the class's host directory and its
  mode could be determined.\<close>

definition resolves :: "env \<Rightarrow> Deleter \<Rightarrow> persistent_volume \<Rightarrow> world \<Rightarrow> MountConfig \<Rightarrow> string \<Rightarrow> string \<Rightarrow> bool" where
  "resolves env d pv w config mountPath volMode \<longleftrightarrow>
     gm_get (uc_DiscoveryMap (dl_User d)) (pvs_StorageClassName (pv_Spec pv)) = Some config
     \<and> GetContainerPath pv config = Some (Inr mountPath)
     \<and> GetVolumeMode (e_goos env) (VolUtil env w) mountPath = Inr volMode"

lemma resolves_local: "resolves env d pv w config path mode \<Longrightarrow> pvs_Local (pv_Spec pv) \<noteq> None"
  by (auto simp: resolves_def GetContainerPath_def split: option.splits)

lemma resolves_getVolMode: "resolves env d pv w config path mode \<Longrightarrow> getVolMode env d pv w = Some (Inr mode)"
  by (simp add: resolves_def getVolMode_def)

lemma resolves_mode:
  "resolves env d pv w config path mode \<Longrightarrow> mode = PersistentVolumeFilesystem \<or> mode = PersistentVolumeBlock"
  by (auto simp: resolves_def dest: GetVolumeMode_cases)

lemma deletePV_resolved:
  assumes "resolves env d pv w config path mode"
  shows "deletePV env d pv w =
      (let j = shouldRunJob d mode in
       case InProgress env (dl_CleanupStatus d) (pv_Name pv) j w of
         None \<Rightarrow> None
       | Some True \<Rightarrow> Some (None, w)
       | Some False \<Rightarrow>
           (case RemoveStatus env (dl_CleanupStatus d) (pv_Name pv) j w of
              None \<Rightarrow> None
            | Some ((state, startTime, Some err), w) \<Rightarrow> Some (Some err, w)
            | Some ((state, startTime, None), w) \<Rightarrow>
                (case state of
                   CSSucceeded \<Rightarrow> Some (delete_cleaned env pv mode j config startTime w)
                 | CSFailed \<Rightarrow> Some (start_cleanup env d pv mode j path config w)
                 | CSNotFound \<Rightarrow> Some (start_cleanup env d pv mode j path config w)
                 | _ \<Rightarrow> Some (Some (Errorf ''Unexpected state %d for pv %s''
                                 [dec_int (cs_int state), pv_Name pv]), w))))"
  using assms resolves_local[OF assms] resolves_getVolMode[OF assms]
  unfolding deletePV_def resolves_def by (auto simp: Let_def)

lemma deletePV_unresolved:
  assumes "\<nexists>config path mode. resolves env d pv w config path mode" "deletePV env d pv w = Some (r, w')"
  shows "(\<exists>e. r = Some e) \<and> w' = w"
  using assms
  by (auto simp: deletePV_def getVolMode_def Let_def resolves_def split: if_splits option.splits sum.splits)

lemma deletePV_cases:
  assumes "deletePV env d pv w = Some (r, w')"
  obtains (early) e where "r = Some e" "w' = w"
  | (busy) config path mode where "resolves env d pv w config path mode"
      "InProgress env (dl_CleanupStatus d) (pv_Name pv) (shouldRunJob d mode) w = Some True" "r = None" "w' = w"
  | (no_status) config path mode st t e where "resolves env d pv w config path mode"
      "RemoveStatus env (dl_CleanupStatus d) (pv_Name pv) (shouldRunJob d mode) w = Some ((st, t, Some e), w')"
      "r = Some e"
  | (cleaned) config path mode t w1 where "resolves env d pv w config path mode"
      "InProgress env (dl_CleanupStatus d) (pv_Name pv) (shouldRunJob d mode) w = Some False"
      "RemoveStatus env (dl_CleanupStatus d) (pv_Name pv) (shouldRunJob d mode) w = Some ((CSSucceeded, t, None), w1)"
      "delete_cleaned env pv mode (shouldRunJob d mode) config t w1 = (r, w')"
  | (start) config path mode st t w1 where "resolves env d pv w config path mode"
      "InProgress env (dl_CleanupStatus d) (pv_Name pv) (shouldRunJob d mode) w = Some False"
      "RemoveStatus env (dl_CleanupStatus d) (pv_Name pv) (shouldRunJob d mode) w = Some ((st, t, None), w1)"
      "st \<in> {CSFailed, CSNotFound}"
      "start_cleanup env d pv mode (shouldRunJob d mode) path config w1 = (r, w')"
  | (odd) config path mode st t e where "resolves env d pv w config path mode"
      "RemoveStatus env (dl_CleanupStatus d) (pv_Name pv) (shouldRunJob d mode) w = Some ((st, t, None), w')"
      "st \<in> {CSUnknown, CSRunning}" "r = Some e"
proof (cases "\<exists>config path mode. resolves env d pv w config path mode")
  case False
  from deletePV_unresolved[OF this assms] show ?thesis using early by blast
next
  case True
  then obtain config path mode where res: "resolves env d pv w config path mode" by blast
  note eq = assms[unfolded deletePV_resolved[OF res] Let_def]
  show ?thesis
  proof (cases "InProgress env (dl_CleanupStatus d) (pv_Name pv) (shouldRunJob d mode) w")
    case None
    with eq show ?thesis by simp
  next
    case (Some b)
    show ?thesis
    proof (cases b)
      case True
      with eq Some res show ?thesis by (intro busy) auto
    next
      case False
      with eq Some obtain st t e w1 where
        rs: "RemoveStatus env (dl_CleanupStatus d) (pv_Name pv) (shouldRunJob d mode) w = Some ((st, t, e), w1)"
        by (auto split: option.splits)
      with eq Some False res show ?thesis
        by (cases e; cases st) (auto intro: no_status cleaned start odd)
    qed
  qed
qed

lemma RemoveStatus_None: "RemoveStatus env c p j w = None \<longleftrightarrow> InProgress env c p j w = None"
  by (auto simp: InProgress_def RemoveStatus_def case_prod_beta Let_def split: if_splits option.splits)

lemma resolves_deletePV_total:
  assumes "resolves env d pv w config path mode"
    and "InProgress env (dl_CleanupStatus d) (pv_Name pv) (shouldRunJob d mode) w \<noteq> None"
  shows "deletePV env d pv w \<noteq> None"
proof
  assume "deletePV env d pv w = None"
  with assms(2) have "RemoveStatus env (dl_CleanupStatus d) (pv_Name pv) (shouldRunJob d mode) w = None"
    by (auto simp: deletePV_resolved[OF assms(1)] Let_def split: option.splits bool.splits CleanupState.splits)
  with assms(2) show False by (simp add: RemoveStatus_None)
qed

section \<open>Effects of one deletePV\<close>

text \<open>The lister returns a job under its own name.\<close>

definition jobs_named :: "env \<Rightarrow> bool" where
  "jobs_named env \<longleftrightarrow> (\<forall>tr ns n jb. e_jobs env tr ns n = Inr jb \<longrightarrow> om_Name (job_Meta jb) = n)"

text \<open>The effects the deleter may have for the volume named \<open>n\<close>.\<close>

fun about :: "string \<Rightarrow> effect \<Rightarrow> bool" where
  "about n (Call (ReqDeletePV m) _) = (m = n)"
| "about n (Call (ReqCreateJob j) _) = (om_Name (job_Meta j) = generateCleaningJobName n)"
| "about n (Call (ReqDeleteJob m _) _) = (m = generateCleaningJobName n)"
| "about n (Call _ _) = False"
| "about n (Spawn cl) = (pv_Name (cl_PV cl) = n)"
| "about n (Event m _ _ _) = (m = n)"
| "about n e = quiet e"

text \<open>Effects other than the deletion of a volume's object.\<close>

fun no_delete :: "effect \<Rightarrow> bool" where
  "no_delete (Call (ReqDeletePV _) _) = False"
| "no_delete _ = True"

lemma metric_about: "metric e \<Longrightarrow> about n e"
  by (cases e) auto

lemma RemoveStatus_process:
  assumes "RemoveStatus env c p False w = Some ((st, t, e), w')"
  shows "RemoveEntry p (w_ProcTable w) = ((st, t, e), w_ProcTable w')" "w_Cache w' = w_Cache w"
    "w_trace w' = w_trace w"
  using assms by (auto simp: RemoveStatus_def split: prod.splits)

lemma RemoveStatus_job:
  assumes "RemoveStatus env c p True w = Some ((st, t, e), w')"
  obtains ns where "ct_JobController c = Some ns" "RemoveJob env ns p w = ((st, t, e), w')"
  using assms by (auto simp: RemoveStatus_def split: option.splits)

lemma RemoveStatus_effects:
  assumes "RemoveStatus env c p j w = Some ((st, t, e), w')" "jobs_named env" "pt_inv (w_ProcTable w)"
  shows "ext (about p) w w'" "w_Cache w' = w_Cache w" "pt_inv (w_ProcTable w')"
proof -
  have "ext (about p) w w' \<and> w_Cache w' = w_Cache w \<and> pt_inv (w_ProcTable w')"
  proof (cases j)
    case True
    with assms(1) obtain ns where r: "RemoveJob env ns p w = ((st, t, e), w')"
      by (auto elim: RemoveStatus_job)
    have "ext (about p) w w'"
      by (rule ext_mono[OF RemoveJob_effects(3)[OF r]]) (use assms(2) in \<open>auto simp: jobs_named_def\<close>)
    with RemoveJob_effects(1,2)[OF r] assms(3) show ?thesis by simp
  next
    case False
    with assms(1) have r: "RemoveStatus env c p False w = Some ((st, t, e), w')" by simp
    from pt.remove_entry[OF RemoveStatus_process(1)[OF r] assms(3)] RemoveStatus_process(2,3)[OF r]
    show ?thesis by (simp add: ext_def)
  qed
  then show "ext (about p) w w'" "w_Cache w' = w_Cache w" "pt_inv (w_ProcTable w')" by auto
qed

lemma delete_cleaned_effects:
  assumes "delete_cleaned env pv mode j config t w = (r, w')"
  shows "ext (about (pv_Name pv)) w w'" "w_Cache w' = w_Cache w" "w_ProcTable w' = w_ProcTable w"
    "\<exists>es x. w_trace w' = w_trace w @ es \<and> Call (ReqDeletePV (pv_Name pv)) x \<in> set es \<and> (r = None \<longleftrightarrow> x = None \<or> x = Some ErrNotFound)"
proof -
  obtain x w1 where d: "DeletePV_api env (pv_Name pv) w = (x, w1)" by fastforce
  from DeletePV_api_spec(5)[OF this] obtain ys where ys: "w_trace w1 = w_trace w @ ys" "Call (ReqDeletePV (pv_Name pv)) x \<in> set ys"
    by fastforce
  note spec = DeletePV_api_spec(1-4)[OF d]
  have "ext (about (pv_Name pv)) w w1"
    by (rule ext_mono[OF spec(3)]) (auto simp: metric_about)
  with assms d spec show "ext (about (pv_Name pv)) w w'" "w_Cache w' = w_Cache w" "w_ProcTable w' = w_ProcTable w"
    by (auto simp: delete_cleaned_def Let_def split: option.splits if_splits)
  from assms d ys show "\<exists>es x. w_trace w' = w_trace w @ es \<and> Call (ReqDeletePV (pv_Name pv)) x \<in> set es
      \<and> (r = None \<longleftrightarrow> x = None \<or> x = Some ErrNotFound)"
    by (intro exI[of _ "drop (length (w_trace w)) (w_trace w')"] exI[of _ x])
      (auto simp: delete_cleaned_def Let_def split: option.splits if_splits)
qed

lemma runProcess_effects:
  assumes "runProcess env pv mode path config w = (r, w')" "pt_inv (w_ProcTable w)"
  shows "ext (about (pv_Name pv)) w w'" "w_Cache w' = w_Cache w" "pt_inv (w_ProcTable w')"
    "r = None \<longleftrightarrow> pt_view (w_ProcTable w) (pv_Name pv) = None"
    "pt_view (w_ProcTable w') = (if r = None then (pt_view (w_ProcTable w))(pv_Name pv := Some CSRunning)
       else pt_view (w_ProcTable w))"
    "w_trace w' = w_trace w @ (if r = None then
       [Spawn \<lparr>cl_PV = pv, cl_VolMode = mode, cl_MountPath = path, cl_Config = config\<rparr>] else [])"
proof -
  obtain e t where m: "MarkRunning (Now env w) (pv_Name pv) (w_ProcTable w) = (e, t)" by fastforce
  note mr = pt.mark_running[OF m assms(2)]
  have r: "r = e" "w' = (if e = None then emit (Spawn \<lparr>cl_PV = pv, cl_VolMode = mode, cl_MountPath = path,
      cl_Config = config\<rparr>) (w\<lparr>w_ProcTable := t\<rparr>) else w\<lparr>w_ProcTable := t\<rparr>)"
    using assms(1) m by (auto simp: runProcess_def split: option.splits)
  then show "ext (about (pv_Name pv)) w w'" "w_Cache w' = w_Cache w" "pt_inv (w_ProcTable w')"
    "r = None \<longleftrightarrow> pt_view (w_ProcTable w) (pv_Name pv) = None"
    "pt_view (w_ProcTable w') = (if r = None then (pt_view (w_ProcTable w))(pv_Name pv := Some CSRunning)
       else pt_view (w_ProcTable w))"
    "w_trace w' = w_trace w @ (if r = None then
       [Spawn \<lparr>cl_PV = pv, cl_VolMode = mode, cl_MountPath = path, cl_Config = config\<rparr>] else [])"
    using mr by (auto simp: ext_def)
qed

lemma runJob_effects:
  assumes "runJob env d pv mode path config w = (r, w')"
  shows "ext (about (pv_Name pv)) w w'" "w_Cache w' = w_Cache w" "w_ProcTable w' = w_ProcTable w"
    "ext no_delete w w'"
proof -
  have name: "om_Name (job_Meta jb) = generateCleaningJobName (pv_Name pv)"
    if "NewCleanupJob f t pv mode i tl nd ns path config = Inr jb" for f t i tl nd ns jb
    using that by (auto simp: NewCleanupJob_def Let_def split: if_splits)
  show "ext (about (pv_Name pv)) w w'" "w_Cache w' = w_Cache w" "w_ProcTable w' = w_ProcTable w"
    "ext no_delete w w'"
    using assms
    by (auto simp: runJob_def CreateJob_def call_def Let_def ext_def name split: if_splits sum.splits)
qed

lemma start_cleanup_effects:
  assumes "start_cleanup env d pv mode j path config w = (r, w')" "pt_inv (w_ProcTable w)"
  shows "ext (about (pv_Name pv)) w w'" "w_Cache w' = w_Cache w" "pt_inv (w_ProcTable w')"
    "ext no_delete w w'"
  using assms runProcess_effects[of env pv mode path config w r w']
    runJob_effects[of env d pv mode path config w r w']
  by (auto simp: start_cleanup_def ext_def[of no_delete] split: if_splits)

lemma deletePV_effects:
  assumes "deletePV env d pv w = Some (r, w')" "jobs_named env" "pt_inv (w_ProcTable w)"
  shows "ext (about (pv_Name pv)) w w'" "w_Cache w' = w_Cache w" "pt_inv (w_ProcTable w')"
proof -
  have "ext (about (pv_Name pv)) w w' \<and> w_Cache w' = w_Cache w \<and> pt_inv (w_ProcTable w')"
    using assms(1)
  proof (cases rule: deletePV_cases)
    case (cleaned config path mode t w1)
    with RemoveStatus_effects[OF cleaned(3) assms(2,3)] delete_cleaned_effects(1-3)[OF cleaned(4)]
    show ?thesis by (auto intro: ext_trans)
  next
    case (start config path mode st t w1)
    with RemoveStatus_effects[OF start(3) assms(2,3)] start_cleanup_effects(1-3)[OF start(5)]
    show ?thesis by (auto intro: ext_trans)
  next
    case (no_status config path mode st t e)
    with RemoveStatus_effects[OF no_status(2) assms(2,3)] show ?thesis by auto
  next
    case (odd config path mode st t e)
    with RemoveStatus_effects[OF odd(2) assms(2,3)] show ?thesis by auto
  qed (use assms in auto)
  then show "ext (about (pv_Name pv)) w w'" "w_Cache w' = w_Cache w" "pt_inv (w_ProcTable w')" by auto
qed

text \<open>The only branch that deletes a volume's object is the one after a successful cleanup.\<close>

lemma RemoveStatus_no_delete:
  assumes "RemoveStatus env c p j w = Some ((st, t, e), w')"
  shows "ext no_delete w w'"
proof (cases j)
  case True
  with assms obtain ns where "RemoveJob env ns p w = ((st, t, e), w')" by (auto elim: RemoveStatus_job)
  from RemoveJob_effects(3)[OF this] show ?thesis by (rule ext_mono) auto
next
  case False
  with assms RemoveStatus_process(3)[of env c p w st t e w'] show ?thesis by (simp add: ext_def)
qed

lemma deletePV_deletes:
  assumes "deletePV env d pv w = Some (r, w')" "pt_inv (w_ProcTable w)" "\<not> ext no_delete w w'"
  shows "\<exists>config path mode. resolves env d pv w config path mode \<and>
    (if shouldRunJob d mode
     then \<exists>ns. ct_JobController (dl_CleanupStatus d) = Some ns
       \<and> job_lister_view env ns w (pv_Name pv) = Succeeded_job
     else pt_view (w_ProcTable w) (pv_Name pv) = Some CSSucceeded
       \<and> pt_view (w_ProcTable w') (pv_Name pv) = None)"
  using assms(1)
proof (cases rule: deletePV_cases)
  case (cleaned config path mode t w1)
  show ?thesis
  proof (cases "shouldRunJob d mode")
    case True
    with cleaned(3) obtain ns where ns: "ct_JobController (dl_CleanupStatus d) = Some ns"
        "RemoveJob env ns (pv_Name pv) w = ((CSSucceeded, t, None), w1)"
      by (auto elim: RemoveStatus_job)
    from rjc.removed[of env ns "pv_Name pv" w] ns(2)
    have "job_lister_view env ns w (pv_Name pv) = Succeeded_job" by simp
    with True ns cleaned(1) show ?thesis by auto
  next
    case False
    with cleaned(3) have rs: "RemoveStatus env (dl_CleanupStatus d) (pv_Name pv) False w = Some ((CSSucceeded, t, None), w1)"
      by simp
    from pt.remove_entry[OF RemoveStatus_process(1)[OF rs] assms(2)] delete_cleaned_effects(3)[OF cleaned(4)]
    have "pt_view (w_ProcTable w) (pv_Name pv) = Some CSSucceeded" "pt_view (w_ProcTable w') (pv_Name pv) = None"
      by simp_all
    with False cleaned(1) show ?thesis
      by (intro exI[of _ config] exI[of _ path] exI[of _ mode]) simp
  qed
next
  case (start config path mode st t w1)
  have "pt_inv (w_ProcTable w1)"
    using start(3) assms(2) RemoveJob_effects(2) pt.remove_entry
    by (cases "shouldRunJob d mode")
      (fastforce elim!: RemoveStatus_job dest: RemoveStatus_process(1) simp: RemoveStatus_process)+
  with RemoveStatus_no_delete[OF start(3)] start_cleanup_effects(4)[OF start(5)] assms(3)
  show ?thesis by (auto dest: ext_trans)
next
  case (no_status config path mode st t e)
  with RemoveStatus_no_delete[OF no_status(2)] assms(3) show ?thesis by simp
next
  case (odd config path mode st t e)
  with RemoveStatus_no_delete[OF odd(2)] assms(3) show ?thesis by simp
qed (use assms(3) in auto)

section \<open>A whole pass\<close>

text \<open>The volumes a pass may clean.\<close>

definition eligible :: "persistent_volume \<Rightarrow> bool" where
  "eligible pv \<longleftrightarrow> pv_Phase pv = VolumeReleased \<and> IsZero (om_DeletionTimestamp (pv_Meta pv))
     \<and> pvs_ReclaimPolicy (pv_Spec pv) = PersistentVolumeReclaimDelete"

lemma reclaim_not_eligible:
  "\<not> eligible pv \<Longrightarrow> \<exists>w'. reclaim env d pv w = Some w' \<and> ext quiet w w' \<and> w_Cache w' = w_Cache w
     \<and> w_ProcTable w' = w_ProcTable w"
  by (auto simp: reclaim_def eligible_def Let_def)

lemma reclaim_eligible:
  assumes "eligible pv" "reclaim env d pv w = Some w'"
  obtains r w1 where "deletePV env d pv w = Some (r, w1)" "w_Cache w' = w_Cache w1"
    "w_ProcTable w' = w_ProcTable w1" "ext (\<lambda>e. quiet e \<and> about (pv_Name pv) e) w1 w'"
  using assms by (auto simp: reclaim_def eligible_def Let_def split: option.splits)

lemma reclaim_effects:
  assumes "reclaim env d pv w = Some w'" "jobs_named env" "pt_inv (w_ProcTable w)"
  shows "ext (\<lambda>e. quiet e \<or> eligible pv \<and> about (pv_Name pv) e) w w'" "w_Cache w' = w_Cache w"
    "pt_inv (w_ProcTable w')"
proof -
  have "ext (\<lambda>e. quiet e \<or> eligible pv \<and> about (pv_Name pv) e) w w' \<and> w_Cache w' = w_Cache w
    \<and> pt_inv (w_ProcTable w')"
  proof (cases "eligible pv")
    case False
    from reclaim_not_eligible[OF this, of env d w] assms show ?thesis by (auto elim: ext_mono)
  next
    case True
    then obtain r w1 where r: "deletePV env d pv w = Some (r, w1)" "w_Cache w' = w_Cache w1"
        "w_ProcTable w' = w_ProcTable w1" "ext (\<lambda>e. quiet e \<and> about (pv_Name pv) e) w1 w'"
      using assms(1) by (rule reclaim_eligible)
    have "ext (about (pv_Name pv)) w w'"
      by (rule ext_trans[OF deletePV_effects(1)[OF r(1) assms(2,3)] ext_mono[OF r(4)]]) simp
    then show ?thesis
      using True r deletePV_effects(2,3)[OF r(1) assms(2,3)] by (auto elim: ext_mono)
  qed
  then show "ext (\<lambda>e. quiet e \<or> eligible pv \<and> about (pv_Name pv) e) w w'" "w_Cache w' = w_Cache w"
    "pt_inv (w_ProcTable w')" by auto
qed

lemma reclaim_all_effects:
  assumes "reclaim_all env d pvs w = Some w'" "jobs_named env" "pt_inv (w_ProcTable w)"
  shows "ext (\<lambda>e. quiet e \<or> (\<exists>pv\<in>set pvs. eligible pv \<and> about (pv_Name pv) e)) w w'
    \<and> w_Cache w' = w_Cache w \<and> pt_inv (w_ProcTable w')"
  using assms
proof (induction pvs arbitrary: w)
  case (Cons pv pvs)
  then obtain w1 where w1: "reclaim env d pv w = Some w1" "reclaim_all env d pvs w1 = Some w'"
    by (auto split: option.splits)
  note r = reclaim_effects[OF w1(1) Cons.prems(2,3)]
  from Cons.IH[OF w1(2) Cons.prems(2) r(3)] r show ?case
    by (auto intro!: ext_trans[of _ w w1] elim!: ext_mono)
qed auto

text \<open>Cleaning one volume leaves the process status of every other volume alone.\<close>

lemma RemoveStatus_view_other:
  assumes "RemoveStatus env c p j w = Some ((st, t, e), w')" "pt_inv (w_ProcTable w)" "m \<noteq> p"
  shows "pt_view (w_ProcTable w') m = pt_view (w_ProcTable w) m" "pt_inv (w_ProcTable w')"
proof -
  have "pt_view (w_ProcTable w') m = pt_view (w_ProcTable w) m \<and> pt_inv (w_ProcTable w')"
  proof (cases j)
    case True
    with assms(1) obtain ns where "RemoveJob env ns p w = ((st, t, e), w')" by (auto elim: RemoveStatus_job)
    from RemoveJob_effects(2)[OF this] assms(2) show ?thesis by simp
  next
    case False
    with assms(1) have "RemoveStatus env c p False w = Some ((st, t, e), w')" by simp
    from pt.remove_entry[OF RemoveStatus_process(1)[OF this] assms(2)] assms(3) show ?thesis by simp
  qed
  then show "pt_view (w_ProcTable w') m = pt_view (w_ProcTable w) m" "pt_inv (w_ProcTable w')" by auto
qed

lemma start_cleanup_view_other:
  assumes "start_cleanup env d pv mode j path config w = (r, w')" "pt_inv (w_ProcTable w)" "m \<noteq> pv_Name pv"
  shows "pt_view (w_ProcTable w') m = pt_view (w_ProcTable w) m"
  using assms runProcess_effects(5)[of env pv mode path config w r w']
    runJob_effects(3)[of env d pv mode path config w r w']
  by (auto simp: start_cleanup_def split: if_splits)

lemma deletePV_view_other:
  assumes "deletePV env d pv w = Some (r, w')" "pt_inv (w_ProcTable w)" "m \<noteq> pv_Name pv"
  shows "pt_view (w_ProcTable w') m = pt_view (w_ProcTable w) m"
  using assms(1)
proof (cases rule: deletePV_cases)
  case (cleaned config path mode t w1)
  with RemoveStatus_view_other[OF cleaned(3) assms(2,3)] delete_cleaned_effects(3)[OF cleaned(4)]
  show ?thesis by simp
next
  case (start config path mode st t w1)
  with RemoveStatus_view_other[OF start(3) assms(2,3)] start_cleanup_view_other[OF start(5) _ assms(3)]
  show ?thesis by simp
next
  case (no_status config path mode st t e)
  with RemoveStatus_view_other[OF no_status(2) assms(2,3)] show ?thesis by simp
next
  case (odd config path mode st t e)
  with RemoveStatus_view_other[OF odd(2) assms(2,3)] show ?thesis by simp
qed auto

lemma reclaim_view_other:
  assumes "reclaim env d pv w = Some w'" "pt_inv (w_ProcTable w)" "m \<noteq> pv_Name pv"
  shows "pt_view (w_ProcTable w') m = pt_view (w_ProcTable w) m"
proof (cases "eligible pv")
  case True
  from reclaim_eligible[OF this assms(1)] obtain r w1 where
    "deletePV env d pv w = Some (r, w1)" "w_ProcTable w' = w_ProcTable w1" by metis
  with deletePV_view_other[OF _ assms(2,3)] show ?thesis by simp
qed (use reclaim_not_eligible[of pv env d w] assms in auto)

text \<open>The evidence for deleting the object of volume \<open>n\<close>: its cleanup process succeeded, or the
  lister showed, at some point of the log, its cleaning job as succeeded.\<close>

definition cleaned_evidence :: "env \<Rightarrow> Deleter \<Rightarrow> world \<Rightarrow> string \<Rightarrow> bool" where
  "cleaned_evidence env d w n \<longleftrightarrow> pt_view (w_ProcTable w) n = Some CSSucceeded
     \<or> uc_UseJobForCleaning (dl_User d) \<and> (\<exists>ns w1. ct_JobController (dl_CleanupStatus d) = Some ns
         \<and> prefix (w_trace w) (w_trace w1) \<and> job_lister_view env ns w1 n = Succeeded_job)"

lemma ext_prefix: "ext P w w' \<Longrightarrow> prefix (w_trace w) (w_trace w')"
  by (auto simp: ext_def)

lemma cleaned_evidence_back:
  assumes "cleaned_evidence env d w1 n" "prefix (w_trace w) (w_trace w1)"
    "pt_view (w_ProcTable w1) n = pt_view (w_ProcTable w) n"
  shows "cleaned_evidence env d w n"
  using assms unfolding cleaned_evidence_def by (metis prefix_order.trans)

lemma reclaim_deletes:
  assumes "reclaim env d pv w = Some w'" "jobs_named env" "pt_inv (w_ProcTable w)"
  shows "ext (\<lambda>e. \<forall>n x. e = Call (ReqDeletePV n) x \<longrightarrow>
    eligible pv \<and> pv_Name pv = n \<and> cleaned_evidence env d w n) w w'"
proof (cases "eligible pv")
  case False
  from reclaim_not_eligible[OF this, of env d w] assms(1) show ?thesis by (auto elim: ext_mono)
next
  case True
  from reclaim_eligible[OF this assms(1)] obtain r w1 where r: "deletePV env d pv w = Some (r, w1)"
    "ext (\<lambda>e. quiet e \<and> about (pv_Name pv) e) w1 w'" by metis
  show ?thesis
  proof (cases "ext no_delete w w1")
    case True
    have "ext no_delete w w'"
      by (rule ext_trans[OF True ext_mono[OF r(2)]]) (metis no_delete.elims(3) quiet.simps(1))
    then show ?thesis by (rule ext_mono) auto
  next
    case False
    from deletePV_deletes[OF r(1) assms(3) False] have "cleaned_evidence env d w (pv_Name pv)"
      by (auto simp: cleaned_evidence_def shouldRunJob_def split: if_splits)
    moreover have "ext (about (pv_Name pv)) w w'"
      by (rule ext_trans[OF deletePV_effects(1)[OF r(1) assms(2,3)] ext_mono[OF r(2)]]) simp
    ultimately show ?thesis using \<open>eligible pv\<close> by (auto elim!: ext_mono)
  qed
qed

lemma reclaim_all_deletes:
  assumes "reclaim_all env d pvs w = Some w'" "jobs_named env" "pt_inv (w_ProcTable w)"
    "distinct (map pv_Name pvs)"
  shows "ext (\<lambda>e. \<forall>n x. e = Call (ReqDeletePV n) x \<longrightarrow>
    (\<exists>pv\<in>set pvs. eligible pv \<and> pv_Name pv = n) \<and> cleaned_evidence env d w n) w w'"
  using assms
proof (induction pvs arbitrary: w)
  case (Cons pv pvs)
  then obtain w1 where w1: "reclaim env d pv w = Some w1" "reclaim_all env d pvs w1 = Some w'"
    by (auto split: option.splits)
  note r = reclaim_effects[OF w1(1) Cons.prems(2,3)]
  have earlier: "cleaned_evidence env d w n" if "cleaned_evidence env d w1 n" "q \<in> set pvs" "pv_Name q = n" for q n
  proof (rule cleaned_evidence_back[OF that(1) ext_prefix[OF r(1)]])
    have "pv_Name q \<in> pv_Name ` set pvs" using that(2) by (rule imageI)
    with that(3) Cons.prems(4) have "n \<noteq> pv_Name pv" by auto
    with reclaim_view_other[OF w1(1) Cons.prems(3)]
    show "pt_view (w_ProcTable w1) n = pt_view (w_ProcTable w) n" by simp
  qed
  have "distinct (map pv_Name pvs)" using Cons.prems(4) by simp
  note tl = Cons.IH[OF w1(2) Cons.prems(2) r(3) this]
  show ?case
  proof (rule ext_trans[of _ w w1])
    show "ext (\<lambda>e. \<forall>n x. e = Call (ReqDeletePV n) x \<longrightarrow>
      (\<exists>pv\<in>set (pv # pvs). eligible pv \<and> pv_Name pv = n) \<and> cleaned_evidence env d w n) w w1"
      by (rule ext_mono[OF reclaim_deletes[OF w1(1) Cons.prems(2,3)]]) simp
    show "ext (\<lambda>e. \<forall>n x. e = Call (ReqDeletePV n) x \<longrightarrow>
      (\<exists>pv\<in>set (pv # pvs). eligible pv \<and> pv_Name pv = n) \<and> cleaned_evidence env d w n) w1 w'"
      by (rule ext_mono[OF tl]) (auto dest: earlier)
  qed
qed auto

section \<open>Panics\<close>

lemma GetContainerPath_None: "GetContainerPath pv config = None \<longleftrightarrow> pvs_Local (pv_Spec pv) = None"
  by (auto simp: GetContainerPath_def split: option.splits sum.splits)

lemma GetContainerPath_Some: "GetContainerPath pv config = Some r \<Longrightarrow> \<exists>l. pvs_Local (pv_Spec pv) = Some l"
  by (auto simp: GetContainerPath_def split: option.splits)

text \<open>The volumes on which the error path of a pass dereferences a nil local source.\<close>

definition panics :: "Deleter \<Rightarrow> persistent_volume \<Rightarrow> bool" where
  "panics d pv \<longleftrightarrow> eligible pv \<and> pvs_Local (pv_Spec pv) = None
     \<and> gm_get (uc_DiscoveryMap (dl_User d)) (pvs_StorageClassName (pv_Spec pv)) \<noteq> None"

lemma deletePV_None:
  assumes "uc_UseJobForCleaning (dl_User d) \<Longrightarrow> ct_JobController (dl_CleanupStatus d) \<noteq> None"
  shows "deletePV env d pv w \<noteq> None"
proof (cases "\<exists>config path mode. resolves env d pv w config path mode")
  case True
  then obtain config path mode where res: "resolves env d pv w config path mode" by blast
  have "InProgress env (dl_CleanupStatus d) (pv_Name pv) (shouldRunJob d mode) w \<noteq> None"
    using assms by (auto simp: InProgress_def shouldRunJob_def split: option.splits)
  then show ?thesis by (rule resolves_deletePV_total[OF res])
next
  case False
  then show ?thesis
    by (auto simp: deletePV_def getVolMode_def GetContainerPath_None Let_def resolves_def
        split: option.splits sum.splits)
qed

lemma getVolMode_None:
  "getVolMode env d pv w = None \<longleftrightarrow> pvs_Local (pv_Spec pv) = None
     \<and> gm_get (uc_DiscoveryMap (dl_User d)) (pvs_StorageClassName (pv_Spec pv)) \<noteq> None"
  by (auto simp: getVolMode_def GetContainerPath_None dest: GetContainerPath_Some split: option.splits sum.splits)

lemma reclaim_None:
  assumes "uc_UseJobForCleaning (dl_User d) \<Longrightarrow> ct_JobController (dl_CleanupStatus d) \<noteq> None"
  shows "reclaim env d pv w = None \<longleftrightarrow> panics d pv"
proof (cases "eligible pv")
  case False
  from reclaim_not_eligible[OF this, of env d w] False show ?thesis by (auto simp: panics_def)
next
  case True
  obtain r w1 where r: "deletePV env d pv w = Some (r, w1)" using deletePV_None[OF assms] by fastforce
  have "pvs_Local (pv_Spec pv) = None \<Longrightarrow> r \<noteq> None" using r by (auto simp: deletePV_def)
  with True r getVolMode_None[of env d pv w1] show ?thesis
    by (cases "getVolMode env d pv w1")
      (auto simp: reclaim_def eligible_def panics_def Let_def split: option.splits)
qed

lemma reclaim_all_None:
  assumes "uc_UseJobForCleaning (dl_User d) \<Longrightarrow> ct_JobController (dl_CleanupStatus d) \<noteq> None"
  shows "reclaim_all env d pvs w = None \<longleftrightarrow> (\<exists>pv\<in>set pvs. panics d pv)"
proof (induction pvs arbitrary: w)
  case (Cons pv pvs)
  with reclaim_None[OF assms, of env pv w] show ?case by (cases "reclaim env d pv w") auto
qed simp

section \<open>The end of a cleanup\<close>

text \<open>A cleanup the deleter may start: its volume has a local source, and a block volume has a
  cleaner command.\<close>

definition cleanup_ok :: "cleanup \<Rightarrow> bool" where
  "cleanup_ok cl \<longleftrightarrow> pvs_Local (pv_Spec (cl_PV cl)) \<noteq> None
     \<and> (cl_VolMode cl = PersistentVolumeBlock \<longrightarrow> cleaner_command (cl_Config cl) \<noteq> [])"

text \<open>The command was started and does not come to its end.\<close>

definition command_hangs :: "exec_result \<Rightarrow> bool" where
  "command_hangs x \<longleftrightarrow> x_StdoutPipe x = None \<and> x_StderrPipe x = None \<and> x_Start x = None
     \<and> (\<not> x_Ends x \<or> x_PipeSize x < int (length (scan_lines (x_Stdout x))) \<or> x_PipeSize x < int (length (scan_lines (x_Stderr x))))"

lemma execScript_eq:
  "execScript env n path exe args w =
     (let cmdEnv = e_Environ env @ [LocalPVEnv @ ''='' @ path]; x = e_exec env (w_trace w) exe args cmdEnv in
      (if command_hangs x then Hangs
       else Returned (case x_StdoutPipe x of Some e \<Rightarrow> Some e | None \<Rightarrow>
             (case x_StderrPipe x of Some e \<Rightarrow> Some e | None \<Rightarrow>
             (case x_Start x of Some e \<Rightarrow> Some e | None \<Rightarrow> x_Wait x))),
       if x_StdoutPipe x = None \<and> x_StderrPipe x = None \<and> x_Start x = None then emit (Exec exe args cmdEnv) w else w))"
  by (auto simp: execScript_def command_hangs_def Let_def split: option.splits)

text \<open>A scanner leaves something unread only behind a line that is too long.\<close>

lemma scan_lines_rest:
  assumes "scan_lines s \<noteq> []"
  obtains pre line where "s = pre @ line @ scan_lines s" "length line = MaxScanTokenSize" "CHR 0x0A \<notin> set line"
  using assms
proof (induction s arbitrary: thesis rule: scan_lines.induct)
  case (1 s)
  define line where "line = takeWhile (\<lambda>c. c \<noteq> CHR 0x0A) s"
  have nl: "CHR 0x0A \<notin> set line" by (auto simp: line_def dest: set_takeWhileD)
  have s: "s = line @ dropWhile (\<lambda>c. c \<noteq> CHR 0x0A) s" by (simp add: line_def)
  show ?case
  proof (cases "length line \<ge> MaxScanTokenSize")
    case True
    then have e: "scan_lines s = drop MaxScanTokenSize s" by (simp add: scan_lines.simps[of s] Let_def line_def)
    have "take MaxScanTokenSize s = take MaxScanTokenSize line" using True by (subst s) simp
    then have t: "CHR 0x0A \<notin> set (take MaxScanTokenSize s)" using nl by (auto dest: in_set_takeD)
    have "length line \<le> length s" by (simp add: line_def length_takeWhile_le)
    with True have l: "length (take MaxScanTokenSize s) = MaxScanTokenSize" by simp
    have "s = [] @ take MaxScanTokenSize s @ scan_lines s" unfolding e by (simp only: append_Nil append_take_drop_id)
    with t l show ?thesis by (intro "1.prems"(1))
  next
    case False
    with "1.prems"(2) have l: "length line \<noteq> length s" by (auto simp: scan_lines.simps[of s] Let_def line_def)
    let ?r = "drop (Suc (length line)) s"
    from False l have e: "scan_lines s = scan_lines ?r" by (simp add: scan_lines.simps[of s] Let_def line_def)
    show ?thesis
    proof (rule "1.IH"[OF line_def _ l])
      show "\<not> MaxScanTokenSize \<le> length line" by (rule False)
      show "scan_lines ?r \<noteq> []" using "1.prems"(2) e by simp
      fix pre line'
      assume r: "?r = pre @ line' @ scan_lines ?r" and l': "length line' = MaxScanTokenSize" "CHR 0x0A \<notin> set line'"
      have "s = take (Suc (length line)) s @ pre @ line' @ scan_lines s" unfolding e by (simp flip: r)
      with l' show thesis by (intro "1.prems"(1)[of "take (Suc (length line)) s @ pre" line']) simp_all
    qed
  qed
qed

lemma scan_long_line:
  assumes "CHR 0x0A \<notin> set line" "length line = MaxScanTokenSize"
  shows "scan_lines (line @ rest) = rest"
proof -
  have "takeWhile (\<lambda>c. c \<noteq> CHR 0x0A) (line @ rest) = line @ takeWhile (\<lambda>c. c \<noteq> CHR 0x0A) rest"
    using assms(1) by (intro takeWhile_append2) auto
  then show ?thesis using assms(2) by (simp add: scan_lines.simps[of "line @ rest"] Let_def)
qed

text \<open>The cleaner command of a block volume hangs.\<close>

definition cleanup_hangs :: "env \<Rightarrow> cleanup \<Rightarrow> world \<Rightarrow> bool" where
  "cleanup_hangs env cl w \<longleftrightarrow> prefix (mc_MountDir (cl_Config cl)) (cl_MountPath cl) \<and> cl_VolMode cl = PersistentVolumeBlock
     \<and> command_hangs (e_exec env (w_trace w @ [Event (pv_Name (cl_PV cl)) EventTypeNormal VolumeDelete
           (Errorf ''Starting cleanup of Block PV %q, this may take a while'' [pv_Name (cl_PV cl)])])
         (hd (cleaner_command (cl_Config cl))) (tl (cleaner_command (cl_Config cl)))
         (e_Environ env @ [LocalPVEnv @ ''='' @ cl_MountPath cl]))"

lemma cleanPV_total:
  assumes "cleanup_ok cl"
  shows "\<exists>r w'. cleanPV env (cl_PV cl) (cl_VolMode cl) (cl_MountPath cl) (cl_Config cl) w = Some (r, w')
    \<and> w_Cache w' = w_Cache w \<and> w_ProcTable w' = w_ProcTable w
    \<and> ext (\<lambda>e. (\<forall>q x. e \<noteq> Call q x) \<and> (\<forall>c. e \<noteq> Spawn c) \<and> (\<forall>n b. e \<noteq> Finished n b)) w w'
    \<and> (r = Hangs \<longleftrightarrow> cleanup_hangs env cl w)"
  using assms
  by (auto simp: cleanup_ok_def cleanPV_def cleanFilePV_def cleanBlockPV_def execScript_eq cleanup_hangs_def Let_def ext_def
      split: option.splits list.splits)

lemma asyncCleanPV_spec:
  assumes "cleanup_ok cl" "pt_inv (w_ProcTable w)" "pt_view (w_ProcTable w) (pv_Name (cl_PV cl)) \<noteq> None"
    and "\<not> cleanup_hangs env cl w"
  shows "\<exists>w' ok w1. asyncCleanPV env cl w = Some (True, w')
    \<and> w_trace w' = w_trace w1 @ [Finished (pv_Name (cl_PV cl)) ok]
    \<and> ext (\<lambda>e. (\<forall>q x. e \<noteq> Call q x) \<and> (\<forall>c. e \<noteq> Spawn c) \<and> (\<forall>n b. e \<noteq> Finished n b)) w w1
    \<and> w_Cache w' = w_Cache w \<and> pt_inv (w_ProcTable w')
    \<and> pt_view (w_ProcTable w') = (pt_view (w_ProcTable w))
         (pv_Name (cl_PV cl) := Some (if ok then CSSucceeded else CSFailed))"
proof -
  let ?n = "pv_Name (cl_PV cl)" and ?t = "w_ProcTable w"
  from cleanPV_total[OF assms(1), of env w] assms(4) obtain e w1 where
    c: "cleanPV env (cl_PV cl) (cl_VolMode cl) (cl_MountPath cl) (cl_Config cl) w = Some (e, w1)" "e \<noteq> Hangs"
      "w_Cache w1 = w_Cache w" "w_ProcTable w1 = ?t"
      "ext (\<lambda>e. (\<forall>q x. e \<noteq> Call q x) \<and> (\<forall>c. e \<noteq> Spawn c) \<and> (\<forall>n b. e \<noteq> Finished n b)) w w1" by blast
  then obtain r where e: "e = Returned r" by (cases e) simp_all
  obtain e1 t1 e2 t2 where m: "MarkFailed ?n ?t = (e1, t1)" "MarkSucceeded ?n ?t = (e2, t2)" by fastforce
  from pt.mark_failed[OF m(1) assms(2)] pt.mark_succeeded[OF m(2) assms(2)] assms(3) c m e
  show ?thesis
    by (cases r) (auto simp: asyncCleanPV_def intro!: exI[of _ w1])
qed

lemma RemoveStatus_spawn:
  assumes "RemoveStatus env c p j w = Some ((st, t, e), w')"
  shows "ext (\<lambda>x. \<forall>cl. x \<noteq> Spawn cl) w w'"
proof (cases j)
  case True
  with assms obtain ns where "RemoveJob env ns p w = ((st, t, e), w')" by (auto elim: RemoveStatus_job)
  from RemoveJob_effects(3)[OF this] show ?thesis by (rule ext_mono) auto
next
  case False
  with assms RemoveStatus_process(3)[of env c p w st t e w'] show ?thesis by (simp add: ext_def)
qed

lemma delete_cleaned_spawn:
  assumes "delete_cleaned env pv mode j config t w = (r, w')"
  shows "ext (\<lambda>x. \<forall>cl. x \<noteq> Spawn cl) w w'"
proof -
  obtain x w1 where d: "DeletePV_api env (pv_Name pv) w = (x, w1)" by fastforce
  have "ext (\<lambda>x. \<forall>cl. x \<noteq> Spawn cl) w w1"
    by (rule ext_mono[OF DeletePV_api_spec(3)[OF d]]) auto
  with assms d show ?thesis by (auto simp: delete_cleaned_def Let_def split: option.splits if_splits)
qed

lemma start_cleanup_ext:
  assumes "start_cleanup env d pv mode j path config w = (r, w')"
  obtains es where "w_trace w' = w_trace w @ es"
  using assms
  by (auto simp: start_cleanup_def runJob_def CreateJob_def call_def runProcess_def Let_def
      split: if_splits sum.splits prod.splits option.splits)

lemma start_cleanup_spawn:
  assumes "start_cleanup env d pv mode j path config w = (r, w')" "w_trace w' = w_trace w @ es" "Spawn cl \<in> set es"
  shows "cl_PV cl = pv" "cl_VolMode cl = mode" "cl_Config cl = config" "cl_MountPath cl = path"
    "mode = PersistentVolumeBlock \<longrightarrow> cleaner_command config \<noteq> []"
  using assms
  by (auto simp: start_cleanup_def runJob_def CreateJob_def call_def runProcess_def Let_def
      split: if_splits sum.splits prod.splits option.splits)

text \<open>What a cleanup that \<open>deletePV\<close> started was started with.\<close>

lemma started_cleanup:
  assumes "deletePV env d pv w = Some (r, w')" "w_trace w' = w_trace w @ es" "Spawn cl \<in> set es"
  shows "cl_PV cl = pv" "cleanup_ok cl" "resolves env d pv w (cl_Config cl) (cl_MountPath cl) (cl_VolMode cl)"
proof -
  have "cl_PV cl = pv \<and> cleanup_ok cl \<and> resolves env d pv w (cl_Config cl) (cl_MountPath cl) (cl_VolMode cl)" using assms(1)
  proof (cases rule: deletePV_cases)
    case (start config path mode st t w1)
    from RemoveStatus_spawn[OF start(3)] obtain es1 where es1: "w_trace w1 = w_trace w @ es1" "Spawn cl \<notin> set es1"
      by (auto simp: ext_def list_all_iff)
    with start_cleanup_ext[OF start(5)] assms(2) obtain es2 where "w_trace w' = w_trace w1 @ es2" "es = es1 @ es2"
      by auto
    with start_cleanup_spawn[OF start(5)] es1 assms(3) resolves_local[OF start(1)] start(1)
    show ?thesis by (auto simp: cleanup_ok_def)
  next
    case (cleaned config path mode t w1)
    from ext_trans[OF RemoveStatus_spawn[OF cleaned(3)] delete_cleaned_spawn[OF cleaned(4)]] assms(2,3)
    show ?thesis by (auto simp: ext_def list_all_iff)
  next
    case (no_status config path mode st t e)
    from RemoveStatus_spawn[OF no_status(2)] assms(2,3) show ?thesis by (auto simp: ext_def list_all_iff)
  next
    case (odd config path mode st t e)
    from RemoveStatus_spawn[OF odd(2)] assms(2,3) show ?thesis by (auto simp: ext_def list_all_iff)
  qed (use assms in auto)
  then show "cl_PV cl = pv" "cleanup_ok cl" "resolves env d pv w (cl_Config cl) (cl_MountPath cl) (cl_VolMode cl)" by simp_all
qed

text \<open>The effects that destroy data, and the one a cleanup of the path is meant to have.\<close>

fun destroys :: "effect \<Rightarrow> bool" where
  "destroys (RemoveContents _ _) = True"
| "destroys (Exec _ _ _) = True"
| "destroys _ = False"

definition wipe_of :: "env \<Rightarrow> MountConfig \<Rightarrow> string \<Rightarrow> string \<Rightarrow> string \<Rightarrow> effect" where
  "wipe_of env config mode hostPath path =
     (if mode = PersistentVolumeFilesystem then RemoveContents hostPath path
      else Exec (hd (cleaner_command config)) (tl (cleaner_command config)) (e_Environ env @ [LocalPVEnv @ ''='' @ path]))"

lemma asyncCleanPV_file:
  assumes "prefix (mc_MountDir (cl_Config cl)) (cl_MountPath cl)" "cl_VolMode cl = PersistentVolumeFilesystem"
    "pvs_Local (pv_Spec (cl_PV cl)) = Some l"
  shows "\<exists>w'. asyncCleanPV env cl w = Some (True, w') \<and> w_trace w' = w_trace w @
    [RemoveContents (lvs_Path l) (cl_MountPath cl),
     Finished (pv_Name (cl_PV cl)) (e_DeleteContents env (w_trace w) (lvs_Path l) (cl_MountPath cl) = None)]"
  using assms by (simp add: asyncCleanPV_def cleanPV_def cleanFilePV_def Let_def split: option.split)

lemma asyncCleanPV_block:
  assumes "prefix (mc_MountDir (cl_Config cl)) (cl_MountPath cl)" "cl_VolMode cl = PersistentVolumeBlock"
    "pvs_Local (pv_Spec (cl_PV cl)) = Some l" "cleaner_command (cl_Config cl) \<noteq> []"
  shows "\<exists>ended w' fx. asyncCleanPV env cl w = Some (ended, w') \<and> w_trace w' = w_trace w @ fx \<and> requests fx = []
    \<and> set (filter destroys fx) \<subseteq> {wipe_of env (cl_Config cl) (cl_VolMode cl) (lvs_Path l) (cl_MountPath cl)}
    \<and> (Finished (pv_Name (cl_PV cl)) True \<in> set fx \<longrightarrow>
         filter destroys fx = [wipe_of env (cl_Config cl) (cl_VolMode cl) (lvs_Path l) (cl_MountPath cl)])"
proof -
  obtain exe args where c: "cleaner_command (cl_Config cl) = exe # args"
    using assms(4) by (cases "cleaner_command (cl_Config cl)") simp_all
  show ?thesis
    using assms(1-3)
    by (auto simp: asyncCleanPV_def cleanPV_def cleanBlockPV_def execScript_eq wipe_of_def c Let_def
        split: option.splits cleanup_end.splits)
qed

lemma asyncCleanPV_guard:
  assumes "\<not> prefix (mc_MountDir (cl_Config cl)) (cl_MountPath cl)"
  shows "\<exists>w'. asyncCleanPV env cl w = Some (True, w') \<and> w_trace w' = w_trace w @ [Finished (pv_Name (cl_PV cl)) False]"
  using assms by (simp add: asyncCleanPV_def cleanPV_def Let_def)

section \<open>Properties\<close>

text \<open>C2. A volume's object is deleted only after its data was wiped: in a pass of \<open>DeletePVs\<close>,
  with any answers from the API server, the lister and the file system, every deletion request is
  for a cached volume that is released, not being deleted and has reclaim policy Delete, and
  either its cleanup process had ended successfully before the pass, or its cleaning job was
  seen as succeeded.\<close>

theorem delete_only_after_cleanup:
  assumes "DeletePVs env d w = Some w'" and "cache_inv (w_Cache w)" and "pt_inv (w_ProcTable w)"
    and "jobs_named env"
    and "w_trace w' = w_trace w @ es" and "Call (ReqDeletePV n) x \<in> set es"
  shows "(\<exists>pv\<in>set (ListPVs (w_Cache w)). eligible pv \<and> pv_Name pv = n) \<and> cleaned_evidence env d w n"
proof -
  from assms(1) have "reclaim_all env d (ListPVs (w_Cache w)) w = Some w'" by (simp add: DeletePVs_def)
  from reclaim_all_deletes[OF this assms(4,3) distinct_ListPVs[OF assms(2)]] assms(5,6)
  show ?thesis by (auto simp: ext_def list_all_iff)
qed

text \<open>C12. A pass touches nothing but what it may reclaim: every request to the API server, every
  cleanup started and every job created or deleted in a pass belongs to a cached volume that is
  released, not being deleted and has reclaim policy Delete; the cache is not changed and the
  process table keeps its invariant. Volumes with policy Retain, Recycle or an unknown policy
  are never cleaned.\<close>

theorem reclaim_scope:
  assumes "DeletePVs env d w = Some w'" and "pt_inv (w_ProcTable w)" and "jobs_named env"
  shows "\<exists>es. w_trace w' = w_trace w @ es
    \<and> (\<forall>e\<in>set es. quiet e \<or> (\<exists>pv\<in>set (ListPVs (w_Cache w)). eligible pv \<and> about (pv_Name pv) e))
    \<and> w_Cache w' = w_Cache w \<and> pt_inv (w_ProcTable w')"
  using reclaim_all_effects[OF assms(1)[unfolded DeletePVs_def] assms(3,2)]
  by (auto simp: ext_def list_all_iff)

text \<open>C18. When a pass panics: given a job controller whenever jobs are used, a pass ends in a nil
  dereference exactly if the cache holds a volume it would reclaim that has no local source and
  whose storage class is configured. The error the deleter reports for such a volume is handled
  by code that reads the missing source.\<close>

theorem delete_pass_panics_iff:
  assumes "uc_UseJobForCleaning (dl_User d) \<longrightarrow> ct_JobController (dl_CleanupStatus d) \<noteq> None"
  shows "DeletePVs env d w = None \<longleftrightarrow>
    (\<exists>pv\<in>set (ListPVs (w_Cache w)). eligible pv \<and> pvs_Local (pv_Spec pv) = None
       \<and> gm_get (uc_DiscoveryMap (dl_User d)) (pvs_StorageClassName (pv_Spec pv)) \<noteq> None)"
  using assms unfolding DeletePVs_def by (subst reclaim_all_None) (auto simp: panics_def)

text \<open>The branches of \<open>deletePV\<close> for a cleanup by a process, by the volume's entry.\<close>

lemma deletePV_busy:
  assumes "resolves env d pv w config path mode" "\<not> shouldRunJob d mode" "pt_view (w_ProcTable w) (pv_Name pv) = Some CSRunning"
  shows "deletePV env d pv w = Some (None, w)"
  using assms(2,3) by (simp add: deletePV_resolved[OF assms(1)] InProgress_def IsRunning_view)

lemma deletePV_idle:
  assumes "resolves env d pv w config path mode" "\<not> shouldRunJob d mode" "pt_inv (w_ProcTable w)"
    and "mode = PersistentVolumeBlock \<longrightarrow> cleaner_command config \<noteq> []"
    and "pt_view (w_ProcTable w) (pv_Name pv) \<noteq> Some CSRunning"
  shows "\<exists>t tb. pt_inv tb \<and> pt_view tb = (pt_view (w_ProcTable w))(pv_Name pv := None)
    \<and> deletePV env d pv w = Some (if pt_view (w_ProcTable w) (pv_Name pv) = Some CSSucceeded
         then delete_cleaned env pv mode False config t (w\<lparr>w_ProcTable := tb\<rparr>)
         else runProcess env pv mode path config (w\<lparr>w_ProcTable := tb\<rparr>))"
proof -
  obtain st t e tb where re: "RemoveEntry (pv_Name pv) (w_ProcTable w) = ((st, t, e), tb)" by (metis surj_pair)
  note rm = pt.remove_not_running[OF assms(3,5) re]
  have "deletePV env d pv w = Some (if pt_view (w_ProcTable w) (pv_Name pv) = Some CSSucceeded
      then delete_cleaned env pv mode False config t (w\<lparr>w_ProcTable := tb\<rparr>)
      else runProcess env pv mode path config (w\<lparr>w_ProcTable := tb\<rparr>))"
    using assms(2,4,5) re rm(1,2) pt_inv_view[OF assms(3)]
    by (auto simp: deletePV_resolved[OF assms(1)] InProgress_def RemoveStatus_def IsRunning_view Let_def
        start_cleanup_def split: option.splits CleanupState.splits)
  with rm(3,4) show ?thesis by blast
qed

lemma deletePV_succeeded:
  assumes "resolves env d pv w config path mode" "\<not> shouldRunJob d mode" "pt_inv (w_ProcTable w)"
    and "mode = PersistentVolumeBlock \<longrightarrow> cleaner_command config \<noteq> []"
    and "pt_view (w_ProcTable w) (pv_Name pv) = Some CSSucceeded"
  shows "\<exists>t tb. deletePV env d pv w = Some (delete_cleaned env pv mode False config t (w\<lparr>w_ProcTable := tb\<rparr>))
    \<and> pt_view tb = (pt_view (w_ProcTable w))(pv_Name pv := None) \<and> pt_inv tb"
  using deletePV_idle[OF assms(1-4)] assms(5) by auto

lemma deletePV_starts:
  assumes "resolves env d pv w config path mode" "\<not> shouldRunJob d mode" "pt_inv (w_ProcTable w)"
    and "mode = PersistentVolumeBlock \<longrightarrow> cleaner_command config \<noteq> []"
    and "pt_view (w_ProcTable w) (pv_Name pv) \<noteq> Some CSRunning" "pt_view (w_ProcTable w) (pv_Name pv) \<noteq> Some CSSucceeded"
  shows "\<exists>w'. deletePV env d pv w = Some (None, w')
    \<and> w_trace w' = w_trace w @ [Spawn \<lparr>cl_PV = pv, cl_VolMode = mode, cl_MountPath = path, cl_Config = config\<rparr>]
    \<and> pt_view (w_ProcTable w') = (pt_view (w_ProcTable w))(pv_Name pv := Some CSRunning) \<and> w_Cache w' = w_Cache w"
proof -
  from deletePV_idle[OF assms(1-5)] assms(6) obtain tb where tb: "pt_inv tb" "pt_view tb = (pt_view (w_ProcTable w))(pv_Name pv := None)"
    "deletePV env d pv w = Some (runProcess env pv mode path config (w\<lparr>w_ProcTable := tb\<rparr>))" by auto
  obtain r w' where p: "runProcess env pv mode path config (w\<lparr>w_ProcTable := tb\<rparr>) = (r, w')" by fastforce
  from runProcess_effects(2,4-6)[OF p] tb p show ?thesis by auto
qed

text \<open>C11. The protocol of one process-based cleanup, by the volume's entry in the process table:
  no entry, or a failed one, starts the cleanup and records it as running; a running one is left
  alone; a succeeded one is removed and the volume's object is deleted, where an object that is
  already gone counts as deleted.\<close>

theorem process_cleanup_protocol:
  assumes "resolves env d pv w config path mode" and "\<not> shouldRunJob d mode" and "pt_inv (w_ProcTable w)"
    and "mode = PersistentVolumeBlock \<longrightarrow> cleaner_command config \<noteq> []"
  shows "case pt_view (w_ProcTable w) (pv_Name pv) of
      Some CSRunning \<Rightarrow> deletePV env d pv w = Some (None, w)
    | Some CSSucceeded \<Rightarrow> \<exists>r w' es x. deletePV env d pv w = Some (r, w')
        \<and> pt_view (w_ProcTable w') = (pt_view (w_ProcTable w))(pv_Name pv := None)
        \<and> w_trace w' = w_trace w @ es \<and> Call (ReqDeletePV (pv_Name pv)) x \<in> set es
        \<and> (r = None \<longleftrightarrow> x = None \<or> x = Some ErrNotFound)
    | _ \<Rightarrow> \<exists>w'. deletePV env d pv w = Some (None, w')
        \<and> w_trace w' = w_trace w @ [Spawn \<lparr>cl_PV = pv, cl_VolMode = mode, cl_MountPath = path, cl_Config = config\<rparr>]
        \<and> pt_view (w_ProcTable w') = (pt_view (w_ProcTable w))(pv_Name pv := Some CSRunning)"
proof (cases "pt_view (w_ProcTable w) (pv_Name pv) = Some CSSucceeded")
  case True
  from deletePV_succeeded[OF assms True] obtain t tb
    where d: "deletePV env d pv w = Some (delete_cleaned env pv mode False config t (w\<lparr>w_ProcTable := tb\<rparr>))"
      "pt_view tb = (pt_view (w_ProcTable w))(pv_Name pv := None)" by blast
  obtain r w' where c: "delete_cleaned env pv mode False config t (w\<lparr>w_ProcTable := tb\<rparr>) = (r, w')" by fastforce
  from delete_cleaned_effects(3,4)[OF c] d c True show ?thesis by auto
next
  case False
  from deletePV_busy[OF assms(1,2)] deletePV_starts[OF assms _ False] pt_inv_view[OF assms(3)] False
  show ?thesis by (force split: option.splits CleanupState.splits)
qed

definition ex_deleter :: Deleter where
  "ex_deleter = NewDeleter ex_rc \<lparr>ct_JobController = None\<rparr>"

text \<open>One released volume, whose cleanup process is in the given state.\<close>

definition ex_released :: "CleanupState \<Rightarrow> world" where
  "ex_released st = \<lparr>w_Cache = AddPV (ex_pv ''p'') NewVolumeCache,
     w_ProcTable = snd (markStatus ''p'' st (snd (MarkRunning 3 ''p'' NewProcTable))), w_trace = []\<rparr>"

lemma ex_released_facts:
  "cache_inv (w_Cache (ex_released st))" "w_trace (ex_released st) = []" "jobs_named ex_env"
  "st \<in> {CSRunning, CSFailed, CSSucceeded} \<Longrightarrow> pt_inv (w_ProcTable (ex_released st))"
  "pt_view (w_ProcTable (ex_released st)) ''p'' = Some st"
  by (auto simp: ex_released_def jobs_named_def ex_env_def markStatus_def MarkRunning_def NewProcTable_def
      count_status_def pt_inv_def pt_view_def)

theorem delete_only_after_cleanup_witness:
  "(\<exists>pv\<in>set (ListPVs (w_Cache (ex_released CSSucceeded))). eligible pv \<and> pv_Name pv = ''p'')
     \<and> cleaned_evidence ex_env ex_deleter (ex_released CSSucceeded) ''p''"
proof (rule delete_only_after_cleanup)
  have "DeletePVs ex_env ex_deleter (ex_released CSSucceeded) \<noteq> None" by code_simp
  then show "DeletePVs ex_env ex_deleter (ex_released CSSucceeded)
      = Some (the (DeletePVs ex_env ex_deleter (ex_released CSSucceeded)))" by simp
  show "w_trace (the (DeletePVs ex_env ex_deleter (ex_released CSSucceeded))) = w_trace (ex_released CSSucceeded)
      @ w_trace (the (DeletePVs ex_env ex_deleter (ex_released CSSucceeded)))"
    by (simp add: ex_released_facts)
  show "Call (ReqDeletePV ''p'') None \<in> set (w_trace (the (DeletePVs ex_env ex_deleter (ex_released CSSucceeded))))"
    by code_simp
qed (simp_all add: ex_released_facts)

theorem reclaim_scope_witness:
  "\<exists>es. w_trace (the (DeletePVs ex_env ex_deleter (ex_released CSFailed))) = w_trace (ex_released CSFailed) @ es
    \<and> (\<forall>e\<in>set es. quiet e \<or> (\<exists>pv\<in>set (ListPVs (w_Cache (ex_released CSFailed))). eligible pv \<and> about (pv_Name pv) e))
    \<and> w_Cache (the (DeletePVs ex_env ex_deleter (ex_released CSFailed))) = w_Cache (ex_released CSFailed)
    \<and> pt_inv (w_ProcTable (the (DeletePVs ex_env ex_deleter (ex_released CSFailed))))"
proof (rule reclaim_scope)
  have "DeletePVs ex_env ex_deleter (ex_released CSFailed) \<noteq> None" by code_simp
  then show "DeletePVs ex_env ex_deleter (ex_released CSFailed)
      = Some (the (DeletePVs ex_env ex_deleter (ex_released CSFailed)))" by simp
qed (simp_all add: ex_released_facts)

theorem delete_pass_panics_iff_witness:
  "DeletePVs ex_env ex_deleter (ex_world\<lparr>w_Cache := AddPV (ex_pv ''p''\<lparr>pv_Spec := ex_spec\<lparr>pvs_Local := None\<rparr>\<rparr>)
     NewVolumeCache\<rparr>) = None"
proof -
  have "eligible (ex_pv ''p''\<lparr>pv_Spec := ex_spec\<lparr>pvs_Local := None\<rparr>\<rparr>)" by code_simp
  then show ?thesis
    using delete_pass_panics_iff[of ex_deleter ex_env "ex_world\<lparr>w_Cache := AddPV (ex_pv ''p''\<lparr>pv_Spec :=
      ex_spec\<lparr>pvs_Local := None\<rparr>\<rparr>) NewVolumeCache\<rparr>"]
    by (simp add: ex_deleter_def NewDeleter_def ex_rc_def ex_user_def AddPV_def NewVolumeCache_def ListPVs_def
        ex_spec_def)
qed

theorem process_cleanup_protocol_witness:
  "deletePV ex_env ex_deleter (ex_pv ''p'') (ex_released CSRunning) = Some (None, ex_released CSRunning)"
proof -
  have "resolves ex_env ex_deleter (ex_pv ''p'') (ex_released CSRunning) ex_mount ''/mnt/disks/vol1''
      PersistentVolumeFilesystem" by code_simp
  from process_cleanup_protocol[OF this] show ?thesis
    by (simp add: ex_released_facts shouldRunJob_def ex_pv_def)
qed

text \<open>C10. A cleanup wipes the discovered volume and nothing else. When \<open>deletePV\<close> starts a cleanup of a
  volume published for the file \<open>f\<close> of a class whose mount directory is a clean path, the goroutine
  gets that file in the mount directory as its path, whatever the process table held. Run at any
  later time, it sends no request and destroys at most once, and only this: for a filesystem
  volume the contents of that path, recording whether that succeeded, and for a block volume what
  the cleaner command does that is given that path; and it records a success only after it did.
  Any goroutine whose path does not start with the mount directory destroys nothing and records a
  failure.\<close>

theorem cleanup_wipes_discovered_path:
  assumes "plain f" and "Clean (mc_MountDir config) = mc_MountDir config" and "mc_MountDir config \<noteq> ''.''"
    and "pvs_Local (pv_Spec pv) = Some \<lparr>lvs_Path = FJoin [mc_HostDir config, f], lvs_FSType = fs\<rparr>"
    and "gm_get (uc_DiscoveryMap (dl_User d)) (pvs_StorageClassName (pv_Spec pv)) = Some config"
    and "deletePV env d pv w = Some (r, w')" and "w_trace w' = w_trace w @ es" and "Spawn cl \<in> set es"
  shows "let path = FJoin [mc_MountDir config, f];
             wipe = wipe_of env2 config (cl_VolMode cl) (FJoin [mc_HostDir config, f]) path in
      cl_PV cl = pv \<and> cl_MountPath cl = path \<and> below (mc_MountDir config) path
    \<and> (\<exists>ended w3 fx. asyncCleanPV env2 cl w2 = Some (ended, w3) \<and> w_trace w3 = w_trace w2 @ fx \<and> requests fx = []
         \<and> set (filter destroys fx) \<subseteq> {wipe} \<and> (Finished (pv_Name pv) True \<in> set fx \<longrightarrow> filter destroys fx = [wipe])
         \<and> (cl_VolMode cl = PersistentVolumeFilesystem \<longrightarrow> ended \<and> fx = [wipe, Finished (pv_Name pv)
              (e_DeleteContents env2 (w_trace w2) (FJoin [mc_HostDir config, f]) path = None)]))
    \<and> (\<forall>cl2. \<not> prefix (mc_MountDir (cl_Config cl2)) (cl_MountPath cl2) \<longrightarrow>
         (\<exists>w3. asyncCleanPV env2 cl2 w2 = Some (True, w3) \<and> w_trace w3 = w_trace w2 @ [Finished (pv_Name (cl_PV cl2)) False]))"
proof -
  let ?p = "FJoin [mc_MountDir config, f]"
  note c = started_cleanup[OF assms(6-8)]
  have path: "GetContainerPath pv config = Some (Inr ?p)" using assms(1-4) by (simp add: GetContainerPath_def Rel_FJoin)
  from c(3) assms(5) path have cl: "cl_Config cl = config" "cl_MountPath cl = ?p" by (auto simp: resolves_def)
  have pre: "prefix (mc_MountDir (cl_Config cl)) (cl_MountPath cl)" using FJoin_prefix[OF assms(2,3,1)] cl by simp
  have loc: "pvs_Local (pv_Spec (cl_PV cl)) = Some \<lparr>lvs_Path = FJoin [mc_HostDir config, f], lvs_FSType = fs\<rparr>"
    using assms(4) c(1) by simp
  have below: "below (mc_MountDir config) ?p" using assms(1-3) by (simp add: below_FJoin)
  from resolves_mode[OF c(3)] show ?thesis
  proof
    assume m: "cl_VolMode cl = PersistentVolumeFilesystem"
    from asyncCleanPV_file[OF pre m loc, of env2 w2] obtain w3 where "asyncCleanPV env2 cl w2 = Some (True, w3)"
      "w_trace w3 = w_trace w2 @ [RemoveContents (FJoin [mc_HostDir config, f]) ?p,
         Finished (pv_Name pv) (e_DeleteContents env2 (w_trace w2) (FJoin [mc_HostDir config, f]) ?p = None)]"
      using c(1) cl by auto
    then show ?thesis
      unfolding Let_def using c(1) cl below asyncCleanPV_guard[of _ env2 w2]
      by (simp add: wipe_of_def m) (auto intro!: exI[of _ True])
  next
    assume m: "cl_VolMode cl = PersistentVolumeBlock"
    with c(2) have "cleaner_command (cl_Config cl) \<noteq> []" by (simp add: cleanup_ok_def)
    from asyncCleanPV_block[OF pre m loc this, of env2 w2] show ?thesis
      unfolding Let_def using c(1) cl below asyncCleanPV_guard[of _ env2 w2] m by simp
  qed
qed

definition ex_cleanup :: cleanup where
  "ex_cleanup = \<lparr>cl_PV = ex_pv ''p'', cl_VolMode = PersistentVolumeFilesystem, cl_MountPath = ''/mnt/disks/vol1'',
     cl_Config = ex_mount\<rparr>"

lemma ex_cleanup_started:
  "\<exists>r w'. deletePV ex_env ex_deleter (ex_pv ''p'') (ex_released CSFailed) = Some (r, w') \<and> w_trace w' = [Spawn ex_cleanup]"
proof -
  let ?r = "deletePV ex_env ex_deleter (ex_pv ''p'') (ex_released CSFailed)"
  have "?r \<noteq> None" "w_trace (snd (the ?r)) = [Spawn ex_cleanup]" by code_simp+
  then show ?thesis by auto
qed

theorem cleanup_wipes_discovered_path_witness:
  "\<exists>w3. asyncCleanPV ex_env ex_cleanup ex_world = Some (True, w3)
     \<and> w_trace w3 = [RemoveContents ''/mnt/disks/vol1'' ''/mnt/disks/vol1'', Finished ''p'' True]"
proof -
  obtain r w' where d: "deletePV ex_env ex_deleter (ex_pv ''p'') (ex_released CSFailed) = Some (r, w')"
    "w_trace w' = [Spawn ex_cleanup]" using ex_cleanup_started by (elim exE conjE)
  have j: "FJoin [''/mnt/disks'', ''vol1''] = ''/mnt/disks/vol1''" "Clean ''/mnt/disks'' = ''/mnt/disks''" by code_simp+
  have "gm_get (uc_DiscoveryMap (dl_User ex_deleter)) (pvs_StorageClassName (pv_Spec (ex_pv ''p''))) = Some ex_mount"
    by (simp add: ex_deleter_def NewDeleter_def ex_rc_def ex_user_def ex_pv_def ex_spec_def)
  from cleanup_wipes_discovered_path[OF _ _ _ _ this d(1), of "''vol1''" None "[Spawn ex_cleanup]" ex_cleanup ex_env ex_world] j d(2)
  show ?thesis
    by (auto simp: ex_mount_def ex_pv_def ex_spec_def ex_env_def plain_def elem_ok_def ex_released_facts ex_cleanup_def
        wipe_of_def Let_def ex_world_def)
qed

text \<open>The guard compares strings, not paths: a volume object whose path lies in a sibling
  directory with the same textual prefix passes it, and its cleanup removes data outside the
  mount directory.\<close>

lemma cleanup_guard_textual:
  "\<exists>pv config path w'. GetContainerPath pv config = Some (Inr path) \<and> \<not> below (mc_MountDir config) path
     \<and> cleanPV ex_env pv PersistentVolumeFilesystem path config ex_world = Some (Returned None, w')
     \<and> RemoveContents path path \<in> set (w_trace w')"
proof -
  let ?pv = "ex_pv ''p''\<lparr>pv_Spec := ex_spec\<lparr>pvs_Local := Some \<lparr>lvs_Path = ''/mnt/disks2/v'', lvs_FSType = None\<rparr>\<rparr>\<rparr>"
  let ?w = "emit (RemoveContents ''/mnt/disks2/v'' ''/mnt/disks2/v'') ex_world"
  have "GetContainerPath ?pv ex_mount = Some (Inr ''/mnt/disks2/v'')" by code_simp
  moreover have "\<not> below (mc_MountDir ex_mount) ''/mnt/disks2/v''" by code_simp
  moreover have "cleanPV ex_env ?pv PersistentVolumeFilesystem ''/mnt/disks2/v'' ex_mount ex_world = Some (Returned None, ?w)"
    by (simp add: cleanPV_def cleanFilePV_def ex_mount_def ex_env_def)
  ultimately show ?thesis by fastforce
qed

end
