(* ===== verification/Glob.thy ===== *)
theory Glob
  imports Prelude
begin

text \<open>
  \<open>filepath.Match\<close> of Go's standard library, with which the discoverer compares file names with
  the name patterns of a storage class: \<open>scanChunk\<close> cuts a pattern at its stars, \<open>matchChunk\<close>
  matches a star-free chunk, \<open>getEsc\<close> reads one character of a class. Strings are bytes, and
  \<open>?\<close> and classes consume one UTF-8 rune. The platform is an argument, because a backslash
  escapes only outside Windows.
\<close>

section \<open>Runes\<close>

definition byte :: "char \<Rightarrow> int" where
  "byte c = of_char c"

definition RuneError :: int where "RuneError = 65533"

definition cont :: "int \<Rightarrow> int \<Rightarrow> char \<Rightarrow> bool" where
  "cont lo hi c \<longleftrightarrow> lo \<le> byte c \<and> byte c \<le> hi"

text \<open>The range of the second byte by the first one.\<close>

definition accept2 :: "int \<Rightarrow> int \<times> int" where
  "accept2 b = (if b = 0xE0 then (0xA0, 0xBF) else if b = 0xED then (0x80, 0x9F)
     else if b = 0xF0 then (0x90, 0xBF) else if b = 0xF4 then (0x80, 0x8F) else (0x80, 0xBF))"

text \<open>\<open>utf8.DecodeRuneInString\<close>: the rune and the number of bytes it takes.\<close>

definition DecodeRune :: "string \<Rightarrow> int \<times> nat" where
  "DecodeRune s =
     (case s of
        [] \<Rightarrow> (RuneError, 0)
      | c0 # s1 \<Rightarrow>
          let b0 = byte c0; (lo, hi) = accept2 b0 in
          if b0 < 0x80 then (b0, 1)
          else if 0xC2 \<le> b0 \<and> b0 \<le> 0xDF then
            (case s1 of c1 # _ \<Rightarrow> if cont lo hi c1 then ((b0 mod 32) * 64 + byte c1 mod 64, 2) else (RuneError, 1)
             | _ \<Rightarrow> (RuneError, 1))
          else if 0xE0 \<le> b0 \<and> b0 \<le> 0xEF then
            (case s1 of c1 # c2 # _ \<Rightarrow>
               if cont lo hi c1 \<and> cont 0x80 0xBF c2
               then ((b0 mod 16) * 4096 + (byte c1 mod 64) * 64 + byte c2 mod 64, 3) else (RuneError, 1)
             | _ \<Rightarrow> (RuneError, 1))
          else if 0xF0 \<le> b0 \<and> b0 \<le> 0xF4 then
            (case s1 of c1 # c2 # c3 # _ \<Rightarrow>
               if cont lo hi c1 \<and> cont 0x80 0xBF c2 \<and> cont 0x80 0xBF c3
               then ((b0 mod 8) * 262144 + (byte c1 mod 64) * 4096 + (byte c2 mod 64) * 64 + byte c3 mod 64, 4)
               else (RuneError, 1)
             | _ \<Rightarrow> (RuneError, 1))
          else (RuneError, 1))"

lemma DecodeRune_size: "s \<noteq> [] \<Longrightarrow> DecodeRune s = (r, n) \<Longrightarrow> 1 \<le> n"
  by (auto simp: DecodeRune_def Let_def split: list.splits if_splits prod.splits)

section \<open>Chunks\<close>

abbreviation backslash :: char where "backslash \<equiv> CHR 0x5C"

definition ErrBadPattern :: error where "ErrBadPattern = ErrOther ''syntax error in pattern''"

text \<open>The scan for the end of a chunk: the characters before the first star that is neither
  escaped nor in a class, and the rest.\<close>

fun scan :: "string \<Rightarrow> bool \<Rightarrow> string \<Rightarrow> string \<times> string" where
  "scan goos inrange [] = ([], [])"
| "scan goos inrange (c # p) =
     (if c = backslash \<and> goos \<noteq> ''windows'' then
        (case p of
           [] \<Rightarrow> ([c], [])
         | c' # p' \<Rightarrow> let (a, b) = scan goos inrange p' in (c # c' # a, b))
      else if c = CHR ''['' then let (a, b) = scan goos True p in (c # a, b)
      else if c = CHR '']'' then let (a, b) = scan goos False p in (c # a, b)
      else if c = CHR ''*'' \<and> \<not> inrange then ([], c # p)
      else let (a, b) = scan goos inrange p in (c # a, b))"

definition scanChunk :: "string \<Rightarrow> string \<Rightarrow> bool \<times> string \<times> string" where
  "scanChunk goos pattern =
     (let pattern' = dropWhile (\<lambda>c. c = CHR ''*'') pattern;
          star = (pattern' \<noteq> pattern);
          (chunk, rest) = scan goos False pattern'
      in (star, chunk, rest))"

definition getEsc :: "string \<Rightarrow> string \<Rightarrow> (int \<times> string) result" where
  "getEsc goos chunk =
     (if chunk = [] \<or> hd chunk = CHR ''-'' \<or> hd chunk = CHR '']'' then Inl ErrBadPattern
      else
        let chunk' = (if hd chunk = backslash \<and> goos \<noteq> ''windows'' then tl chunk else chunk) in
        if chunk' = [] then Inl ErrBadPattern
        else let (r, n) = DecodeRune chunk'; nchunk = drop n chunk' in
             if r = RuneError \<and> n = 1 then Inl ErrBadPattern
             else if nchunk = [] then Inl ErrBadPattern
             else Inr (r, nchunk))"

lemma getEsc_shorter: "getEsc goos chunk = Inr (r, rest) \<Longrightarrow> length rest < length chunk \<and> rest \<noteq> []"
proof -
  assume a: "getEsc goos chunk = Inr (r, rest)"
  let ?c = "if hd chunk = backslash \<and> goos \<noteq> ''windows'' then tl chunk else chunk"
  from a have c: "chunk \<noteq> []" "?c \<noteq> []" by (auto simp: getEsc_def Let_def split: if_splits)
  obtain n where "DecodeRune ?c = (r, n)" "rest = drop n ?c" "rest \<noteq> []"
    using a c by (auto simp: getEsc_def Let_def split: if_splits prod.splits)
  moreover from this(1) have "1 \<le> n" by (rule DecodeRune_size[OF c(2)])
  moreover have "length ?c \<le> length chunk" by simp
  ultimately show ?thesis by (auto simp: min_def)
qed

text \<open>The ranges of a character class, up to its closing bracket, and what follows it.\<close>

function class_ranges :: "string \<Rightarrow> nat \<Rightarrow> string \<Rightarrow> ((int \<times> int) list \<times> string) result" where
  "class_ranges goos nrange chunk =
     (if chunk \<noteq> [] \<and> hd chunk = CHR '']'' \<and> nrange > 0 then Inr ([], tl chunk)
      else
        (case getEsc goos chunk of
           Inl err \<Rightarrow> Inl err
         | Inr (lo, chunk1) \<Rightarrow>
             (case (if hd chunk1 = CHR ''-'' then getEsc goos (tl chunk1) else Inr (lo, chunk1)) of
                Inl err \<Rightarrow> Inl err
              | Inr (hi, chunk2) \<Rightarrow>
                  (case class_ranges goos (nrange + 1) chunk2 of
                     Inl err \<Rightarrow> Inl err
                   | Inr (rs, rest) \<Rightarrow> Inr ((lo, hi) # rs, rest)))))"
  by auto
termination
proof (relation "measure (\<lambda>(goos, nrange, chunk). length chunk)")
  fix goos nrange chunk lo_chunk lo chunk1 hi_chunk hi chunk2
  assume 1: "getEsc goos chunk = Inr lo_chunk" "(lo, chunk1) = lo_chunk"
    and 2: "(if hd chunk1 = CHR ''-'' then getEsc goos (tl chunk1) else Inr (lo, chunk1)) = Inr hi_chunk"
      "(hi, chunk2) = hi_chunk"
  have "length chunk1 < length chunk" using 1 getEsc_shorter[of goos chunk lo chunk1] by simp
  moreover have "length chunk2 \<le> length chunk1"
    using 2 getEsc_shorter[of goos "tl chunk1" hi chunk2] by (auto split: if_splits)
  ultimately show "((goos, nrange + 1, chunk2), goos, nrange, chunk) \<in> measure (\<lambda>(goos, nrange, chunk). length chunk)"
    by simp
qed simp

declare class_ranges.simps [simp del]

lemma class_ranges_shorter: "class_ranges goos n chunk = Inr (rs, rest) \<Longrightarrow> length rest < length chunk"
proof (induction goos n chunk arbitrary: rs rest rule: class_ranges.induct)
  case (1 goos n chunk)
  show ?case
  proof (cases "chunk \<noteq> [] \<and> hd chunk = CHR '']'' \<and> n > 0")
    case True
    with "1.prems" show ?thesis by (auto simp: class_ranges.simps[of goos n chunk])
  next
    case False
    with "1.prems" obtain lo chunk1 hi chunk2 rs' where
      e: "getEsc goos chunk = Inr (lo, chunk1)"
        "(if hd chunk1 = CHR ''-'' then getEsc goos (tl chunk1) else Inr (lo, chunk1)) = Inr (hi, chunk2)"
        "class_ranges goos (n + 1) chunk2 = Inr (rs', rest)"
      by (subst (asm) class_ranges.simps) (auto split: sum.splits)
    have "length rest < length chunk2" using "1.IH"[OF False e(1) refl e(2) refl] e(3) by auto
    moreover have "length chunk2 \<le> length chunk1"
      using e(2) getEsc_shorter[of goos "tl chunk1" hi chunk2] by (auto split: if_splits)
    ultimately show ?thesis using getEsc_shorter[OF e(1)] by linarith
  qed
qed

text \<open>The body of \<open>matchChunk\<close>: after a mismatch the rest of the chunk is only checked for
  syntax.\<close>

function match_loop :: "string \<Rightarrow> string \<Rightarrow> string \<Rightarrow> bool \<Rightarrow> (string \<times> bool) result" where
  "match_loop goos chunk s failed0 =
     (if chunk = [] then Inr (if failed0 then ([], False) else (s, True))
      else
        let failed = (failed0 \<or> s = []) in
        if hd chunk = CHR ''['' then
          let (r, s') = (if failed then (0, s) else let (r, n) = DecodeRune s in (r, drop n s));
              chunk1 = tl chunk;
              negated = (chunk1 \<noteq> [] \<and> hd chunk1 = CHR ''^'');
              chunk2 = (if negated then tl chunk1 else chunk1)
          in (case class_ranges goos 0 chunk2 of
                Inl err \<Rightarrow> Inl err
              | Inr (rs, rest) \<Rightarrow>
                  let matched = list_ex (\<lambda>(lo, hi). lo \<le> r \<and> r \<le> hi) rs
                  in match_loop goos rest s' (failed \<or> matched = negated))
        else if hd chunk = CHR ''?'' then
          (if failed then match_loop goos (tl chunk) s failed
           else match_loop goos (tl chunk) (drop (snd (DecodeRune s)) s) (hd s = CHR ''/''))
        else
          let esc = (hd chunk = backslash \<and> goos \<noteq> ''windows'');
              chunk' = (if esc then tl chunk else chunk)
          in if chunk' = [] then Inl ErrBadPattern
             else if failed then match_loop goos (tl chunk') s failed
             else match_loop goos (tl chunk') (tl s) (hd chunk' \<noteq> hd s))"
  by auto
termination
proof (relation "measure (\<lambda>(goos, chunk, s, failed). length chunk)")
  fix goos chunk s and r :: "(int \<times> int) list \<times> string" and chunk1 negated chunk2 rs rest
    and s' :: string and failed matched
  assume "chunk \<noteq> ([] :: string)" "chunk1 = tl chunk" "chunk2 = (if negated then tl chunk1 else chunk1)"
    "class_ranges goos 0 chunk2 = Inr r" "(rs, rest) = r"
  then have "length rest < length chunk"
    using class_ranges_shorter[of goos 0 chunk2 rs rest] by (cases chunk) (auto split: if_splits)
  then show "((goos, rest, s', matched), goos, chunk, s, failed) \<in> measure (\<lambda>(goos, chunk, s, failed). length chunk)"
    by simp
qed auto

declare match_loop.simps [simp del]

definition matchChunk :: "string \<Rightarrow> string \<Rightarrow> string \<Rightarrow> (string \<times> bool) result" where
  "matchChunk goos chunk s = match_loop goos chunk s False"

section \<open>Match\<close>

lemma scan_append: "fst (scan goos i p) @ snd (scan goos i p) = p"
proof (induction p arbitrary: i rule: length_induct)
  case (1 p)
  show ?case
  proof (cases p)
    case (Cons c q)
    with 1 have IH: "fst (scan goos j q) @ snd (scan goos j q) = q" for j by simp
    from 1 Cons have IH2: "fst (scan goos j (tl q)) @ snd (scan goos j (tl q)) = tl q" for j by simp
    show ?thesis using Cons IH IH2[of i] by (cases q) (simp_all add: Let_def case_prod_beta)
  qed simp
qed

lemma scan_not_Nil: "p \<noteq> [] \<Longrightarrow> hd p \<noteq> CHR ''*'' \<Longrightarrow> fst (scan goos False p) \<noteq> []"
  by (cases p) (simp_all add: Let_def case_prod_beta split: list.split)

lemma dropWhile_shorter:
  assumes "dropWhile P xs \<noteq> xs"
  shows "length (dropWhile P xs) < length xs"
proof -
  have "takeWhile P xs @ dropWhile P xs = xs" by simp
  moreover from this assms have "takeWhile P xs \<noteq> []" by (metis append_Nil)
  ultimately show ?thesis by (metis length_append length_greater_0_conv less_add_same_cancel2)
qed

lemma scanChunk_shorter:
  assumes "pattern \<noteq> []" "scanChunk goos pattern = (star, chunk, rest)"
  shows "length rest < length pattern"
proof -
  let ?p = "dropWhile (\<lambda>c. c = CHR ''*'') pattern"
  from assms(2) have sc: "scan goos False ?p = (chunk, rest)"
    by (simp add: scanChunk_def Let_def case_prod_beta prod_eq_iff)
  from scan_append[of goos False ?p] have "chunk @ rest = ?p" by (simp only: sc fst_conv snd_conv)
  then have len: "length chunk + length rest = length ?p" by (simp only: length_append flip: length_append)
  show ?thesis
  proof (cases "?p = pattern")
    case True
    from hd_dropWhile[of "\<lambda>c. c = CHR ''*''" pattern] have "hd pattern \<noteq> CHR ''*''"
      by (simp only: True assms(1) not_False_eq_True)
    from scan_not_Nil[OF assms(1) this, of goos] have "fst (scan goos False ?p) \<noteq> []" by (simp only: True not_False_eq_True)
    then have "0 < length chunk" by (simp only: sc fst_conv length_greater_0_conv not_False_eq_True)
    moreover have "length ?p = length pattern" by (simp only: True)
    ultimately show ?thesis using len by linarith
  next
    case False
    with len dropWhile_shorter[OF False] show ?thesis by linarith
  qed
qed

text \<open>The search for a later position after a star, which must not skip a separator.\<close>

fun star_search :: "string \<Rightarrow> string \<Rightarrow> bool \<Rightarrow> string \<Rightarrow> string option result" where
  "star_search goos chunk final [] = Inr None"
| "star_search goos chunk final (c # name) =
     (if c = CHR ''/'' then Inr None
      else
        (case matchChunk goos chunk name of
           Inl err \<Rightarrow> Inl err
         | Inr (t, True) \<Rightarrow> if final \<and> t \<noteq> [] then star_search goos chunk final name else Inr (Some t)
         | Inr (t, False) \<Rightarrow> star_search goos chunk final name))"

text \<open>Before a mismatch is reported, the rest of the pattern is checked for syntax.\<close>

function check_pattern :: "string \<Rightarrow> string \<Rightarrow> error option" where
  "check_pattern goos pattern =
     (if pattern = [] then None
      else
        (case scanChunk goos pattern of (star, chunk, rest) \<Rightarrow>
           (case matchChunk goos chunk [] of
              Inl err \<Rightarrow> Some err
            | Inr _ \<Rightarrow> check_pattern goos rest)))"
  by auto
termination
  by (relation "measure (\<lambda>(goos, p). length p)") (auto dest: scanChunk_shorter[OF _ sym])

function Match :: "string \<Rightarrow> string \<Rightarrow> string \<Rightarrow> bool result" where
  "Match goos pattern name =
     (if pattern = [] then Inr (name = [])
      else
        (case scanChunk goos pattern of (star, chunk, rest) \<Rightarrow>
           if star \<and> chunk = [] then Inr (CHR ''/'' \<notin> set name)
           else
             let mismatch = (case check_pattern goos rest of Some err \<Rightarrow> Inl err | None \<Rightarrow> Inr False) in
             (case matchChunk goos chunk name of
                Inr (t, True) \<Rightarrow>
                  if t = [] \<or> rest \<noteq> [] then Match goos rest t
                  else if star then
                    (case star_search goos chunk (rest = []) name of
                       Inl err \<Rightarrow> Inl err
                     | Inr (Some t) \<Rightarrow> Match goos rest t
                     | Inr None \<Rightarrow> mismatch)
                  else mismatch
              | Inl err \<Rightarrow> Inl err
              | Inr (t, False) \<Rightarrow>
                  if star then
                    (case star_search goos chunk (rest = []) name of
                       Inl err \<Rightarrow> Inl err
                     | Inr (Some t) \<Rightarrow> Match goos rest t
                     | Inr None \<Rightarrow> mismatch)
                  else mismatch)))"
  by pat_completeness auto
termination
  by (relation "measure (\<lambda>(goos, p, n). length p)") (auto dest: scanChunk_shorter[OF _ sym])

declare check_pattern.simps [simp del] Match.simps [simp del]

lemma Match_star: "Match goos ''*'' name = Inr (CHR ''/'' \<notin> set name)"
  by (simp add: Match.simps scanChunk_def)

lemma Match_examples:
  "Match ''linux'' ''vol[0-9]*'' ''vol7-data'' = Inr True" "Match ''linux'' ''vol[^0-9]*'' ''vol7'' = Inr False"
  "Match ''linux'' ''a*b?'' ''aabbc'' = Inr True" "Match ''linux'' ''[a'' ''a'' = Inl ErrBadPattern"
    by code_simp+

section \<open>Literal patterns\<close>

definition literal :: "string \<Rightarrow> bool" where
  "literal p \<longleftrightarrow> list_all (\<lambda>c. c \<notin> {CHR ''*'', CHR ''?'', CHR ''['', CHR '']'', backslash}) p"

lemma literal_simps [simp]:
  "literal []" "literal (c # p) \<longleftrightarrow> c \<notin> {CHR ''*'', CHR ''?'', CHR ''['', CHR '']'', backslash} \<and> literal p"
  by (simp_all add: literal_def)

lemma match_loop_literal:
  "literal p \<Longrightarrow> match_loop goos p s failed =
     Inr (if \<not> failed \<and> prefix p s then (drop (length p) s, True) else ([], False))"
proof (induction p arbitrary: s failed)
  case Nil
  then show ?case by (simp add: match_loop.simps)
next
  case (Cons c p)
  then show ?case by (cases s) (auto simp: match_loop.simps[of goos "c # p"] Let_def)
qed

lemma scan_literal: "literal p \<Longrightarrow> scan goos i (p @ (if st then ''*'' else [])) =
    (if i then (p @ (if st then ''*'' else []), []) else (p, if st then ''*'' else []))"
  by (induction p) auto

lemma dropWhile_literal: "literal p \<Longrightarrow> p \<noteq> [] \<Longrightarrow> dropWhile (\<lambda>c. c = CHR ''*'') (p @ q) = p @ q"
  by (cases p) auto

lemma scanChunk_literal:
  assumes "literal p" "p \<noteq> []"
  shows "scanChunk goos (p @ (if st then ''*'' else [])) = (False, p, if st then ''*'' else [])"
  using scan_literal[OF assms(1), of goos False st] dropWhile_literal[OF assms]
  by (simp add: scanChunk_def Let_def)

lemma Match_literal:
  assumes "literal p"
  shows "Match goos p name = Inr (name = p)"
proof (cases "p = []")
  case False
  from scanChunk_literal[OF assms False, of goos False] False show ?thesis
    by (subst Match.simps)
      (auto simp: matchChunk_def match_loop_literal[OF assms] check_pattern.simps Match.simps[of goos "[]"] prefix_def Let_def)
qed (auto simp: Match.simps)

lemma Match_literal_star:
  assumes "literal p"
  shows "Match goos (p @ ''*'') name = Inr (prefix p name \<and> CHR ''/'' \<notin> set (drop (length p) name))"
proof (cases "p = []")
  case False
  have ck: "check_pattern goos ''*'' = None"
    by (simp add: check_pattern.simps scanChunk_def matchChunk_def match_loop.simps)
  from scanChunk_literal[OF assms False, of goos True] False show ?thesis
    by (subst Match.simps) (auto simp: matchChunk_def match_loop_literal[OF assms] ck Match_star Let_def)
qed (simp add: Match_star)

end
