(* ===== verification/Discovery.thy ===== *)
theory Discovery
  imports Deleter Glob
begin

text \<open>
  \<open>pkg/discovery/discovery.go\<close>: the discoverer reads the mount directory of every configured
  storage class, filters the files by name, and creates a PersistentVolume for every volume that
  has none and is not being cleaned. \<open>None\<close> is a panic, as in the deleter; it can only come from a
  missing job controller.
\<close>

declare map_of_eq_Some_iff [simp del] Some_eq_map_of_iff [simp del]

section \<open>The discoverer\<close>

record Discoverer =
  ds_RuntimeConfig :: RuntimeConfig
  ds_Labels :: "(string, string) gomap"
  ds_CleanupTracker :: CleanupStatusTracker
  ds_nodeSelector :: node_selector
  ds_ownerReference :: "owner_reference option"
  ds_ready :: bool

abbreviation ds_User :: "Discoverer \<Rightarrow> UserConfig" where
  "ds_User d \<equiv> rc_UserConfig (ds_RuntimeConfig d)"

definition Check :: "Discoverer \<Rightarrow> error option" where
  "Check d = (if ds_ready d then None else Some (Errorf ''discovererNotReady'' []))"

definition readyz_Name :: string where "readyz_Name = ''DiscovererReadyzCheck''"

definition generateOwnerReference :: "node \<Rightarrow> owner_reference result" where
  "generateOwnerReference nd =
     (if node_Name nd = [] then Inl (Errorf ''Node does not have name'' [])
      else if om_UID (node_Meta nd) = [] then Inl (Errorf ''Node does not have UID'' [])
      else Inr \<lparr>or_Kind = ''Node'', or_APIVersion = ''v1'', or_Name = node_Name nd, or_UID = om_UID (node_Meta nd)\<rparr>)"

definition generateNodeSelector :: "node \<Rightarrow> node_selector result" where
  "generateNodeSelector nd =
     (case om_Labels (node_Meta nd) of
        None \<Rightarrow> Inl (Errorf ''Node does not have labels'' [])
      | Some labels \<Rightarrow>
          (case gm_get labels NodeLabelKey of
             None \<Rightarrow> Inl (Errorf ''Node does not have expected label %s'' [NodeLabelKey])
           | Some nodeValue \<Rightarrow>
               Inr [\<lparr>nst_MatchExpressions = [\<lparr>nsr_Key = NodeLabelKey, nsr_Operator = NodeSelectorOpIn,
                                              nsr_Values = [nodeValue]\<rparr>]\<rparr>]))"

fun node_labels :: "labels \<Rightarrow> string list \<Rightarrow> (string, string) gomap \<Rightarrow> (string, string) gomap" where
  "node_labels ls [] labelMap = labelMap"
| "node_labels ls (labelName # names) labelMap =
     node_labels ls names
       (case label_get ls labelName of None \<Rightarrow> labelMap | Some labelVal \<Rightarrow> gm_put labelName labelVal labelMap)"

fun add_labels :: "(string, string) gomap \<Rightarrow> (string, string) gomap \<Rightarrow> (string, string) gomap" where
  "add_labels [] labelMap = labelMap"
| "add_labels ((labelName, labelValue) # ls) labelMap = add_labels ls (gm_put labelName labelValue labelMap)"

definition NewDiscoverer :: "RuntimeConfig \<Rightarrow> CleanupStatusTracker \<Rightarrow> Discoverer result" where
  "NewDiscoverer config cleanupTracker =
     (let uc = rc_UserConfig config;
          labelMap = node_labels (om_Labels (node_Meta (uc_Node uc))) (uc_NodeLabelsForPV uc) [];
          labelMap = add_labels (uc_LabelsForPV uc) labelMap in
      case generateOwnerReference (uc_Node uc) of
        Inl err \<Rightarrow> Inl (Wrapf ''Failed to generate owner reference: %v'' [] err)
      | Inr ownerRef \<Rightarrow>
          (case generateNodeSelector (uc_Node uc) of
             Inl err \<Rightarrow> Inl (Wrapf ''Failed to generate node selector: %v'' [] err)
           | Inr nodeSelector \<Rightarrow>
               Inr \<lparr>ds_RuntimeConfig = config, ds_Labels = labelMap, ds_CleanupTracker = cleanupTracker,
                    ds_nodeSelector = nodeSelector, ds_ownerReference = Some ownerRef, ds_ready = False\<rparr>))"

section \<open>Storage class settings\<close>

definition getReclaimPolicyFromStorageClass :: "env \<Rightarrow> string \<Rightarrow> world \<Rightarrow> string result" where
  "getReclaimPolicyFromStorageClass env name w =
     (case l_Get (e_classes env (w_trace w)) name of
        Inl err \<Rightarrow> Inl err
      | Inr sc \<Rightarrow> (case sc_ReclaimPolicy sc of Some p \<Rightarrow> Inr p | None \<Rightarrow> Inr PersistentVolumeReclaimDelete))"

definition getMountOptionsFromStorageClass :: "env \<Rightarrow> string \<Rightarrow> world \<Rightarrow> string list result" where
  "getMountOptionsFromStorageClass env name w =
     (case l_Get (e_classes env (w_trace w)) name of
        Inl err \<Rightarrow> Inl err
      | Inr sc \<Rightarrow> Inr (sc_MountOptions sc))"

section \<open>Capacity and affinity\<close>

fun round_units :: "int \<Rightarrow> int list \<Rightarrow> int" where
  "round_units capacityBytes [] = capacityBytes"
| "round_units capacityBytes (unit # units) =
     (let sz = quot64 capacityBytes unit in
      if sz \<ge> 10 then wrap64 (sz * unit) else round_units capacityBytes units)"

definition roundDownCapacityPretty :: "int \<Rightarrow> int" where
  "roundDownCapacityPretty capacityBytes = round_units capacityBytes [GiB, MiB]"

text \<open>The JSON encoding of an affinity is an argument, and so is its decoding.\<close>

definition GetStorageNodeAffinityFromAnnotation ::
    "(string \<Rightarrow> node_selector result) \<Rightarrow> (string, string) gomap \<Rightarrow> node_selector option result" where
  "GetStorageNodeAffinityFromAnnotation unmarshal annotations =
     (case gm_get annotations AlphaStorageNodeAffinityAnnotation of
        None \<Rightarrow> Inr None
      | Some s \<Rightarrow>
          if s \<noteq> [] then (case unmarshal s of Inl err \<Rightarrow> Inl err | Inr affinity \<Rightarrow> Inr (Some affinity))
          else Inr None)"

definition StorageNodeAffinityToAlphaAnnotation ::
    "(node_selector \<Rightarrow> string result) \<Rightarrow> (string, string) gomap \<Rightarrow> node_selector option
     \<Rightarrow> error option \<times> (string, string) gomap" where
  "StorageNodeAffinityToAlphaAnnotation marshal annotations affinity =
     (case affinity of
        None \<Rightarrow> (None, annotations)
      | Some a \<Rightarrow>
          (case marshal a of
             Inl err \<Rightarrow> (Some err, annotations)
           | Inr json \<Rightarrow> (None, gm_put AlphaStorageNodeAffinityAnnotation json annotations)))"

section \<open>Creating a volume\<close>

definition pv_config :: "Discoverer \<Rightarrow> string \<Rightarrow> string \<Rightarrow> string \<Rightarrow> string list \<Rightarrow> MountConfig \<Rightarrow> int \<Rightarrow> string
    \<Rightarrow> string \<Rightarrow> LocalPVConfig" where
  "pv_config d file class reclaimPolicy mountOptions config capacityByte volMode accessMode =
     \<lparr>lp_Name = generatePVName file (node_Name (uc_Node (ds_User d))) class,
      lp_HostPath = FJoin [mc_HostDir config, file],
      lp_Capacity = roundDownCapacityPretty capacityByte,
      lp_StorageClass = class,
      lp_ReclaimPolicy = reclaimPolicy,
      lp_ProvisionerName = rc_Name (ds_RuntimeConfig d),
      lp_UseAlphaAPI = False,
      lp_AffinityAnn = [],
      lp_NodeAffinity = None,
      lp_VolumeMode = volMode,
      lp_AccessMode = accessMode,
      lp_MountOptions = mountOptions,
      lp_FsType = None,
      lp_Labels = ds_Labels d,
      lp_SetPVOwnerRef = uc_SetPVOwnerRef (ds_User d),
      lp_OwnerReference = ds_ownerReference d\<rparr>"

text \<open>The node affinity, as an annotation with the alpha API and in the spec otherwise.\<close>

definition with_affinity :: "env \<Rightarrow> Discoverer \<Rightarrow> MountConfig \<Rightarrow> LocalPVConfig \<Rightarrow> LocalPVConfig result" where
  "with_affinity env d config localPVConfig =
     (let volumeNodeSelector = ds_nodeSelector d @ mc_Selector config in
      if uc_UseAlphaAPI (ds_User d) then
        (case StorageNodeAffinityToAlphaAnnotation (e_MarshalAffinity env) [] (Some volumeNodeSelector) of
           (Some err, _) \<Rightarrow> Inl (Wrapf ''error converting volume affinity to alpha annotation: %v'' [] err)
         | (None, tmpAnnotations) \<Rightarrow>
             Inr (localPVConfig\<lparr>lp_UseAlphaAPI := True,
               lp_AffinityAnn := (case gm_get tmpAnnotations AlphaStorageNodeAffinityAnnotation of
                                    None \<Rightarrow> [] | Some s \<Rightarrow> s)\<rparr>))
      else Inr (localPVConfig\<lparr>lp_NodeAffinity := Some (Some volumeNodeSelector)\<rparr>))"

definition with_fstype :: "MountConfig \<Rightarrow> LocalPVConfig \<Rightarrow> LocalPVConfig" where
  "with_fstype config localPVConfig =
     (if mc_FsType config \<noteq> [] then localPVConfig\<lparr>lp_FsType := Some (mc_FsType config)\<rparr> else localPVConfig)"

definition createPV :: "env \<Rightarrow> Discoverer \<Rightarrow> string \<Rightarrow> string \<Rightarrow> string \<Rightarrow> string list \<Rightarrow> MountConfig \<Rightarrow> int \<Rightarrow> string
    \<Rightarrow> string \<Rightarrow> time \<Rightarrow> world \<Rightarrow> (error option \<times> world) option" where
  "createPV env d file class reclaimPolicy mountOptions config capacityByte volMode accessMode startTime w =
     (let pvName = generatePVName file (node_Name (uc_Node (ds_User d))) class;
          outsidePath = FJoin [mc_HostDir config, file];
          localPVConfig = pv_config d file class reclaimPolicy mountOptions config capacityByte volMode accessMode in
      case with_affinity env d config localPVConfig of
        Inl err \<Rightarrow> Some (Some err, w)
      | Inr localPVConfig \<Rightarrow>
          (case CreateLocalPVSpec (with_fstype config localPVConfig) of
             None \<Rightarrow> None
           | Some pvSpec \<Rightarrow>
               (case CreatePV env pvSpec w of
                  (Some err, w) \<Rightarrow>
                    Some (Some (Wrapf ''error creating PV %q for volume at %q: %v'' [pvName, outsidePath] err), w)
                | (None, w) \<Rightarrow>
                    let w = emit (Inc PersistentVolumeDiscoveryTotal [volMode]) w
                    in Some (None, emit (Observe PersistentVolumeDiscoveryDurationSeconds [volMode]
                                           (Since env w startTime)) w))))"

section \<open>One directory\<close>

text \<open>The loop over the name patterns; the flag is Go's variable, which keeps the last result.\<close>

fun match_patterns :: "string \<Rightarrow> string list \<Rightarrow> string \<Rightarrow> bool \<Rightarrow> bool result" where
  "match_patterns goos [] file matched = Inr matched"
| "match_patterns goos (pattern # ps) file matched =
     (if pattern \<noteq> [] then
        (case Match goos pattern file of
           Inl err \<Rightarrow> Inl err
         | Inr True \<Rightarrow> Inr True
         | Inr False \<Rightarrow> match_patterns goos ps file False)
      else match_patterns goos ps file matched)"

definition name_selected :: "string \<Rightarrow> MountConfig \<Rightarrow> string \<Rightarrow> bool result" where
  "name_selected goos config file =
     (let namePatterns = (if mc_NamePattern config \<noteq> [] then Split (mc_NamePattern config) (CHR '','') else []) in
      case match_patterns goos namePatterns file False of
        Inl err \<Rightarrow> Inl err
      | Inr matched \<Rightarrow> Inr (\<not> (mc_NamePattern config \<noteq> [] \<and> \<not> matched)))"

text \<open>The variables of the loop over the files.\<close>

record disc_state =
  dst_Errors :: "error list"
  dst_BlockBytes :: int
  dst_FSBytes :: int
  dst_World :: world

definition add_error :: "error \<Rightarrow> disc_state \<Rightarrow> disc_state" where
  "add_error err st = st\<lparr>dst_Errors := dst_Errors st @ [err]\<rparr>"

text \<open>The capacity of the volume by its mode, or the error recorded for it; the totals count
  every volume whose capacity was read.\<close>

definition probe_volume :: "env \<Rightarrow> Discoverer \<Rightarrow> MountConfig \<Rightarrow> string list \<Rightarrow> string \<Rightarrow> string \<Rightarrow> string
    \<Rightarrow> disc_state \<Rightarrow> int result \<times> disc_state" where
  "probe_volume env d config mountPoints volMode filePath outsidePath st =
     (let vu = VolUtil env (dst_World st) in
      if volMode = PersistentVolumeBlock then
        (case vu_GetBlockCapacityByte vu filePath of
           Inl err \<Rightarrow> (Inl (Wrapf ''path %q block stats error: %v'' [filePath] err), st)
         | Inr capacityByte \<Rightarrow>
             (Inr capacityByte, st\<lparr>dst_BlockBytes := wrap64 (dst_BlockBytes st + capacityByte)\<rparr>))
      else if volMode = PersistentVolumeFilesystem then
        (if mc_VolumeMode config = PersistentVolumeBlock then
           (Inl (Errorf ''path %q of filesystem mode cannot be used to create block volume'' [filePath]), st)
         else
           (case vu_IsLikelyMountPoint vu outsidePath filePath mountPoints of (isLikelyMountPoint, err) \<Rightarrow>
              if \<not> isLikelyMountPoint \<or> err \<noteq> None then
                (Inl (case err of
                        None \<Rightarrow> Errorf ''path %q is not a valid mount point: %v'' [filePath, ''<nil>'']
                      | Some e \<Rightarrow> Wrapf ''path %q is not a valid mount point: %v'' [filePath] e), st)
              else
                (case vu_GetFsCapacityByte vu outsidePath filePath of
                   Inl err \<Rightarrow> (Inl (Wrapf ''path %q fs stats error: %v'' [filePath] err), st)
                 | Inr capacityByte \<Rightarrow>
                     (Inr capacityByte, st\<lparr>dst_FSBytes := wrap64 (dst_FSBytes st + capacityByte)\<rparr>))))
      else (Inl (Errorf ''path %q has unexpected volume type %q'' [filePath, volMode]), st))"

text \<open>The rest of the body, once the volume is known to be new and not being cleaned.\<close>

definition provision_new :: "env \<Rightarrow> Discoverer \<Rightarrow> string \<Rightarrow> MountConfig \<Rightarrow> string \<Rightarrow> string list \<Rightarrow> time \<Rightarrow> string
    \<Rightarrow> string \<Rightarrow> disc_state \<Rightarrow> disc_state option" where
  "provision_new env d class config reclaimPolicy mountPoints startTime file volMode st =
     (let filePath = FJoin [mc_MountDir config, file];
          outsidePath = FJoin [mc_HostDir config, file] in
      case getMountOptionsFromStorageClass env class (dst_World st) of
        Inl err \<Rightarrow> Some (add_error (Wrapf ''failed to get mount options from storage class %s: %v'' [class] err) st)
      | Inr mountOptions \<Rightarrow>
          let desiredAccessMode = (if mc_AccessMode config \<noteq> [] then mc_AccessMode config else ReadWriteOnce);
              desireVolumeMode = mc_VolumeMode config in
          (case probe_volume env d config mountPoints volMode filePath outsidePath st of
             (Inl err, st) \<Rightarrow> Some (add_error err st)
           | (Inr capacityByte, st) \<Rightarrow>
               (case createPV env d file class reclaimPolicy mountOptions config capacityByte desireVolumeMode
                       desiredAccessMode startTime (dst_World st) of
                  None \<Rightarrow> None
                | Some (None, w) \<Rightarrow> Some (st\<lparr>dst_World := w\<rparr>)
                | Some (Some err, w) \<Rightarrow> Some (add_error err (st\<lparr>dst_World := w\<rparr>)))))"

definition discover_file :: "env \<Rightarrow> Discoverer \<Rightarrow> string \<Rightarrow> MountConfig \<Rightarrow> string \<Rightarrow> string list \<Rightarrow> string
    \<Rightarrow> disc_state \<Rightarrow> disc_state option" where
  "discover_file env d class config reclaimPolicy mountPoints file st =
     (let w = dst_World st;
          startTime = Now env w;
          filePath = FJoin [mc_MountDir config, file] in
      case GetVolumeMode (e_goos env) (VolUtil env w) filePath of
        Inl err \<Rightarrow> Some (add_error err st)
      | Inr volMode \<Rightarrow>
          let pvName = generatePVName file (node_Name (uc_Node (ds_User d))) class in
          (case GetPV (w_Cache w) pvName of
             Some pv \<Rightarrow>
               if pvs_VolumeMode (pv_Spec pv) = Some PersistentVolumeBlock \<and> volMode = PersistentVolumeFilesystem then
                 let err = Errorf ''incorrect Volume Mode: PV %q requires block mode but path %q was in fs mode''
                             [pvName, filePath]
                 in Some ((add_error err st)\<lparr>dst_World :=
                      emit (Event (pv_Name pv) EventTypeWarning EventVolumeFailedDelete err) w\<rparr>)
               else Some st
           | None \<Rightarrow>
               let outsidePath = FJoin [mc_HostDir config, file];
                   existingPVNames = LookupPVsByPath (w_Cache w) outsidePath in
               if length existingPVNames > 0 then Some st
               else
                 let usejob = (volMode = PersistentVolumeBlock \<and> uc_UseJobForCleaning (ds_User d)) in
                 (case InProgress env (ds_CleanupTracker d) pvName usejob w of
                    None \<Rightarrow> None
                  | Some True \<Rightarrow> Some st
                  | Some False \<Rightarrow>
                      (case RemoveStatus env (ds_CleanupTracker d) pvName usejob w of
                         None \<Rightarrow> None
                       | Some ((_, _, Some err), w) \<Rightarrow> Some (st\<lparr>dst_World := w\<rparr>)
                       | Some ((_, _, None), w) \<Rightarrow>
                           provision_new env d class config reclaimPolicy mountPoints startTime file volMode
                             (st\<lparr>dst_World := w\<rparr>)))))"

text \<open>The loop over the files: a syntax error in a pattern ends the function.\<close>

fun discover_files :: "env \<Rightarrow> Discoverer \<Rightarrow> string \<Rightarrow> MountConfig \<Rightarrow> string \<Rightarrow> string list \<Rightarrow> string list
    \<Rightarrow> disc_state \<Rightarrow> (error option \<times> disc_state) option" where
  "discover_files env d class config reclaimPolicy mountPoints [] st = Some (None, st)"
| "discover_files env d class config reclaimPolicy mountPoints (file # files) st =
     (case name_selected (e_goos env) config file of
        Inl err \<Rightarrow> Some (Some err, st)
      | Inr False \<Rightarrow> discover_files env d class config reclaimPolicy mountPoints files st
      | Inr True \<Rightarrow>
          (case discover_file env d class config reclaimPolicy mountPoints file st of
             None \<Rightarrow> None
           | Some st \<Rightarrow> discover_files env d class config reclaimPolicy mountPoints files st))"

definition discoverVolumesAtPath :: "env \<Rightarrow> Discoverer \<Rightarrow> string \<Rightarrow> MountConfig \<Rightarrow> world
    \<Rightarrow> (error option \<times> world) option" where
  "discoverVolumesAtPath env d class config w =
     (case getReclaimPolicyFromStorageClass env class w of
        Inl err \<Rightarrow> Some (Some (Wrapf ''failed to get ReclaimPolicy from storage class %q: %v'' [class] err), w)
      | Inr reclaimPolicy \<Rightarrow>
          if reclaimPolicy \<noteq> PersistentVolumeReclaimRetain \<and> reclaimPolicy \<noteq> PersistentVolumeReclaimDelete then
            Some (Some (Errorf ''unsupported ReclaimPolicy %q from storage class %q, supported policy are Retain and Delete''
                          [reclaimPolicy, class]), w)
          else
            (case vu_ReadDir (VolUtil env w) (mc_MountDir config) of
               Inl err \<Rightarrow> Some (Some (Wrapf ''error reading directory: %v'' [] err), w)
             | Inr files \<Rightarrow>
                 (case e_mounts env (w_trace w) of
                    Inl err \<Rightarrow> Some (Some (Wrapf ''error retrieving mountpoints: %v'' [] err), w)
                  | Inr mountPoints \<Rightarrow>
                      (case discover_files env d class config reclaimPolicy mountPoints files
                              \<lparr>dst_Errors = [], dst_BlockBytes = 0, dst_FSBytes = 0, dst_World = w\<rparr> of
                         None \<Rightarrow> None
                       | Some (Some err, st) \<Rightarrow> Some (Some err, dst_World st)
                       | Some (None, st) \<Rightarrow>
                           let w = emit (SetGauge PersistentVolumeCapacityBytes [PersistentVolumeBlock]
                                     (dst_BlockBytes st)) (dst_World st);
                               w = emit (SetGauge PersistentVolumeCapacityBytes [PersistentVolumeFilesystem]
                                     (dst_FSBytes st)) w in
                           Some (if dst_Errors st = [] then None
                                 else Some (Errors ''%d error(s) while discovering volumes: %v'' (dst_Errors st)), w)))))"

text \<open>The loop over the storage classes, in the order of the map's iteration.\<close>

fun discover_classes :: "env \<Rightarrow> Discoverer \<Rightarrow> (string, MountConfig) gomap \<Rightarrow> bool \<Rightarrow> world \<Rightarrow> (bool \<times> world) option" where
  "discover_classes env d [] readyz w = Some (readyz, w)"
| "discover_classes env d ((class, config) # rest) readyz w =
     (case discoverVolumesAtPath env d class config w of
        None \<Rightarrow> None
      | Some (err, w) \<Rightarrow> discover_classes env d rest (if err \<noteq> None then False else readyz) w)"

definition DiscoverLocalVolumes :: "env \<Rightarrow> Discoverer \<Rightarrow> world \<Rightarrow> (Discoverer \<times> world) option" where
  "DiscoverLocalVolumes env d w =
     (case discover_classes env d (uc_DiscoveryMap (ds_User d)) True w of
        None \<Rightarrow> None
      | Some (readyz, w) \<Rightarrow> Some (d\<lparr>ds_ready := readyz\<rparr>, w))"

section \<open>What is created\<close>

text \<open>The volume object discovery builds for file \<open>f\<close> of a class.\<close>

definition discovered_pv :: "Discoverer \<Rightarrow> string \<Rightarrow> MountConfig \<Rightarrow> string \<Rightarrow> string \<Rightarrow> persistent_volume \<Rightarrow> bool" where
  "discovered_pv d class config policy f pv \<longleftrightarrow>
     pv_Name pv = generatePVName f (node_Name (uc_Node (ds_User d))) class
     \<and> (\<exists>l. pvs_Local (pv_Spec pv) = Some l \<and> lvs_Path l = FJoin [mc_HostDir config, f]
          \<and> lvs_FSType l = (if mc_FsType config = [] then None else Some (mc_FsType config)))
     \<and> pvs_StorageClassName (pv_Spec pv) = class \<and> pvs_ReclaimPolicy (pv_Spec pv) = policy
     \<and> pvs_VolumeMode (pv_Spec pv) = Some (mc_VolumeMode config)
     \<and> pvs_AccessModes (pv_Spec pv) = [if mc_AccessMode config = [] then ReadWriteOnce else mc_AccessMode config]
     \<and> pvs_ClaimRef (pv_Spec pv) = None
     \<and> om_Labels (pv_Meta pv) = Some (ds_Labels d)
     \<and> label_get (om_Annotations (pv_Meta pv)) AnnProvisionedBy = Some (rc_Name (ds_RuntimeConfig d))
     \<and> (if uc_UseAlphaAPI (ds_User d) then pvs_NodeAffinity (pv_Spec pv) = None
        else pvs_NodeAffinity (pv_Spec pv) = Some (Some (ds_nodeSelector d @ mc_Selector config)))
     \<and> om_OwnerReferences (pv_Meta pv) =
         (if uc_SetPVOwnerRef (ds_User d) then [the (ds_ownerReference d)] else [])"

lemma with_affinity_fields:
  assumes "with_affinity env d config lp = Inr lp'"
  shows "\<exists>ann. lp' = (if uc_UseAlphaAPI (ds_User d) then lp\<lparr>lp_UseAlphaAPI := True, lp_AffinityAnn := ann\<rparr>
    else lp\<lparr>lp_NodeAffinity := Some (Some (ds_nodeSelector d @ mc_Selector config))\<rparr>)"
  using assms
  by (auto simp: with_affinity_def StorageNodeAffinityToAlphaAnnotation_def Let_def split: if_splits sum.splits option.splits)

lemma CreateLocalPVSpec_fields:
  assumes "CreateLocalPVSpec lp = Some pv"
  shows "pv_Name pv = lp_Name lp" "pvs_Local (pv_Spec pv) = Some \<lparr>lvs_Path = lp_HostPath lp, lvs_FSType = lp_FsType lp\<rparr>"
    "pvs_StorageClassName (pv_Spec pv) = lp_StorageClass lp" "pvs_ReclaimPolicy (pv_Spec pv) = lp_ReclaimPolicy lp"
    "pvs_VolumeMode (pv_Spec pv) = Some (lp_VolumeMode lp)"
    "pvs_AccessModes (pv_Spec pv) = [if lp_AccessMode lp = [] then ReadWriteOnce else lp_AccessMode lp]"
    "pvs_ClaimRef (pv_Spec pv) = None" "om_Labels (pv_Meta pv) = Some (lp_Labels lp)"
    "label_get (om_Annotations (pv_Meta pv)) AnnProvisionedBy = Some (lp_ProvisionerName lp)"
    "pvs_NodeAffinity (pv_Spec pv) = (if lp_UseAlphaAPI lp then None else lp_NodeAffinity lp)"
    "om_OwnerReferences (pv_Meta pv) = (if lp_SetPVOwnerRef lp then [the (lp_OwnerReference lp)] else [])"
    "gm_get (pvs_Capacity (pv_Spec pv)) ResourceStorage = Some (lp_Capacity lp)"
  using assms
  by (auto simp: CreateLocalPVSpec_def Let_def empty_meta_def split: if_splits option.splits)

lemma created_spec:
  assumes "with_affinity env d config (pv_config d f class policy opts config cap (mc_VolumeMode config)
      (if mc_AccessMode config \<noteq> [] then mc_AccessMode config else ReadWriteOnce)) = Inr lp"
    and "CreateLocalPVSpec (with_fstype config lp) = Some pv"
  shows "discovered_pv d class config policy f pv"
    "gm_get (pvs_Capacity (pv_Spec pv)) ResourceStorage = Some (roundDownCapacityPretty cap)"
proof -
  from with_affinity_fields[OF assms(1)] obtain ann where lp: "lp = (if uc_UseAlphaAPI (ds_User d)
      then (pv_config d f class policy opts config cap (mc_VolumeMode config)
        (if mc_AccessMode config \<noteq> [] then mc_AccessMode config else ReadWriteOnce))
        \<lparr>lp_UseAlphaAPI := True, lp_AffinityAnn := ann\<rparr>
      else (pv_config d f class policy opts config cap (mc_VolumeMode config)
        (if mc_AccessMode config \<noteq> [] then mc_AccessMode config else ReadWriteOnce))
        \<lparr>lp_NodeAffinity := Some (Some (ds_nodeSelector d @ mc_Selector config))\<rparr>)" ..
  show "discovered_pv d class config policy f pv"
    "gm_get (pvs_Capacity (pv_Spec pv)) ResourceStorage = Some (roundDownCapacityPretty cap)"
    unfolding discovered_pv_def CreateLocalPVSpec_fields[OF assms(2)]
    by (simp_all add: lp with_fstype_def pv_config_def)
qed

lemma createPV_cases:
  assumes "createPV env d f class policy opts config cap (mc_VolumeMode config)
      (if mc_AccessMode config \<noteq> [] then mc_AccessMode config else ReadWriteOnce) t0 w = Some (r, w')"
  obtains (early) e where "r = Some e" "w' = w"
  | (created) pv x w1 where "discovered_pv d class config policy f pv"
      "gm_get (pvs_Capacity (pv_Spec pv)) ResourceStorage = Some (roundDownCapacityPretty cap)"
      "CreatePV env pv w = (x, w1)" "r = None \<longleftrightarrow> x = None" "ext metric w1 w'"
      "w_Cache w' = w_Cache w1" "w_ProcTable w' = w_ProcTable w1"
proof (cases "with_affinity env d config (pv_config d f class policy opts config cap (mc_VolumeMode config)
      (if mc_AccessMode config \<noteq> [] then mc_AccessMode config else ReadWriteOnce))")
  case (Inl e)
  with assms have "r = Some e" "w' = w" by (simp_all add: createPV_def)
  then show ?thesis by (rule early)
next
  case (Inr lp)
  with assms obtain pv where pv: "CreateLocalPVSpec (with_fstype config lp) = Some pv"
    by (auto simp: createPV_def split: option.splits)
  obtain x w1 where c: "CreatePV env pv w = (x, w1)" by fastforce
  have "(r = None \<longleftrightarrow> x = None) \<and> ext metric w1 w' \<and> w_Cache w' = w_Cache w1 \<and> w_ProcTable w' = w_ProcTable w1"
    using assms Inr pv c by (auto simp: createPV_def Let_def split: option.splits)
  with created_spec[OF Inr pv] c show ?thesis using created by blast
qed

lemma createPV_total:
  assumes "uc_SetPVOwnerRef (ds_User d) \<Longrightarrow> ds_ownerReference d \<noteq> None"
  shows "createPV env d f class policy opts config cap vm am t0 w \<noteq> None"
proof (cases "with_affinity env d config (pv_config d f class policy opts config cap vm am)")
  case (Inr lp)
  from with_affinity_fields[OF Inr] assms have "CreateLocalPVSpec (with_fstype config lp) \<noteq> None"
    by (auto simp: CreateLocalPVSpec_def pv_config_def with_fstype_def Let_def split: if_splits option.splits)
  with Inr show ?thesis by (auto simp: createPV_def Let_def split: option.splits prod.splits)
qed (simp add: createPV_def)

section \<open>Effects of one file\<close>

text \<open>The effects of provisioning a new volume: metrics, and at most the creation of the object.\<close>

definition creates :: "Discoverer \<Rightarrow> string \<Rightarrow> MountConfig \<Rightarrow> string \<Rightarrow> string \<Rightarrow> effect \<Rightarrow> bool" where
  "creates d class config policy f e \<longleftrightarrow>
     (\<exists>pv x. e = Call (ReqCreatePV pv) x \<and> discovered_pv d class config policy f pv)"

lemma createPV_effects:
  assumes "createPV env d f class policy opts config cap (mc_VolumeMode config)
      (if mc_AccessMode config \<noteq> [] then mc_AccessMode config else ReadWriteOnce) t0 w = Some (r, w')"
  shows "ext (\<lambda>e. metric e \<or> creates d class config policy f e) w w'" "w_Cache w' = w_Cache w"
    "w_ProcTable w' = w_ProcTable w"
proof -
  have "ext (\<lambda>e. metric e \<or> creates d class config policy f e) w w' \<and> w_Cache w' = w_Cache w
    \<and> w_ProcTable w' = w_ProcTable w"
    using assms
  proof (cases rule: createPV_cases)
    case (created pv x w1)
    have "ext (\<lambda>e. metric e \<or> creates d class config policy f e) w w1"
      by (rule ext_mono[OF CreatePV_spec(3)[OF created(3)]]) (use created(1) in \<open>auto simp: creates_def\<close>)
    moreover have "ext (\<lambda>e. metric e \<or> creates d class config policy f e) w1 w'"
      by (rule ext_mono[OF created(5)]) simp
    ultimately show ?thesis using created(6,7) CreatePV_spec(1,2)[OF created(3)] by (auto intro: ext_trans)
  qed auto
  then show "ext (\<lambda>e. metric e \<or> creates d class config policy f e) w w'" "w_Cache w' = w_Cache w"
    "w_ProcTable w' = w_ProcTable w" by auto
qed

lemma probe_volume_world [simp]: "dst_World (snd (probe_volume env d config mps vm fp op st)) = dst_World st"
  by (auto simp: probe_volume_def Let_def split: sum.splits prod.splits option.splits)

lemma add_error_simps [simp]:
  "dst_World (add_error e st) = dst_World st" "dst_Errors (add_error e st) = dst_Errors st @ [e]"
  by (simp_all add: add_error_def)

lemma provision_new_effects:
  assumes "provision_new env d class config policy mps t0 f vm st = Some st'"
  shows "ext (\<lambda>e. metric e \<or> creates d class config policy f e) (dst_World st) (dst_World st')"
    "w_Cache (dst_World st') = w_Cache (dst_World st)" "w_ProcTable (dst_World st') = w_ProcTable (dst_World st)"
proof -
  let ?acc = "if mc_AccessMode config \<noteq> [] then mc_AccessMode config else ReadWriteOnce"
  have "dst_World st' = dst_World st \<or> (\<exists>opts cap r. createPV env d f class policy opts config cap
      (mc_VolumeMode config) ?acc t0 (dst_World st) = Some (r, dst_World st'))"
  proof (cases "getMountOptionsFromStorageClass env class (dst_World st)")
    case (Inl err)
    with assms show ?thesis by (auto simp: provision_new_def)
  next
    case (Inr opts)
    obtain c st1 where p: "probe_volume env d config mps vm (FJoin [mc_MountDir config, f])
        (FJoin [mc_HostDir config, f]) st = (c, st1)" by fastforce
    then have st1: "dst_World st1 = dst_World st" by (metis probe_volume_world snd_conv)
    show ?thesis
      using assms Inr p st1
      by (cases c) (auto simp: provision_new_def Let_def split: option.splits if_splits)
  qed
  then have "ext (\<lambda>e. metric e \<or> creates d class config policy f e) (dst_World st) (dst_World st')
    \<and> w_Cache (dst_World st') = w_Cache (dst_World st) \<and> w_ProcTable (dst_World st') = w_ProcTable (dst_World st)"
    using createPV_effects by fastforce
  then show "ext (\<lambda>e. metric e \<or> creates d class config policy f e) (dst_World st) (dst_World st')"
    "w_Cache (dst_World st') = w_Cache (dst_World st)" "w_ProcTable (dst_World st') = w_ProcTable (dst_World st)"
    by auto
qed

text \<open>The conditions under which a file reaches provisioning: its mode was determined, no cached
  volume has its name or its path, and no cleanup of it is in progress.\<close>

definition provisionable :: "env \<Rightarrow> Discoverer \<Rightarrow> string \<Rightarrow> MountConfig \<Rightarrow> string \<Rightarrow> world \<Rightarrow> string \<Rightarrow> bool" where
  "provisionable env d class config f w volMode \<longleftrightarrow>
     GetVolumeMode (e_goos env) (VolUtil env w) (FJoin [mc_MountDir config, f]) = Inr volMode
     \<and> GetPV (w_Cache w) (generatePVName f (node_Name (uc_Node (ds_User d))) class) = None
     \<and> LookupPVsByPath (w_Cache w) (FJoin [mc_HostDir config, f]) = []
     \<and> InProgress env (ds_CleanupTracker d) (generatePVName f (node_Name (uc_Node (ds_User d))) class)
         (volMode = PersistentVolumeBlock \<and> uc_UseJobForCleaning (ds_User d)) w = Some False"

lemma discover_file_cases:
  assumes "discover_file env d class config policy mps f st = Some st'"
  obtains (skip) "w_Cache (dst_World st') = w_Cache (dst_World st)"
      "w_ProcTable (dst_World st') = w_ProcTable (dst_World st)" "ext quiet (dst_World st) (dst_World st')"
  | (no_status) vm s t e where "provisionable env d class config f (dst_World st) vm"
      "RemoveStatus env (ds_CleanupTracker d) (generatePVName f (node_Name (uc_Node (ds_User d))) class)
         (vm = PersistentVolumeBlock \<and> uc_UseJobForCleaning (ds_User d)) (dst_World st)
         = Some ((s, t, Some e), dst_World st')"
  | (new) vm s t w1 where "provisionable env d class config f (dst_World st) vm"
      "RemoveStatus env (ds_CleanupTracker d) (generatePVName f (node_Name (uc_Node (ds_User d))) class)
         (vm = PersistentVolumeBlock \<and> uc_UseJobForCleaning (ds_User d)) (dst_World st) = Some ((s, t, None), w1)"
      "provision_new env d class config policy mps (Now env (dst_World st)) f vm (st\<lparr>dst_World := w1\<rparr>) = Some st'"
proof (cases "\<exists>vm. provisionable env d class config f (dst_World st) vm")
  case True
  then obtain vm where p: "provisionable env d class config f (dst_World st) vm" by blast
  let ?n = "generatePVName f (node_Name (uc_Node (ds_User d))) class"
  let ?j = "vm = PersistentVolumeBlock \<and> uc_UseJobForCleaning (ds_User d)"
  from p assms have eq: "(case RemoveStatus env (ds_CleanupTracker d) ?n ?j (dst_World st) of
        None \<Rightarrow> None
      | Some ((_, _, Some err), w) \<Rightarrow> Some (st\<lparr>dst_World := w\<rparr>)
      | Some ((_, _, None), w) \<Rightarrow>
          provision_new env d class config policy mps (Now env (dst_World st)) f vm (st\<lparr>dst_World := w\<rparr>)) = Some st'"
    unfolding provisionable_def discover_file_def by (simp add: Let_def)
  show ?thesis
  proof (cases "RemoveStatus env (ds_CleanupTracker d) ?n ?j (dst_World st)")
    case None
    with eq show ?thesis by simp
  next
    case (Some r)
    obtain s t e w1 where r: "r = ((s, t, e), w1)" by (metis surj_pair)
    show ?thesis
    proof (cases e)
      case None
      with eq Some r p show ?thesis by (intro new[OF p]) simp_all
    next
      case (Some err)
      with eq \<open>RemoveStatus _ _ _ _ _ = Some r\<close> r have "dst_World st' = w1" by auto
      with Some \<open>RemoveStatus _ _ _ _ _ = Some r\<close> r p show ?thesis by (intro no_status[OF p]) simp
    qed
  qed
next
  case False
  with assms have "w_Cache (dst_World st') = w_Cache (dst_World st)
      \<and> w_ProcTable (dst_World st') = w_ProcTable (dst_World st) \<and> ext quiet (dst_World st) (dst_World st')"
    by (auto simp: discover_file_def provisionable_def Let_def split: sum.splits option.splits if_splits bool.splits)
  then show ?thesis using skip by blast
qed

section \<open>Effects of a pass\<close>

text \<open>What a pass that starts in \<open>w0\<close> may do once its log is \<open>tr\<close>: metrics and events, removing a finished
  cleaning job, and creating a volume that is neither cached by name or path nor being cleaned. How the
  volume would be cleaned, and whether it is, was found at a moment \<open>w1\<close> of the pass before: a block
  device of a configuration with jobs by its job, anything else by a process.\<close>

definition not_cleaned :: "env \<Rightarrow> Discoverer \<Rightarrow> MountConfig \<Rightarrow> string \<Rightarrow> string \<Rightarrow> world \<Rightarrow> world \<Rightarrow> bool" where
  "not_cleaned env d config f name w0 w1 \<longleftrightarrow>
     (\<exists>mode. GetVolumeMode (e_goos env) (VolUtil env w1) (FJoin [mc_MountDir config, f]) = Inr mode
        \<and> (if mode = PersistentVolumeBlock \<and> uc_UseJobForCleaning (ds_User d)
           then \<exists>ns. ct_JobController (ds_CleanupTracker d) = Some ns \<and> \<not> IsCleaningJobRunning env ns name w1
           else name \<notin> running_set (w_ProcTable w0)))"

definition creation_ok :: "env \<Rightarrow> Discoverer \<Rightarrow> world \<Rightarrow> trace \<Rightarrow> persistent_volume \<Rightarrow> bool" where
  "creation_ok env d w0 tr pv \<longleftrightarrow>
     (\<exists>class config policy f. (class, config) \<in> set (uc_DiscoveryMap (ds_User d))
        \<and> policy \<in> {PersistentVolumeReclaimRetain, PersistentVolumeReclaimDelete}
        \<and> discovered_pv d class config policy f pv
        \<and> LookupPVsByPath (w_Cache w0) (FJoin [mc_HostDir config, f]) = []
        \<and> (\<exists>w1. prefix (w_trace w0) (w_trace w1) \<and> prefix (w_trace w1) tr \<and> not_cleaned env d config f (pv_Name pv) w0 w1))
     \<and> GetPV (w_Cache w0) (pv_Name pv) = None"

lemma creation_ok_later: "creation_ok env d w0 tr pv \<Longrightarrow> prefix tr tr' \<Longrightarrow> creation_ok env d w0 tr' pv"
  unfolding creation_ok_def by (blast intro: prefix_order.trans)

definition disc_effect :: "env \<Rightarrow> Discoverer \<Rightarrow> world \<Rightarrow> trace \<Rightarrow> effect \<Rightarrow> bool" where
  "disc_effect env d w0 tr e \<longleftrightarrow> quiet e
     \<or> (\<exists>n ns x. e = Call (ReqDeleteJob (generateCleaningJobName n) ns) x)
     \<or> (\<exists>pv x. e = Call (ReqCreatePV pv) x \<and> creation_ok env d w0 tr pv)"

lemma disc_effect_later: "disc_effect env d w0 tr e \<Longrightarrow> prefix tr tr' \<Longrightarrow> disc_effect env d w0 tr' e"
  unfolding disc_effect_def using creation_ok_later by blast

text \<open>Every entry the pass has added to the log was right when it was added.\<close>

definition pass_log :: "env \<Rightarrow> Discoverer \<Rightarrow> world \<Rightarrow> trace \<Rightarrow> bool" where
  "pass_log env d w0 tr \<longleftrightarrow> (\<exists>es. tr = w_trace w0 @ es
     \<and> (\<forall>xs e ys. es = xs @ e # ys \<longrightarrow> disc_effect env d w0 (w_trace w0 @ xs) e))"

lemma pass_log_start [simp]: "pass_log env d w0 (w_trace w0)"
  by (simp add: pass_log_def)

lemma pass_log_snoc:
  assumes "pass_log env d w0 tr" "disc_effect env d w0 tr e"
  shows "pass_log env d w0 (tr @ [e])"
proof -
  from assms(1) obtain es where es: "tr = w_trace w0 @ es"
    and ok: "\<And>xs e ys. es = xs @ e # ys \<Longrightarrow> disc_effect env d w0 (w_trace w0 @ xs) e" unfolding pass_log_def by blast
  have "disc_effect env d w0 (w_trace w0 @ xs) e'" if "es @ [e] = xs @ e' # ys" for xs e' ys
    using that ok assms(2) es by (cases ys rule: rev_cases) auto
  with es show ?thesis unfolding pass_log_def by (intro exI[of _ "es @ [e]"]) simp
qed

lemma pass_log_append:
  assumes "pass_log env d w0 tr" "list_all (disc_effect env d w0 tr) es"
  shows "pass_log env d w0 (tr @ es)"
  using assms(2)
proof (induction es rule: rev_induct)
  case (snoc e es)
  then have "pass_log env d w0 (tr @ es)" "disc_effect env d w0 (tr @ es) e" by (auto intro: disc_effect_later)
  from pass_log_snoc[OF this] show ?case by simp
qed (simp add: assms(1))

definition pass_inv :: "env \<Rightarrow> Discoverer \<Rightarrow> world \<Rightarrow> world \<Rightarrow> bool" where
  "pass_inv env d w0 w \<longleftrightarrow> w_Cache w = w_Cache w0 \<and> pt_inv (w_ProcTable w)
     \<and> running_set (w_ProcTable w) = running_set (w_ProcTable w0) \<and> pass_log env d w0 (w_trace w)"

lemma pass_log_ext:
  assumes "pass_log env d w0 (w_trace w)" "\<And>tr e. disc_effect env d w0 tr e \<Longrightarrow> P e"
  shows "ext P w0 w"
  using assms unfolding pass_log_def ext_def list_all_iff by (metis split_list)

lemma pass_inv_prefix: "pass_inv env d w0 w \<Longrightarrow> prefix (w_trace w0) (w_trace w)"
  by (auto simp: pass_inv_def pass_log_def)

lemma pass_inv_step:
  assumes "pass_inv env d w0 w" "w_Cache w' = w_Cache w" "pt_inv (w_ProcTable w')"
    "running_set (w_ProcTable w') = running_set (w_ProcTable w)" "ext (disc_effect env d w0 (w_trace w)) w w'"
  shows "pass_inv env d w0 w'"
  using assms pass_log_append[of env d w0 "w_trace w"] by (auto simp: pass_inv_def ext_def)

lemma pass_inv_emit: "pass_inv env d w0 w \<Longrightarrow> quiet e \<Longrightarrow> pass_inv env d w0 (emit e w)"
  using pass_log_snoc[of env d w0 "w_trace w" e] by (simp add: pass_inv_def disc_effect_def)

lemma RemoveStatus_pass:
  assumes "RemoveStatus env c n j w = Some ((s, t, e), w')" "pt_inv (w_ProcTable w)" "jobs_named env"
  shows "running_set (w_ProcTable w') = running_set (w_ProcTable w)"
    "ext (\<lambda>e. \<exists>ns x. e = Call (ReqDeleteJob (generateCleaningJobName n) ns) x) w w'"
proof -
  have "running_set (w_ProcTable w') = running_set (w_ProcTable w)
    \<and> ext (\<lambda>e. \<exists>ns x. e = Call (ReqDeleteJob (generateCleaningJobName n) ns) x) w w'"
  proof (cases j)
    case True
    with assms(1) obtain ns where r: "RemoveJob env ns n w = ((s, t, e), w')" by (auto elim: RemoveStatus_job)
    have "ext (\<lambda>e. \<exists>ns x. e = Call (ReqDeleteJob (generateCleaningJobName n) ns) x) w w'"
      by (rule ext_mono[OF RemoveJob_effects(3)[OF r]]) (use assms(3) in \<open>auto simp: jobs_named_def\<close>)
    with RemoveJob_effects(2)[OF r] show ?thesis by simp
  next
    case False
    with assms(1) have r: "RemoveStatus env c n False w = Some ((s, t, e), w')" by simp
    from RemoveEntry_running_set[OF assms(2) RemoveStatus_process(1)[OF r]] RemoveStatus_process(3)[OF r]
    show ?thesis by (simp add: ext_def)
  qed
  then show "running_set (w_ProcTable w') = running_set (w_ProcTable w)"
    "ext (\<lambda>e. \<exists>ns x. e = Call (ReqDeleteJob (generateCleaningJobName n) ns) x) w w'" by auto
qed

lemma provisionable_creation_ok:
  assumes "provisionable env d class config f w vm" "pass_inv env d w0 w" "discovered_pv d class config policy f pv"
    "(class, config) \<in> set (uc_DiscoveryMap (ds_User d))"
    "policy \<in> {PersistentVolumeReclaimRetain, PersistentVolumeReclaimDelete}"
  shows "creation_ok env d w0 (w_trace w) pv"
proof -
  let ?n = "pv_Name pv"
  have n: "?n = generatePVName f (node_Name (uc_Node (ds_User d))) class" using assms(3) by (simp add: discovered_pv_def)
  have c: "w_Cache w = w_Cache w0" "running_set (w_ProcTable w) = running_set (w_ProcTable w0)"
    using assms(2) by (simp_all add: pass_inv_def)
  have "not_cleaned env d config f ?n w0 w"
    using assms(1) unfolding not_cleaned_def c(2)[symmetric]
    by (auto simp: provisionable_def InProgress_def IsRunning_view n split: if_splits option.splits)
  moreover have "prefix (w_trace w) (w_trace w)" by simp
  moreover note pass_inv_prefix[OF assms(2)]
  moreover have "LookupPVsByPath (w_Cache w0) (FJoin [mc_HostDir config, f]) = []" "GetPV (w_Cache w0) ?n = None"
    using assms(1) by (simp_all add: provisionable_def c(1) n)
  ultimately show ?thesis unfolding creation_ok_def using assms(3-5) by (intro conjI exI)
qed

lemma discover_file_pass:
  assumes "discover_file env d class config policy mps f st = Some st'" "jobs_named env"
    "pass_inv env d w0 (dst_World st)" "(class, config) \<in> set (uc_DiscoveryMap (ds_User d))"
    "policy \<in> {PersistentVolumeReclaimRetain, PersistentVolumeReclaimDelete}"
  shows "pass_inv env d w0 (dst_World st')"
  using assms(1)
proof (cases rule: discover_file_cases)
  case skip
  from skip(3) have "ext (disc_effect env d w0 (w_trace (dst_World st))) (dst_World st) (dst_World st')"
    by (rule ext_mono) (simp add: disc_effect_def)
  with skip assms(3) show ?thesis by (intro pass_inv_step[OF assms(3)]) (auto simp: pass_inv_def)
next
  case (no_status vm s t e)
  have pt: "pt_inv (w_ProcTable (dst_World st))" using assms(3) by (simp add: pass_inv_def)
  note r = RemoveStatus_pass[OF no_status(2) pt assms(2)] RemoveStatus_effects(2,3)[OF no_status(2) assms(2) pt]
  show ?thesis
    by (rule pass_inv_step[OF assms(3) r(3,4,1) ext_mono[OF r(2)]]) (auto simp: disc_effect_def)
next
  case (new vm s t w1)
  have pt: "pt_inv (w_ProcTable (dst_World st))" using assms(3) by (simp add: pass_inv_def)
  note r = RemoveStatus_pass[OF new(2) pt assms(2)] RemoveStatus_effects(2,3)[OF new(2) assms(2) pt]
  note p = provision_new_effects[OF new(3), simplified]
  have w1: "pass_inv env d w0 w1"
    by (rule pass_inv_step[OF assms(3) r(3,4,1) ext_mono[OF r(2)]]) (auto simp: disc_effect_def)
  have w1': "prefix (w_trace (dst_World st)) (w_trace w1)" using r(2) by (rule ext_prefix)
  have "disc_effect env d w0 (w_trace w1) e" if "metric e \<or> creates d class config policy f e" for e
    using that creation_ok_later[OF provisionable_creation_ok[OF new(1) assms(3) _ assms(4,5)] w1']
    by (auto simp: disc_effect_def creates_def metric_quiet)
  with p w1 show ?thesis
    by (intro pass_inv_step[OF w1]) (auto simp: pass_inv_def elim!: ext_mono)
qed

lemma discover_files_pass:
  assumes "jobs_named env" "(class, config) \<in> set (uc_DiscoveryMap (ds_User d))"
    "policy \<in> {PersistentVolumeReclaimRetain, PersistentVolumeReclaimDelete}"
  shows "discover_files env d class config policy mps fs st = Some (r, st') \<Longrightarrow> pass_inv env d w0 (dst_World st)
    \<Longrightarrow> pass_inv env d w0 (dst_World st')"
proof (induction fs arbitrary: st)
  case (Cons f fs)
  then show ?case
    using discover_file_pass[OF _ assms(1) _ assms(2,3)]
    by (auto split: sum.splits bool.splits option.splits)
qed simp

lemma discoverVolumesAtPath_pass:
  assumes "discoverVolumesAtPath env d class config w = Some (r, w')" "jobs_named env"
    "(class, config) \<in> set (uc_DiscoveryMap (ds_User d))" "pass_inv env d w0 w"
  shows "pass_inv env d w0 w'"
proof -
  have "r \<noteq> None \<and> w' = w \<or> (\<exists>policy mps fs e st. policy \<in> {PersistentVolumeReclaimRetain, PersistentVolumeReclaimDelete}
      \<and> discover_files env d class config policy mps fs
          \<lparr>dst_Errors = [], dst_BlockBytes = 0, dst_FSBytes = 0, dst_World = w\<rparr> = Some (e, st)
      \<and> (w' = dst_World st \<or> (\<exists>a b. w' = emit (SetGauge PersistentVolumeCapacityBytes [PersistentVolumeFilesystem] b)
           (emit (SetGauge PersistentVolumeCapacityBytes [PersistentVolumeBlock] a) (dst_World st)))))"
    using assms(1) unfolding discoverVolumesAtPath_def
    by (fastforce simp: Let_def split: sum.splits if_splits option.splits)
  then show ?thesis
    using assms(4) discover_files_pass[OF assms(2,3)]
    by (fastforce intro!: pass_inv_emit)
qed

lemma discover_classes_pass:
  assumes "jobs_named env"
  shows "discover_classes env d cs ready w = Some (r, w') \<Longrightarrow> set cs \<subseteq> set (uc_DiscoveryMap (ds_User d)) \<Longrightarrow>
    pass_inv env d w0 w \<Longrightarrow> pass_inv env d w0 w'"
proof (induction cs arbitrary: ready w)
  case (Cons c cs)
  then show ?case
    using discoverVolumesAtPath_pass[OF _ assms]
    by (cases c) (auto split: option.splits)
qed simp

section \<open>Totality\<close>

lemma discover_file_total:
  assumes "uc_UseJobForCleaning (ds_User d) \<Longrightarrow> ct_JobController (ds_CleanupTracker d) \<noteq> None"
    and "uc_SetPVOwnerRef (ds_User d) \<Longrightarrow> ds_ownerReference d \<noteq> None"
  shows "discover_file env d class config policy mps f st \<noteq> None"
proof -
  have ip: "InProgress env (ds_CleanupTracker d) n (vm = PersistentVolumeBlock \<and> uc_UseJobForCleaning (ds_User d)) w \<noteq> None" for n vm w
    using assms(1) by (auto simp: InProgress_def split: option.splits)
  have cp: "createPV env d f class policy opts config cap vm am t0 w = None \<longleftrightarrow> False" for opts cap vm am t0 w
    using createPV_total[OF assms(2)] by simp
  have pn: "provision_new env d class config policy mps t0 f vm st1 = None \<longleftrightarrow> False" for t0 vm st1
    by (auto simp: provision_new_def Let_def cp split: sum.splits prod.splits option.splits)
  have ip': "InProgress env (ds_CleanupTracker d) n (vm = PersistentVolumeBlock \<and> uc_UseJobForCleaning (ds_User d)) w = None \<longleftrightarrow> False" for n vm w
    using ip by simp
  show ?thesis
    unfolding discover_file_def Let_def
    by (auto simp: ip' pn RemoveStatus_None simp del: not_None_eq split: sum.splits option.splits bool.splits)
qed

lemma discover_files_total:
  assumes "uc_UseJobForCleaning (ds_User d) \<Longrightarrow> ct_JobController (ds_CleanupTracker d) \<noteq> None"
    and "uc_SetPVOwnerRef (ds_User d) \<Longrightarrow> ds_ownerReference d \<noteq> None"
  shows "discover_files env d class config policy mps fs st \<noteq> None"
proof (induction fs arbitrary: st)
  case (Cons f fs)
  with discover_file_total[OF assms, of env "class" config policy mps f st] show ?case
    by (auto split: sum.splits bool.splits option.splits)
qed simp

lemma discoverVolumesAtPath_total:
  assumes "uc_UseJobForCleaning (ds_User d) \<Longrightarrow> ct_JobController (ds_CleanupTracker d) \<noteq> None"
    and "uc_SetPVOwnerRef (ds_User d) \<Longrightarrow> ds_ownerReference d \<noteq> None"
  shows "discoverVolumesAtPath env d class config w \<noteq> None"
proof -
  have df: "discover_files env d class config policy mps fs st = None \<longleftrightarrow> False" for policy mps fs st
    using discover_files_total[OF assms] by simp
  show ?thesis by (auto simp: discoverVolumesAtPath_def Let_def df split: sum.splits option.splits)
qed

text \<open>The outcome of each class, in the order of the pass.\<close>

fun class_outcomes :: "env \<Rightarrow> Discoverer \<Rightarrow> (string, MountConfig) gomap \<Rightarrow> world \<Rightarrow> error option list" where
  "class_outcomes env d [] w = []"
| "class_outcomes env d ((class, config) # cs) w =
     (case discoverVolumesAtPath env d class config w of
        None \<Rightarrow> []
      | Some (err, w') \<Rightarrow> err # class_outcomes env d cs w')"

lemma discover_classes_ready:
  assumes "uc_UseJobForCleaning (ds_User d) \<Longrightarrow> ct_JobController (ds_CleanupTracker d) \<noteq> None"
    and "uc_SetPVOwnerRef (ds_User d) \<Longrightarrow> ds_ownerReference d \<noteq> None"
  shows "\<exists>w'. discover_classes env d cs ready w = Some (ready \<and> list_all (\<lambda>e. e = None) (class_outcomes env d cs w), w')
    \<and> length (class_outcomes env d cs w) = length cs"
proof (induction cs arbitrary: ready w)
  case (Cons c cs)
  obtain cl config where c: "c = (cl, config)" by fastforce
  obtain err w1 where d: "discoverVolumesAtPath env d cl config w = Some (err, w1)"
    using discoverVolumesAtPath_total[OF assms, of env cl config w] by fastforce
  from Cons[of "if err \<noteq> None then False else ready" w1] show ?case by (auto simp: c d)
qed simp

lemma DiscoverLocalVolumes_total:
  assumes "uc_UseJobForCleaning (ds_User d) \<Longrightarrow> ct_JobController (ds_CleanupTracker d) \<noteq> None"
    and "uc_SetPVOwnerRef (ds_User d) \<Longrightarrow> ds_ownerReference d \<noteq> None"
  shows "\<exists>d' w'. DiscoverLocalVolumes env d w = Some (d', w')"
  using discover_classes_ready[OF assms, of env "uc_DiscoveryMap (ds_User d)" True w]
  by (auto simp: DiscoverLocalVolumes_def)

section \<open>Properties\<close>

text \<open>C5. Discovery never publishes a volume that is in use or being cleaned: every object created in
  a pass is the volume of a file of a configured class with reclaim policy Retain or Delete, no
  cached object has its name or its path, and it is not being cleaned: at an earlier moment of the
  pass its path was found to be a block device in a configuration that cleans by jobs, and then its
  job was seen as absent or finished at that moment, or it was found to be something else, and then
  no cleanup process of it is running throughout the pass. A pass changes neither the cache nor
  which cleanups are running, and its only other requests remove finished cleaning jobs.\<close>

theorem discovery_creates_only_free_volumes:
  assumes "DiscoverLocalVolumes env d w = Some (d', w')" and "pt_inv (w_ProcTable w)" and "jobs_named env"
  shows "\<exists>es. w_trace w' = w_trace w @ es
    \<and> (\<forall>xs e ys. es = xs @ e # ys \<longrightarrow> quiet e \<or> (\<exists>n ns x. e = Call (ReqDeleteJob (generateCleaningJobName n) ns) x)
         \<or> (\<exists>pv x. e = Call (ReqCreatePV pv) x \<and> creation_ok env d w (w_trace w @ xs) pv))
    \<and> w_Cache w' = w_Cache w \<and> running_set (w_ProcTable w') = running_set (w_ProcTable w)"
proof -
  from assms(1) obtain r where "discover_classes env d (uc_DiscoveryMap (ds_User d)) True w = Some (r, w')"
    by (auto simp: DiscoverLocalVolumes_def split: option.splits)
  from discover_classes_pass[OF assms(3) this, of w] assms(2)
  have "pass_inv env d w w'" by (simp add: pass_inv_def)
  then show ?thesis by (simp add: pass_inv_def pass_log_def disc_effect_def)
qed

text \<open>C23. Readiness follows the last pass, whatever passes came before: a new discoverer is not ready;
  a pass of one that has its job controller always completes, whether the passes before it left it
  ready or not; afterwards it is the same discoverer but for its readiness, so that the statement
  applies to the next pass, and it is ready exactly if every configured class was discovered
  without any error in this pass.\<close>

theorem readiness_reflects_last_pass:
  assumes "NewDiscoverer config tracker = Inr d"
    and "uc_UseJobForCleaning (rc_UserConfig config) \<longrightarrow> ct_JobController tracker \<noteq> None"
  shows "Check d \<noteq> None
    \<and> (let now = d\<lparr>ds_ready := before\<rparr>; outcomes = class_outcomes env now (uc_DiscoveryMap (rc_UserConfig config)) w in
       \<exists>ready w'. DiscoverLocalVolumes env now w = Some (d\<lparr>ds_ready := ready\<rparr>, w')
         \<and> (Check (d\<lparr>ds_ready := ready\<rparr>) = None \<longleftrightarrow> (\<forall>e\<in>set outcomes. e = None))
         \<and> length outcomes = length (uc_DiscoveryMap (rc_UserConfig config)))"
proof -
  from assms(1) have d: "ds_RuntimeConfig d = config" "ds_CleanupTracker d = tracker"
    "ds_ownerReference d \<noteq> None" "\<not> ds_ready d"
    by (auto simp: NewDiscoverer_def Let_def split: sum.splits)
  let ?d = "d\<lparr>ds_ready := before\<rparr>" and ?m = "uc_DiscoveryMap (rc_UserConfig config)"
  have "\<exists>w'. discover_classes env ?d ?m True w = Some (True \<and> list_all (\<lambda>e. e = None) (class_outcomes env ?d ?m w), w')
      \<and> length (class_outcomes env ?d ?m w) = length ?m"
    by (rule discover_classes_ready) (use d assms(2) in simp_all)
  then obtain w' where c: "discover_classes env ?d ?m True w = Some (list_all (\<lambda>e. e = None) (class_outcomes env ?d ?m w), w')"
    and l: "length (class_outcomes env ?d ?m w) = length ?m" by (elim exE conjE) simp
  let ?r = "list_all (\<lambda>e. e = None) (class_outcomes env ?d ?m w)"
  have "DiscoverLocalVolumes env ?d w = Some (d\<lparr>ds_ready := ?r\<rparr>, w')" by (simp add: DiscoverLocalVolumes_def d c)
  moreover have "Check (d\<lparr>ds_ready := ?r\<rparr>) = None \<longleftrightarrow> (\<forall>e\<in>set (class_outcomes env ?d ?m w). e = None)"
    by (simp add: Check_def list_all_iff)
  moreover have "Check d \<noteq> None" using d(4) by (simp add: Check_def)
  ultimately show ?thesis unfolding Let_def using l by (intro conjI exI)
qed

definition ex_fs_mount :: MountConfig where
  "ex_fs_mount = ex_mount\<lparr>mc_VolumeMode := PersistentVolumeFilesystem, mc_NamePattern := ''*''\<rparr>"

definition ex_disc_rc :: "(string, MountConfig) gomap \<Rightarrow> RuntimeConfig" where
  "ex_disc_rc m = ex_rc\<lparr>rc_UserConfig := ex_user\<lparr>uc_DiscoveryMap := m\<rparr>\<rparr>"

definition ex_disc :: "(string, MountConfig) gomap \<Rightarrow> Discoverer" where
  "ex_disc m = \<lparr>ds_RuntimeConfig = ex_disc_rc m, ds_Labels = [], ds_CleanupTracker = \<lparr>ct_JobController = None\<rparr>,
     ds_nodeSelector = [\<lparr>nst_MatchExpressions = [\<lparr>nsr_Key = NodeLabelKey, nsr_Operator = NodeSelectorOpIn,
        nsr_Values = [''n1'']\<rparr>]\<rparr>],
     ds_ownerReference = Some \<lparr>or_Kind = ''Node'', or_APIVersion = ''v1'', or_Name = ''n1'', or_UID = ''n1-uid''\<rparr>,
     ds_ready = False\<rparr>"

lemma ex_disc_new: "NewDiscoverer (ex_disc_rc m) \<lparr>ct_JobController = None\<rparr> = Inr (ex_disc m)"
  by (simp add: NewDiscoverer_def ex_disc_def ex_disc_rc_def ex_rc_def ex_user_def ex_node_def empty_meta_def
      generateOwnerReference_def generateNodeSelector_def Let_def)

text \<open>A discoverer that was ready, in a pass that finds no storage class object.\<close>

theorem readiness_reflects_last_pass_witness:
  "\<exists>ready w'. DiscoverLocalVolumes (ex_env\<lparr>e_classes := \<lambda>_. indexer_lister []\<rparr>)
      ((ex_disc [(''fast'', ex_fs_mount)])\<lparr>ds_ready := True\<rparr>) ex_world = Some ((ex_disc [(''fast'', ex_fs_mount)])\<lparr>ds_ready := ready\<rparr>, w')
    \<and> Check ((ex_disc [(''fast'', ex_fs_mount)])\<lparr>ds_ready := ready\<rparr>) \<noteq> None"
proof -
  let ?env = "ex_env\<lparr>e_classes := \<lambda>_. indexer_lister []\<rparr>" and ?m = "[(''fast'', ex_fs_mount)]"
  have "\<exists>e. class_outcomes ?env ((ex_disc ?m)\<lparr>ds_ready := True\<rparr>) ?m ex_world = [Some e]"
    by (simp add: discoverVolumesAtPath_def getReclaimPolicyFromStorageClass_def indexer_lister_def indexer_Get_def)
  moreover have "uc_DiscoveryMap (rc_UserConfig (ex_disc_rc ?m)) = ?m" "\<not> uc_UseJobForCleaning (rc_UserConfig (ex_disc_rc ?m))"
    by (simp_all add: ex_disc_rc_def ex_user_def)
  ultimately show ?thesis
    using readiness_reflects_last_pass[OF ex_disc_new[of ?m], of True ?env ex_world] unfolding Let_def
    by (elim exE conjE) (fastforce simp del: class_outcomes.simps)
qed

text \<open>C30. Capacities are rounded down to a readable unit without losing a tenth of the volume: for
  every non-negative 64-bit size the result is a 64-bit size not above it; from 10 MiB on the
  loss is below one tenth of the size and the result is a whole number of MiB, from 10 GiB on a
  whole number of GiB; smaller sizes are unchanged.\<close>

theorem round_down_capacity_bounds:
  assumes "0 \<le> c" and "int64 c"
  shows "0 \<le> roundDownCapacityPretty c \<and> roundDownCapacityPretty c \<le> c \<and> int64 (roundDownCapacityPretty c)
    \<and> (10 * MiB \<le> c \<longrightarrow> MiB dvd roundDownCapacityPretty c \<and> 10 * (c - roundDownCapacityPretty c) < c)
    \<and> (10 * GiB \<le> c \<longrightarrow> GiB dvd roundDownCapacityPretty c)
    \<and> (c < 10 * MiB \<longrightarrow> roundDownCapacityPretty c = c)"
proof -
  have bounds: "0 \<le> c div u * u \<and> c div u * u \<le> c \<and> c < c div u * u + u" if "0 < u" for u :: int
    using assms(1) that pos_mod_sign[of u c] pos_mod_bound[of u c]
    by (simp add: minus_mod_eq_div_mult[symmetric] pos_imp_zdiv_nonneg_iff zmod_le_nonneg_dividend)
  have w: "wrap64 (c div u * u) = c div u * u" if "0 < u" for u :: int
    using bounds[OF that] assms(2) by (intro wrap64_int64) (simp add: int64_def)
  have q: "quot64 c u = c div u" if "0 < u" for u using assms(1) that by (rule quot64_nonneg)
  have dg: "10 \<le> c div GiB \<longleftrightarrow> 10 * GiB \<le> c" and dm: "10 \<le> c div MiB \<longleftrightarrow> 10 * MiB \<le> c"
    by linarith+
  have eq: "roundDownCapacityPretty c = (if 10 * GiB \<le> c then c div GiB * GiB
      else if 10 * MiB \<le> c then c div MiB * MiB else c)"
    using dg dm w[of GiB] w[of MiB] by (simp add: roundDownCapacityPretty_def q Let_def)
  have "MiB dvd c div GiB * GiB" by (simp add: dvd_mult)
  then show ?thesis
    using bounds[of GiB] bounds[of MiB] assms by (auto simp: eq int64_def)
qed

theorem round_down_capacity_bounds_witness:
  "roundDownCapacityPretty 107374182401 \<le> 107374182401 \<and> GiB dvd roundDownCapacityPretty 107374182401"
  using round_down_capacity_bounds[of 107374182401] by (simp add: int64_def)

theorem discovery_creates_only_free_volumes_witness:
  "\<exists>es. w_trace (snd (the (DiscoverLocalVolumes ex_env (ex_disc [(''fast'', ex_fs_mount)]) ex_world)))
      = w_trace ex_world @ es
    \<and> (\<forall>xs e ys. es = xs @ e # ys \<longrightarrow> quiet e \<or> (\<exists>n ns x. e = Call (ReqDeleteJob (generateCleaningJobName n) ns) x)
         \<or> (\<exists>pv x. e = Call (ReqCreatePV pv) x \<and> creation_ok ex_env (ex_disc [(''fast'', ex_fs_mount)]) ex_world (w_trace ex_world @ xs) pv))
    \<and> w_Cache (snd (the (DiscoverLocalVolumes ex_env (ex_disc [(''fast'', ex_fs_mount)]) ex_world))) = w_Cache ex_world
    \<and> running_set (w_ProcTable (snd (the (DiscoverLocalVolumes ex_env (ex_disc [(''fast'', ex_fs_mount)]) ex_world))))
        = running_set (w_ProcTable ex_world)"
proof (rule discovery_creates_only_free_volumes)
  let ?r = "DiscoverLocalVolumes ex_env (ex_disc [(''fast'', ex_fs_mount)]) ex_world"
  have "\<exists>d' w'. ?r = Some (d', w')"
    by (rule DiscoverLocalVolumes_total) (simp_all add: ex_disc_def ex_disc_rc_def ex_user_def)
  then show "?r = Some (fst (the ?r), snd (the ?r))" by auto
qed (simp_all add: ex_world_def pt_inv_def NewProcTable_def jobs_named_def ex_env_def)

section \<open>Name patterns\<close>

text \<open>A pattern of literal characters, with or without a trailing star.\<close>

definition simple_pattern :: "string \<times> bool \<Rightarrow> string" where
  "simple_pattern p = (if snd p then fst p @ ''*'' else fst p)"

definition simple_match :: "string \<times> bool \<Rightarrow> string \<Rightarrow> bool" where
  "simple_match p f = (if snd p then prefix (fst p) f else f = fst p)"

lemma Match_simple:
  assumes "literal (fst p)" "CHR ''/'' \<notin> set f"
  shows "Match goos (simple_pattern p) f = Inr (simple_match p f)"
  using assms Match_literal[OF assms(1)] Match_literal_star[OF assms(1)]
  by (auto simp: simple_pattern_def simple_match_def dest: in_set_dropD)

lemma match_patterns_simple:
  assumes "\<forall>p\<in>set ps. literal (fst p) \<and> simple_pattern p \<noteq> []" "CHR ''/'' \<notin> set f"
  shows "match_patterns goos (map simple_pattern ps) f b = Inr (if ps = [] then b else \<exists>p\<in>set ps. simple_match p f)"
  using assms
proof (induction ps arbitrary: b)
  case (Cons p ps)
  then have "Match goos (simple_pattern p) f = Inr (simple_match p f)" by (simp add: Match_simple)
  with Cons show ?case by (cases "simple_match p f") auto
qed simp

text \<open>C32. The name pattern of a storage class: a comma-separated list of names and name prefixes
  (literal characters followed by a star) selects exactly the files that equal one of the names
  or start with one of the prefixes, on every platform and without an error; an empty pattern
  selects every file.\<close>

theorem name_pattern_selects:
  assumes "ps \<noteq> []" and "\<forall>p\<in>set ps. literal (fst p) \<and> CHR '','' \<notin> set (fst p) \<and> simple_pattern p \<noteq> []"
    and "CHR ''/'' \<notin> set f"
  shows "name_selected goos (config\<lparr>mc_NamePattern := Join_with '','' (map simple_pattern ps)\<rparr>) f
      = Inr (\<exists>p\<in>set ps. simple_match p f)
    \<and> name_selected goos (config\<lparr>mc_NamePattern := []\<rparr>) f = Inr True"
proof -
  let ?np = "Join_with '','' (map simple_pattern ps)"
  from assms(1,2) have split: "Split ?np (CHR '','') = map simple_pattern ps"
    by (intro Split_Join) (auto simp: simple_pattern_def)
  have "?np \<noteq> []"
  proof
    assume "?np = []"
    with split have "map simple_pattern ps = [[]]" by simp
    with assms(2) show False by (cases ps) auto
  qed
  with split match_patterns_simple[of ps f goos False] assms show ?thesis
    by (auto simp: name_selected_def)
qed

theorem name_pattern_selects_witness:
  "name_selected ''linux'' (ex_mount\<lparr>mc_NamePattern := Join_with '','' (map simple_pattern [(''vol'', True), (''sdb'', False)])\<rparr>)
       ''vol1'' = Inr (\<exists>p\<in>set [(''vol'', True), (''sdb'', False)]. simple_match p ''vol1'')
    \<and> name_selected ''linux'' (ex_mount\<lparr>mc_NamePattern := []\<rparr>) ''vol1'' = Inr True"
  by (rule name_pattern_selects) (auto simp: simple_pattern_def)

section \<open>Node affinity and labels\<close>

text \<open>The alpha affinity annotation round-trips: what the discoverer writes is read back as the
  same affinity, given a JSON codec that round-trips and encodes to a non-empty text, and other
  annotations are kept.\<close>

theorem alpha_affinity_roundtrip:
  assumes "marshal a = Inr js" and "unmarshal js = Inr a" and "js \<noteq> []"
  shows "case StorageNodeAffinityToAlphaAnnotation marshal anns (Some a) of (err, anns') \<Rightarrow>
    err = None \<and> GetStorageNodeAffinityFromAnnotation unmarshal anns' = Inr (Some a)
    \<and> (\<forall>k. k \<noteq> AlphaStorageNodeAffinityAnnotation \<longrightarrow> gm_get anns' k = gm_get anns k)"
  using assms by (simp add: StorageNodeAffinityToAlphaAnnotation_def GetStorageNodeAffinityFromAnnotation_def)

theorem alpha_affinity_roundtrip_witness:
  "case StorageNodeAffinityToAlphaAnnotation (\<lambda>a. Inr ''{}'') [(''k'', ''v'')] (Some []) of (err, anns') \<Rightarrow>
    err = None \<and> GetStorageNodeAffinityFromAnnotation (\<lambda>_. Inr []) anns' = Inr (Some [])
    \<and> (\<forall>k. k \<noteq> AlphaStorageNodeAffinityAnnotation \<longrightarrow> gm_get anns' k = gm_get [(''k'', ''v'')] k)"
  by (rule alpha_affinity_roundtrip[where js = "''{}''"]) simp_all

lemma node_labels_lookup:
  "gm_get (node_labels ls names m) k = (if k \<in> set names \<and> label_get ls k \<noteq> None then label_get ls k else gm_get m k)"
  by (induction names arbitrary: m) (auto split: option.splits)

lemma add_labels_lookup:
  "gm_inv ls \<Longrightarrow> gm_get (add_labels ls m) k = (case gm_get ls k of None \<Rightarrow> gm_get m k | Some v \<Rightarrow> Some v)"
proof (induction ls arbitrary: m)
  case (Cons a ls)
  obtain n v where a: "a = (n, v)" by fastforce
  with Cons.prems have "gm_get ls n = None" by (simp add: map_of_eq_None_iff)
  with Cons a show ?case by (auto split: option.splits)
qed simp

text \<open>Starting the discoverer: it succeeds exactly for a node with a name, a UID and a hostname
  label; its volumes are then pinned to that hostname, their labels are the configured ones
  and, where none is configured under that name, the selected labels of the node.\<close>

theorem new_discoverer_spec:
  assumes "gm_inv (uc_LabelsForPV (rc_UserConfig config))"
  shows "case NewDiscoverer config tracker of
      Inr d \<Rightarrow> \<exists>h. label_get (om_Labels (node_Meta (uc_Node (rc_UserConfig config)))) NodeLabelKey = Some h
        \<and> ds_nodeSelector d = [\<lparr>nst_MatchExpressions = [\<lparr>nsr_Key = NodeLabelKey, nsr_Operator = NodeSelectorOpIn,
             nsr_Values = [h]\<rparr>]\<rparr>]
        \<and> (\<exists>r. ds_ownerReference d = Some r \<and> or_Name r = node_Name (uc_Node (rc_UserConfig config))
             \<and> or_UID r = om_UID (node_Meta (uc_Node (rc_UserConfig config))) \<and> or_Name r \<noteq> [] \<and> or_UID r \<noteq> [])
        \<and> (\<forall>k. gm_get (ds_Labels d) k = (case gm_get (uc_LabelsForPV (rc_UserConfig config)) k of
               Some v \<Rightarrow> Some v
             | None \<Rightarrow> if k \<in> set (uc_NodeLabelsForPV (rc_UserConfig config))
                       then label_get (om_Labels (node_Meta (uc_Node (rc_UserConfig config)))) k else None))
    | Inl e \<Rightarrow> node_Name (uc_Node (rc_UserConfig config)) = [] \<or> om_UID (node_Meta (uc_Node (rc_UserConfig config))) = []
        \<or> label_get (om_Labels (node_Meta (uc_Node (rc_UserConfig config)))) NodeLabelKey = None"
  using assms
  by (auto simp: NewDiscoverer_def generateOwnerReference_def generateNodeSelector_def Let_def
      add_labels_lookup node_labels_lookup split: sum.splits option.splits if_splits)

theorem new_discoverer_spec_witness:
  "ds_nodeSelector (ex_disc []) = [\<lparr>nst_MatchExpressions = [\<lparr>nsr_Key = NodeLabelKey, nsr_Operator = NodeSelectorOpIn,
             nsr_Values = [''n1'']\<rparr>]\<rparr>]"
  using new_discoverer_spec[of "ex_disc_rc []" "\<lparr>ct_JobController = None\<rparr>"]
  by (simp add: ex_disc_new) (simp add: ex_disc_rc_def ex_rc_def ex_user_def ex_node_def empty_meta_def)

end
