(* ===== verification/Publication.thy ===== *)
theory Publication
  imports Populator Discovery
begin

text \<open>
  How the discoverer, the informer and the cache work together: every free volume is published in
  the next pass, the published object is adopted by the cache when the informer delivers it, and
  an adopted volume is not published again. Also what the two keys of a volume, its name and its
  path, do not exclude.
\<close>

declare map_of_eq_Some_iff [simp del] Some_eq_map_of_iff [simp del]

section \<open>Free volumes\<close>

text \<open>The node's volumes, the storage classes and the mount points stand still during the pass.\<close>

definition steady :: "env \<Rightarrow> VolumeUtil \<Rightarrow> storage_class lister \<Rightarrow> string list \<Rightarrow> bool" where
  "steady env vu classes mps \<longleftrightarrow>
     (\<forall>tr. e_VolUtil env tr = vu \<and> e_classes env tr = classes \<and> e_mounts env tr = Inr mps)"

text \<open>The capacity of a volume can be read, and a directory is a mount point and not wanted as a
  block device.\<close>

definition capacity_ok :: "VolumeUtil \<Rightarrow> MountConfig \<Rightarrow> string list \<Rightarrow> string \<Rightarrow> string \<Rightarrow> string \<Rightarrow> bool" where
  "capacity_ok vu config mps volMode filePath outsidePath \<longleftrightarrow>
     (if volMode = PersistentVolumeBlock then \<exists>c. vu_GetBlockCapacityByte vu filePath = Inr c
      else volMode = PersistentVolumeFilesystem \<and> mc_VolumeMode config \<noteq> PersistentVolumeBlock
        \<and> vu_IsLikelyMountPoint vu outsidePath filePath mps = (True, None)
        \<and> (\<exists>c. vu_GetFsCapacityByte vu outsidePath filePath = Inr c))"

text \<open>A file of the class's directory that the name pattern selects and that is a usable volume.\<close>

definition usable_volume :: "env \<Rightarrow> VolumeUtil \<Rightarrow> string list \<Rightarrow> MountConfig \<Rightarrow> string \<Rightarrow> bool" where
  "usable_volume env vu mps config f \<longleftrightarrow>
     (\<exists>files vm. vu_ReadDir vu (mc_MountDir config) = Inr files \<and> f \<in> set files
        \<and> (\<forall>g\<in>set files. \<exists>b. name_selected (e_goos env) config g = Inr b)
        \<and> name_selected (e_goos env) config f = Inr True
        \<and> GetVolumeMode (e_goos env) vu (FJoin [mc_MountDir config, f]) = Inr vm
        \<and> capacity_ok vu config mps vm (FJoin [mc_MountDir config, f]) (FJoin [mc_HostDir config, f]))"

text \<open>Nothing stands in the way of publishing it: no cached object has its name or its path, and it
  is not being cleaned.\<close>

definition unclaimed :: "Discoverer \<Rightarrow> string \<Rightarrow> MountConfig \<Rightarrow> string \<Rightarrow> world \<Rightarrow> bool" where
  "unclaimed d class config f w \<longleftrightarrow>
     GetPV (w_Cache w) (generatePVName f (node_Name (uc_Node (ds_User d))) class) = None
     \<and> LookupPVsByPath (w_Cache w) (FJoin [mc_HostDir config, f]) = []
     \<and> generatePVName f (node_Name (uc_Node (ds_User d))) class \<notin> running_set (w_ProcTable w)"

definition process_only :: "Discoverer \<Rightarrow> bool" where
  "process_only d \<longleftrightarrow> \<not> uc_UseJobForCleaning (ds_User d) \<and> \<not> uc_UseAlphaAPI (ds_User d)
     \<and> ds_ownerReference d \<noteq> None"

text \<open>Between the two worlds the creation of the file's volume was requested.\<close>

definition publishes :: "Discoverer \<Rightarrow> string \<Rightarrow> MountConfig \<Rightarrow> string \<Rightarrow> string \<Rightarrow> world \<Rightarrow> world \<Rightarrow> bool" where
  "publishes d class config policy f w w' \<longleftrightarrow>
     (\<exists>es pv x. w_trace w' = w_trace w @ es \<and> Call (ReqCreatePV pv) x \<in> set es \<and> discovered_pv d class config policy f pv)"

lemma publishes_mono:
  assumes "publishes d class config policy f w1 w2" "prefix (w_trace w) (w_trace w1)" "prefix (w_trace w2) (w_trace w')"
  shows "publishes d class config policy f w w'"
proof -
  from assms obtain es pv x xs ys where "w_trace w' = w_trace w @ xs @ es @ ys" "Call (ReqCreatePV pv) x \<in> set es"
    "discovered_pv d class config policy f pv"
    unfolding publishes_def prefix_def by auto
  then show ?thesis unfolding publishes_def by (intro exI[of _ "xs @ es @ ys"] exI[of _ pv] exI[of _ x]) simp
qed

section \<open>Provisioning succeeds\<close>

lemma probe_volume_ok:
  assumes "capacity_ok (VolUtil env (dst_World st)) config mps vm fp op"
  shows "\<exists>c st1. probe_volume env d config mps vm fp op st = (Inr c, st1) \<and> dst_World st1 = dst_World st"
  using assms by (auto simp: probe_volume_def capacity_ok_def Let_def split: if_splits)

lemma CreatePV_publishes:
  assumes "CreatePV env pv w = (x, w')" "discovered_pv d class config policy f pv"
  shows "publishes d class config policy f w w'"
  using CreatePV_spec(5)[OF assms(1)] assms(2) unfolding publishes_def by fastforce

lemma createPV_creates:
  assumes "createPV env d f class policy opts config cap (mc_VolumeMode config)
      (if mc_AccessMode config \<noteq> [] then mc_AccessMode config else ReadWriteOnce) t0 w = Some (r, w')"
    and "\<not> uc_UseAlphaAPI (ds_User d)"
  shows "publishes d class config policy f w w'"
  using assms(1)
proof (cases rule: createPV_cases)
  case (early e)
  let ?lp = "pv_config d f class policy opts config cap (mc_VolumeMode config)
    (if mc_AccessMode config \<noteq> [] then mc_AccessMode config else ReadWriteOnce)"
  obtain lp where "with_affinity env d config ?lp = Inr lp" using assms(2) by (simp add: with_affinity_def)
  with assms(1) obtain pv where pv: "CreateLocalPVSpec (with_fstype config lp) = Some pv"
    "with_affinity env d config ?lp = Inr lp"
    by (auto simp: createPV_def split: option.splits)
  obtain x w1 where c: "CreatePV env pv w = (x, w1)" by fastforce
  from assms(1) pv c have "prefix (w_trace w1) (w_trace w')"
    by (auto simp: createPV_def Let_def split: option.splits)
  with CreatePV_publishes[OF c created_spec(1)[OF pv(2,1)]] show ?thesis by (auto intro: publishes_mono)
next
  case (created pv x w1)
  from publishes_mono[OF CreatePV_publishes[OF created(3,1)] _ ext_prefix[OF created(5)]] show ?thesis by simp
qed

lemma discover_file_publishes:
  assumes "discover_file env d class config policy mps f st = Some st'" "pass_inv env d w (dst_World st)"
    and "steady env vu classes mps" "process_only d" "unclaimed d class config f w" "l_Get classes class = Inr sc"
    and "GetVolumeMode (e_goos env) vu (FJoin [mc_MountDir config, f]) = Inr vm"
    and "capacity_ok vu config mps vm (FJoin [mc_MountDir config, f]) (FJoin [mc_HostDir config, f])"
  shows "publishes d class config policy f (dst_World st) (dst_World st')"
proof -
  let ?n = "generatePVName f (node_Name (uc_Node (ds_User d))) class" and ?w = "dst_World st"
  have vu: "VolUtil env u = vu" for u using assms(3) by (simp add: steady_def VolUtil_def)
  have pi: "w_Cache ?w = w_Cache w" "pt_inv (w_ProcTable ?w)" "running_set (w_ProcTable ?w) = running_set (w_ProcTable w)"
    using assms(2) by (simp_all add: pass_inv_def)
  have nj: "\<not> uc_UseJobForCleaning (ds_User d)" using assms(4) by (simp add: process_only_def)
  have nr: "pt_view (w_ProcTable ?w) ?n \<noteq> Some CSRunning" using assms(5) pi(3) by (auto simp: unclaimed_def)
  then have ip: "InProgress env (ds_CleanupTracker d) ?n False ?w = Some False"
    by (simp add: InProgress_def IsRunning_view)
  obtain s t e tb where re: "RemoveEntry ?n (w_ProcTable ?w) = ((s, t, e), tb)" by (metis surj_pair)
  have e: "e = None" by (rule pt.remove_not_running(1)[OF pi(2) nr re])
  let ?w1 = "?w\<lparr>w_ProcTable := tb\<rparr>"
  have rs: "RemoveStatus env (ds_CleanupTracker d) ?n False ?w = Some ((s, t, None), ?w1)"
    by (simp add: RemoveStatus_def re e)
  have "discover_file env d class config policy mps f st
      = provision_new env d class config policy mps (Now env ?w) f vm (st\<lparr>dst_World := ?w1\<rparr>)"
    using assms(5,7) nj ip rs pi(1) by (simp add: discover_file_def vu unclaimed_def Let_def)
  then have pn: "provision_new env d class config policy mps (Now env ?w) f vm (st\<lparr>dst_World := ?w1\<rparr>) = Some st'"
    using assms(1) by simp
  obtain c st1 where pr: "probe_volume env d config mps vm (FJoin [mc_MountDir config, f]) (FJoin [mc_HostDir config, f])
      (st\<lparr>dst_World := ?w1\<rparr>) = (Inr c, st1)" "dst_World st1 = ?w1"
    using probe_volume_ok[of env "st\<lparr>dst_World := ?w1\<rparr>"] assms(8) vu by fastforce
  have mo: "getMountOptionsFromStorageClass env class ?w1 = Inr (sc_MountOptions sc)"
    using assms(3,6) by (simp add: getMountOptionsFromStorageClass_def steady_def)
  from pn pr mo obtain r where "createPV env d f class policy (sc_MountOptions sc) config c (mc_VolumeMode config)
      (if mc_AccessMode config \<noteq> [] then mc_AccessMode config else ReadWriteOnce) (Now env ?w) ?w1
      = Some (r, dst_World st')"
    by (auto simp: provision_new_def Let_def split: option.splits)
  from createPV_creates[OF this] assms(4) show ?thesis by (auto simp: process_only_def publishes_def)
qed

section \<open>The pass reaches every file\<close>

lemma process_only_total:
  assumes "process_only d"
  shows "uc_UseJobForCleaning (ds_User d) \<Longrightarrow> ct_JobController (ds_CleanupTracker d) \<noteq> None"
    "uc_SetPVOwnerRef (ds_User d) \<Longrightarrow> ds_ownerReference d \<noteq> None"
  using assms by (simp_all add: process_only_def)

lemma discover_files_publishes:
  assumes "jobs_named env" "(class, config) \<in> set (uc_DiscoveryMap (ds_User d))"
    "policy \<in> {PersistentVolumeReclaimRetain, PersistentVolumeReclaimDelete}"
    and "steady env vu classes mps" "process_only d" "unclaimed d class config f w" "l_Get classes class = Inr sc"
    and "GetVolumeMode (e_goos env) vu (FJoin [mc_MountDir config, f]) = Inr vm"
    and "capacity_ok vu config mps vm (FJoin [mc_MountDir config, f]) (FJoin [mc_HostDir config, f])"
    and "name_selected (e_goos env) config f = Inr True"
  shows "discover_files env d class config policy mps fs st = Some (r, st') \<Longrightarrow> pass_inv env d w (dst_World st) \<Longrightarrow>
    f \<in> set fs \<Longrightarrow> \<forall>g\<in>set fs. \<exists>b. name_selected (e_goos env) config g = Inr b \<Longrightarrow>
    publishes d class config policy f (dst_World st) (dst_World st')"
proof (induction fs arbitrary: st)
  case (Cons g fs)
  from Cons.prems(4) obtain b where b: "name_selected (e_goos env) config g = Inr b" by auto
  show ?case
  proof (cases b)
    case False
    with Cons b assms(10) show ?thesis by auto
  next
    case True
    with b Cons.prems(1) obtain st1 where s1: "discover_file env d class config policy mps g st = Some st1"
      "discover_files env d class config policy mps fs st1 = Some (r, st')"
      by (auto split: option.splits)
    have p1: "pass_inv env d w (dst_World st1)" by (rule discover_file_pass[OF s1(1) assms(1) Cons.prems(2) assms(2,3)])
    have self: "pass_inv env d u u" if "pass_inv env d w u" for u using that by (simp add: pass_inv_def)
    have "pass_inv env d (dst_World st) (dst_World st1)"
      by (rule discover_file_pass[OF s1(1) assms(1) self[OF Cons.prems(2)] assms(2,3)])
    then have pre: "prefix (w_trace (dst_World st)) (w_trace (dst_World st1))" by (auto dest: pass_inv_prefix)
    from discover_files_pass[OF assms(1-3) s1(2) self[OF p1]]
    have post: "prefix (w_trace (dst_World st1)) (w_trace (dst_World st'))" by (auto dest: pass_inv_prefix)
    show ?thesis
    proof (cases "g = f")
      case True
      from discover_file_publishes[OF s1(1)[unfolded True] Cons.prems(2) assms(4-9)] post show ?thesis
        by (auto intro: publishes_mono)
    next
      case False
      with Cons.IH[OF s1(2) p1] Cons.prems(3,4) pre show ?thesis by (auto intro: publishes_mono)
    qed
  qed
qed simp

text \<open>The reclaim policy the volumes of a class get.\<close>

definition class_policy :: "storage_class \<Rightarrow> string" where
  "class_policy sc = (case sc_ReclaimPolicy sc of Some p \<Rightarrow> p | None \<Rightarrow> PersistentVolumeReclaimDelete)"

definition supported_class :: "storage_class lister \<Rightarrow> string \<Rightarrow> string \<Rightarrow> bool" where
  "supported_class classes class policy \<longleftrightarrow>
     (\<exists>sc. l_Get classes class = Inr sc \<and> class_policy sc = policy)
     \<and> policy \<in> {PersistentVolumeReclaimRetain, PersistentVolumeReclaimDelete}"

lemma discoverVolumesAtPath_publishes:
  assumes "discoverVolumesAtPath env d class config w1 = Some (r, w')" "pass_inv env d w w1"
    and "jobs_named env" "(class, config) \<in> set (uc_DiscoveryMap (ds_User d))"
    and "steady env vu classes mps" "process_only d" "unclaimed d class config f w"
    and "supported_class classes class policy" "usable_volume env vu mps config f"
  shows "publishes d class config policy f w1 w'"
proof -
  from assms(8) obtain sc where sc: "l_Get classes class = Inr sc" "class_policy sc = policy"
    and pol: "policy \<in> {PersistentVolumeReclaimRetain, PersistentVolumeReclaimDelete}"
    by (auto simp: supported_class_def)
  from assms(9) obtain files vm where u: "vu_ReadDir vu (mc_MountDir config) = Inr files" "f \<in> set files"
    "\<forall>g\<in>set files. \<exists>b. name_selected (e_goos env) config g = Inr b"
    "name_selected (e_goos env) config f = Inr True"
    "GetVolumeMode (e_goos env) vu (FJoin [mc_MountDir config, f]) = Inr vm"
    "capacity_ok vu config mps vm (FJoin [mc_MountDir config, f]) (FJoin [mc_HostDir config, f])"
    unfolding usable_volume_def by blast
  have st: "VolUtil env w1 = vu" "e_mounts env (w_trace w1) = Inr mps"
    "getReclaimPolicyFromStorageClass env class w1 = Inr policy"
    using assms(5) sc by (auto simp: steady_def VolUtil_def getReclaimPolicyFromStorageClass_def class_policy_def split: option.splits)
  let ?st = "\<lparr>dst_Errors = [], dst_BlockBytes = 0, dst_FSBytes = 0, dst_World = w1\<rparr>"
  from assms(1) st u(1) pol obtain e st' where d: "discover_files env d class config policy mps files ?st = Some (e, st')"
    and w': "prefix (w_trace (dst_World st')) (w_trace w')"
    unfolding discoverVolumesAtPath_def by (auto simp: Let_def split: option.splits)
  have "pass_inv env d w (dst_World ?st)" using assms(2) by simp
  from publishes_mono[OF discover_files_publishes[OF assms(3,4) pol assms(5-7) sc(1) u(5,6,4) d this u(2,3)] _ w']
  show ?thesis by simp
qed

lemma discover_classes_publishes:
  assumes "jobs_named env" "steady env vu classes mps" "process_only d" "unclaimed d class config f w"
    and "supported_class classes class policy" "usable_volume env vu mps config f"
  shows "discover_classes env d cs ready w1 = Some (r, w') \<Longrightarrow> pass_inv env d w w1 \<Longrightarrow>
    set cs \<subseteq> set (uc_DiscoveryMap (ds_User d)) \<Longrightarrow> (class, config) \<in> set cs \<Longrightarrow>
    publishes d class config policy f w1 w'"
proof (induction cs arbitrary: ready w1)
  case (Cons c cs)
  obtain cl cfg where c: "c = (cl, cfg)" by fastforce
  from Cons.prems(1) obtain err w2 where d: "discoverVolumesAtPath env d cl cfg w1 = Some (err, w2)"
    and rest: "discover_classes env d cs (if err \<noteq> None then False else ready) w2 = Some (r, w')"
    by (auto simp: c split: option.splits)
  have p2: "pass_inv env d w w2"
    using discoverVolumesAtPath_pass[OF d assms(1) _ Cons.prems(2)] Cons.prems(3) by (simp add: c)
  have self: "pass_inv env d u u" if "pass_inv env d w u" for u using that by (simp add: pass_inv_def)
  have pre: "prefix (w_trace w1) (w_trace w2)"
    using discoverVolumesAtPath_pass[OF d assms(1) _ self[OF Cons.prems(2)]] Cons.prems(3)
    by (auto simp: c dest: pass_inv_prefix)
  from discover_classes_pass[OF assms(1) rest _ self[OF p2]] Cons.prems(3)
  have post: "prefix (w_trace w2) (w_trace w')" by (auto dest: pass_inv_prefix)
  show ?case
  proof (cases "(class, config) = c")
    case True
    then have "publishes d class config policy f w1 w2"
      using discoverVolumesAtPath_publishes[OF _ Cons.prems(2) assms(1) _ assms(2-6), of err w2] d c Cons.prems(3) by auto
    with post show ?thesis by (auto intro: publishes_mono)
  next
    case False
    with Cons.IH[OF rest p2] Cons.prems(3,4) have "publishes d class config policy f w2 w'" by auto
    with pre show ?thesis by (auto intro: publishes_mono)
  qed
qed simp

lemma free_volume_published:
  assumes "(class, config) \<in> set (uc_DiscoveryMap (ds_User d))" "jobs_named env" "pt_inv (w_ProcTable w)"
    and "steady env vu classes mps" "process_only d" "unclaimed d class config f w"
    and "supported_class classes class policy" "usable_volume env vu mps config f"
  shows "\<exists>d' w'. DiscoverLocalVolumes env d w = Some (d', w') \<and> publishes d class config policy f w w'"
proof -
  obtain d' w' where r: "DiscoverLocalVolumes env d w = Some (d', w')"
    using DiscoverLocalVolumes_total[of d env w] process_only_total[OF assms(5)] by blast
  then obtain rdy where "discover_classes env d (uc_DiscoveryMap (ds_User d)) True w = Some (rdy, w')"
    by (auto simp: DiscoverLocalVolumes_def split: option.splits)
  from discover_classes_publishes[OF assms(2,4-8) this] assms(1,3) r show ?thesis by (auto simp: pass_inv_def)
qed

section \<open>Properties\<close>

text \<open>C8. Every free volume is published: a pass requests the creation of an object for each usable
  file of a configured class with a supported reclaim policy that no cached object claims by name
  or by path and that is not being cleaned, whatever happens to the other files and classes, with
  cleaning by processes and the affinity in the spec.\<close>

theorem discovery_publishes_free_volumes:
  assumes "(class, config) \<in> set (uc_DiscoveryMap (ds_User d))" and "jobs_named env" and "pt_inv (w_ProcTable w)"
    and "steady env vu classes mps" and "process_only d" and "unclaimed d class config f w"
    and "supported_class classes class policy" and "usable_volume env vu mps config f"
  shows "\<exists>d' w' es pv x. DiscoverLocalVolumes env d w = Some (d', w') \<and> w_trace w' = w_trace w @ es
    \<and> Call (ReqCreatePV pv) x \<in> set es \<and> discovered_pv d class config policy f pv"
  using free_volume_published[OF assms] by (auto simp: publishes_def)

definition ex_disk :: VolumeUtil where
  "ex_disk = fake_VolumeUtil \<lparr>fv_directoryFiles = [(''/mnt/disks'',
     [\<lparr>fd_Name = ''vol1'', fd_VolumeType = FakeEntryFile, fd_Capacity = 107374182400\<rparr>])], fv_deleteShouldFail = False\<rparr>"

definition ex_classes :: "storage_class lister" where
  "ex_classes = indexer_lister [(''fast'', \<lparr>sc_ReclaimPolicy = None, sc_MountOptions = []\<rparr>)]"

lemma ex_steady: "steady ex_env ex_disk ex_classes [''/mnt/disks/vol1'']"
  by (simp add: steady_def ex_env_def ex_disk_def ex_classes_def)

lemma ex_process_only: "process_only (ex_disc m)"
  by (simp add: process_only_def ex_disc_def ex_disc_rc_def ex_user_def)

lemma ex_supported: "supported_class ex_classes ''fast'' PersistentVolumeReclaimDelete"
  by (simp add: supported_class_def ex_classes_def indexer_lister_def indexer_Get_def class_policy_def)

lemma ex_unclaimed: "unclaimed (ex_disc m) class config f ex_world"
  by (simp add: unclaimed_def ex_world_def LookupPVsByPath_def NewVolumeCache_def GetPV_def NewProcTable_def pt_view_def)

lemma ex_usable: "usable_volume ex_env ex_disk [''/mnt/disks/vol1''] ex_fs_mount ''vol1''"
proof -
  have "name_selected ''linux'' ex_fs_mount ''vol1'' = Inr True"
    "vu_ReadDir ex_disk (mc_MountDir ex_fs_mount) = Inr [''vol1'']"
    "GetVolumeMode ''linux'' ex_disk (FJoin [mc_MountDir ex_fs_mount, ''vol1'']) = Inr PersistentVolumeFilesystem"
    "vu_IsLikelyMountPoint ex_disk (FJoin [mc_HostDir ex_fs_mount, ''vol1'']) (FJoin [mc_MountDir ex_fs_mount, ''vol1''])
       [''/mnt/disks/vol1''] = (True, None)"
    "vu_GetFsCapacityByte ex_disk (FJoin [mc_HostDir ex_fs_mount, ''vol1'']) (FJoin [mc_MountDir ex_fs_mount, ''vol1''])
       = Inr 107374182400"
    by code_simp+
  then show ?thesis by (simp add: usable_volume_def capacity_ok_def ex_env_def) (auto simp: ex_fs_mount_def)
qed

lemma ex_pt: "pt_inv (w_ProcTable ex_world)" "jobs_named ex_env"
  by (simp_all add: ex_world_def pt_inv_def NewProcTable_def jobs_named_def ex_env_def)

theorem discovery_publishes_free_volumes_witness:
  "\<exists>d' w' es pv x. DiscoverLocalVolumes ex_env (ex_disc [(''fast'', ex_fs_mount)]) ex_world = Some (d', w')
    \<and> w_trace w' = w_trace ex_world @ es \<and> Call (ReqCreatePV pv) x \<in> set es
    \<and> discovered_pv (ex_disc [(''fast'', ex_fs_mount)]) ''fast'' ex_fs_mount PersistentVolumeReclaimDelete ''vol1'' pv"
  by (rule discovery_publishes_free_volumes[OF _ ex_pt(2,1) ex_steady ex_process_only ex_unclaimed ex_supported ex_usable])
    (simp add: ex_disc_def ex_disc_rc_def)

text \<open>C9. A published volume is adopted and not published again: the object discovery creates for a
  file is taken into the cache when the informer delivers it, and as long as the cache holds it, no
  pass creates an object with its name or its path.\<close>

theorem published_volume_adopted:
  assumes "discovered_pv d class config policy f pv"
    and "w_Cache w = AddFunc (ds_RuntimeConfig d) (ObjPV pv) c" and "cache_inv c"
    and "DiscoverLocalVolumes env d' w = Some (d'', w')" and "pt_inv (w_ProcTable w)" and "jobs_named env"
    and "w_trace w' = w_trace w @ es" and "Call (ReqCreatePV pv') x \<in> set es"
  shows "GetPV (w_Cache w) (pv_Name pv) = Some pv \<and> pv_Name pv' \<noteq> pv_Name pv
    \<and> (\<exists>l l'. pvs_Local (pv_Spec pv) = Some l \<and> pvs_Local (pv_Spec pv') = Some l' \<and> lvs_Path l' \<noteq> lvs_Path l)"
proof -
  have own: "own_pv (ds_RuntimeConfig d) pv" using assms(1) by (simp add: discovered_pv_def own_pv_def)
  then have get: "GetPV (w_Cache w) (pv_Name pv) = Some pv"
    by (simp add: assms(2) AddFunc_def handlePVUpdate_eq)
  have inv: "cache_inv (w_Cache w)"
    using assms(2,3) own by (simp add: AddFunc_def handlePVUpdate_eq)
  from assms(4) obtain r where "discover_classes env d' (uc_DiscoveryMap (ds_User d')) True w = Some (r, w')"
    by (auto simp: DiscoverLocalVolumes_def split: option.splits)
  from discover_classes_pass[OF assms(6) this, of w] assms(5)
  have "pass_inv env d' w w'" by (simp add: pass_inv_def)
  with assms(7) have "\<And>xs e ys. es = xs @ e # ys \<Longrightarrow> disc_effect env d' w (w_trace w @ xs) e"
    by (simp add: pass_inv_def pass_log_def)
  with assms(8) obtain tr where ok: "creation_ok env d' w tr pv'"
    by (fastforce simp: disc_effect_def dest!: split_list)
  then obtain cl cfg pol g where g: "discovered_pv d' cl cfg pol g pv'"
    "LookupPVsByPath (w_Cache w) (FJoin [mc_HostDir cfg, g]) = []" "GetPV (w_Cache w) (pv_Name pv') = None"
    by (auto simp: creation_ok_def)
  from g(1) obtain l' where l': "pvs_Local (pv_Spec pv') = Some l'" "lvs_Path l' = FJoin [mc_HostDir cfg, g]"
    by (auto simp: discovered_pv_def)
  from assms(1) obtain l where l: "pvs_Local (pv_Spec pv) = Some l" by (auto simp: discovered_pv_def)
  have "pv \<in> set (ListPVs (w_Cache w))" using get inv by (simp add: ListPVs_iff)
  with g(2) l' l have "lvs_Path l' \<noteq> lvs_Path l" by (auto simp: LookupPVsByPath_Nil has_path_def)
  with get g(3) l l' show ?thesis by auto
qed

definition ex_disk2 :: VolumeUtil where
  "ex_disk2 = fake_VolumeUtil \<lparr>fv_directoryFiles = [(''/mnt/disks'',
     [\<lparr>fd_Name = ''vol1'', fd_VolumeType = FakeEntryFile, fd_Capacity = 107374182400\<rparr>,
      \<lparr>fd_Name = ''vol2'', fd_VolumeType = FakeEntryFile, fd_Capacity = 107374182400\<rparr>])], fv_deleteShouldFail = False\<rparr>"

definition ex_env2 :: env where
  "ex_env2 = ex_env\<lparr>e_VolUtil := \<lambda>_. ex_disk2, e_mounts := \<lambda>_. Inr [''/mnt/disks/vol1'', ''/mnt/disks/vol2'']\<rparr>"

lemma ex_steady2: "steady ex_env2 ex_disk2 ex_classes [''/mnt/disks/vol1'', ''/mnt/disks/vol2'']"
  by (simp add: steady_def ex_env2_def ex_env_def ex_classes_def)

lemma ex_selected2:
  "name_selected ''linux'' ex_fs_mount ''vol1'' = Inr True" "name_selected ''linux'' ex_fs_mount ''vol2'' = Inr True"
  by code_simp+

lemma ex_usable2:
  assumes "f = ''vol1'' \<or> f = ''vol2''"
  shows "usable_volume ex_env2 ex_disk2 [''/mnt/disks/vol1'', ''/mnt/disks/vol2''] ex_fs_mount f"
proof -
  let ?mps = "[''/mnt/disks/vol1'', ''/mnt/disks/vol2'']"
  have "vu_ReadDir ex_disk2 (mc_MountDir ex_fs_mount) = Inr [''vol1'', ''vol2'']" by code_simp
  moreover have "GetVolumeMode ''linux'' ex_disk2 (FJoin [mc_MountDir ex_fs_mount, ''vol1'']) = Inr PersistentVolumeFilesystem"
    "GetVolumeMode ''linux'' ex_disk2 (FJoin [mc_MountDir ex_fs_mount, ''vol2'']) = Inr PersistentVolumeFilesystem"
    by code_simp+
  moreover have "capacity_ok ex_disk2 ex_fs_mount ?mps PersistentVolumeFilesystem
      (FJoin [mc_MountDir ex_fs_mount, ''vol1'']) (FJoin [mc_HostDir ex_fs_mount, ''vol1''])"
  proof -
    have "vu_IsLikelyMountPoint ex_disk2 (FJoin [mc_HostDir ex_fs_mount, ''vol1'']) (FJoin [mc_MountDir ex_fs_mount, ''vol1'']) ?mps = (True, None)"
      "vu_GetFsCapacityByte ex_disk2 (FJoin [mc_HostDir ex_fs_mount, ''vol1'']) (FJoin [mc_MountDir ex_fs_mount, ''vol1'']) = Inr 107374182400"
      by code_simp+
    then show ?thesis by (simp add: capacity_ok_def) (simp add: ex_fs_mount_def)
  qed
  moreover have "capacity_ok ex_disk2 ex_fs_mount ?mps PersistentVolumeFilesystem
      (FJoin [mc_MountDir ex_fs_mount, ''vol2'']) (FJoin [mc_HostDir ex_fs_mount, ''vol2''])"
  proof -
    have "vu_IsLikelyMountPoint ex_disk2 (FJoin [mc_HostDir ex_fs_mount, ''vol2'']) (FJoin [mc_MountDir ex_fs_mount, ''vol2'']) ?mps = (True, None)"
      "vu_GetFsCapacityByte ex_disk2 (FJoin [mc_HostDir ex_fs_mount, ''vol2'']) (FJoin [mc_MountDir ex_fs_mount, ''vol2'']) = Inr 107374182400"
      by code_simp+
    then show ?thesis by (simp add: capacity_ok_def) (simp add: ex_fs_mount_def)
  qed
  moreover have "e_goos ex_env2 = ''linux''" by (simp add: ex_env2_def ex_env_def)
  ultimately show ?thesis using assms unfolding usable_volume_def by (auto simp: ex_selected2)
qed

lemma ex_names_differ: "generatePVName ''vol2'' ''n1'' ''fast'' \<noteq> generatePVName ''vol1'' ''n1'' ''fast''"
  by (simp add: generatePVName_eq_iff fnv_write_def fnv_step_def fnv_offset32_def fnv_prime32_def)

theorem published_volume_adopted_witness:
  "\<exists>pv pv' l l'. pvs_Local (pv_Spec pv) = Some l \<and> pvs_Local (pv_Spec pv') = Some l'
     \<and> lvs_Path l = ''/mnt/disks/vol1'' \<and> lvs_Path l' \<noteq> lvs_Path l \<and> pv_Name pv' \<noteq> pv_Name pv"
proof -
  let ?d = "ex_disc [(''fast'', ex_fs_mount)]" and ?cfg = "ex_fs_mount" and ?pol = "PersistentVolumeReclaimDelete"
  have jn: "jobs_named ex_env2" by (simp add: jobs_named_def ex_env2_def ex_env_def)
  have mem: "(''fast'', ?cfg) \<in> set (uc_DiscoveryMap (ds_User ?d))" by (simp add: ex_disc_def ex_disc_rc_def)
  note pub = free_volume_published[OF mem jn _ ex_steady2 ex_process_only _ ex_supported ex_usable2]
  obtain pv where pv: "discovered_pv ?d ''fast'' ?cfg ?pol ''vol1'' pv"
    using pub[of ex_world "''vol1''"] ex_pt(1) ex_unclaimed by (auto simp: publishes_def)
  let ?w = "ex_world\<lparr>w_Cache := AddFunc (ds_RuntimeConfig ?d) (ObjPV pv) NewVolumeCache\<rparr>"
  have own: "own_pv (ds_RuntimeConfig ?d) pv" using pv by (simp add: discovered_pv_def own_pv_def)
  have paths: "FJoin [mc_HostDir ?cfg, ''vol1''] = ''/mnt/disks/vol1''" "FJoin [mc_HostDir ?cfg, ''vol2''] = ''/mnt/disks/vol2''"
    by code_simp+
  have c: "w_Cache ?w = AddPV pv NewVolumeCache" using own by (simp add: AddFunc_def handlePVUpdate_eq)
  have "node_Name (uc_Node (ds_User ?d)) = ''n1''" by (simp add: ex_disc_def ex_disc_rc_def ex_user_def ex_node_def)
  then have "unclaimed ?d ''fast'' ?cfg ''vol2'' ?w"
    using ex_unclaimed[of "[(''fast'', ?cfg)]" "''fast''" ?cfg "''vol2''"] pv ex_names_differ paths
    by (auto simp: unclaimed_def c LookupPVsByPath_Nil ListPVs_iff has_path_def discovered_pv_def split: if_splits)
  then obtain d' w' where w': "DiscoverLocalVolumes ex_env2 ?d ?w = Some (d', w')"
    "publishes ?d ''fast'' ?cfg ?pol ''vol2'' ?w w'"
    using pub[of ?w "''vol2''"] ex_pt(1) by auto
  from w'(2) obtain es pv' x where es: "w_trace w' = w_trace ?w @ es" "Call (ReqCreatePV pv') x \<in> set es"
    unfolding publishes_def by (elim exE conjE)
  from published_volume_adopted[OF pv _ cache_inv_New w'(1) _ jn es] ex_pt(1) pv paths
  show ?thesis by (fastforce simp: discovered_pv_def)
qed

section \<open>What the keys of a volume do not exclude\<close>

text \<open>The test for a path in use reads the cache, which a pass does not change: two classes that share
  a host directory both publish a file of it in the same pass.\<close>

lemma same_path_published_twice:
  assumes "(c1, cfg1) \<in> set (uc_DiscoveryMap (ds_User d))" "(c2, cfg2) \<in> set (uc_DiscoveryMap (ds_User d))"
    and "mc_HostDir cfg2 = mc_HostDir cfg1" "jobs_named env" "pt_inv (w_ProcTable w)"
    and "steady env vu classes mps" "process_only d" "unclaimed d c1 cfg1 f w" "unclaimed d c2 cfg2 f w"
    and "supported_class classes c1 p1" "supported_class classes c2 p2"
    and "usable_volume env vu mps cfg1 f" "usable_volume env vu mps cfg2 f"
  shows "\<exists>d' w' es pv1 pv2 x1 x2 l1 l2. DiscoverLocalVolumes env d w = Some (d', w') \<and> w_trace w' = w_trace w @ es
    \<and> Call (ReqCreatePV pv1) x1 \<in> set es \<and> pvs_StorageClassName (pv_Spec pv1) = c1 \<and> pvs_Local (pv_Spec pv1) = Some l1
    \<and> Call (ReqCreatePV pv2) x2 \<in> set es \<and> pvs_StorageClassName (pv_Spec pv2) = c2 \<and> pvs_Local (pv_Spec pv2) = Some l2
    \<and> lvs_Path l1 = lvs_Path l2"
proof -
  obtain d' w' where r: "DiscoverLocalVolumes env d w = Some (d', w')" "publishes d c1 cfg1 p1 f w w'"
    using free_volume_published[OF assms(1,4-8,10,12)] by blast
  moreover have "publishes d c2 cfg2 p2 f w w'"
    using free_volume_published[OF assms(2,4-7,9,11,13)] r(1) by auto
  ultimately obtain es pv1 pv2 x1 x2 where es: "w_trace w' = w_trace w @ es"
    and pvs: "Call (ReqCreatePV pv1) x1 \<in> set es" "discovered_pv d c1 cfg1 p1 f pv1"
      "Call (ReqCreatePV pv2) x2 \<in> set es" "discovered_pv d c2 cfg2 p2 f pv2"
    unfolding publishes_def by auto
  from pvs(2,4) assms(3) obtain l1 l2 where "pvs_Local (pv_Spec pv1) = Some l1" "pvs_Local (pv_Spec pv2) = Some l2"
    "lvs_Path l1 = lvs_Path l2" "pvs_StorageClassName (pv_Spec pv1) = c1" "pvs_StorageClassName (pv_Spec pv2) = c2"
    unfolding discovered_pv_def by auto
  with r(1) es pvs(1,3) show ?thesis by blast
qed

text \<open>A volume's name is a hash of file, node and class written one after the other without a
  separator: different files of different classes can have the same name, whatever the hash.\<close>

lemma pv_name_ambiguous: "f @ n @ c = f' @ n' @ c' \<Longrightarrow> generatePVName f n c = generatePVName f' n' c'"
  by (simp add: generatePVName_eq_iff)

lemma pv_name_collision: "generatePVName ''a'' ''n'' ''nb'' = generatePVName ''an'' ''n'' ''b''"
  by (rule pv_name_ambiguous) simp

end
