(* ===== verification/Node_Taint.thy ===== *)
theory Node_Taint
  imports Job_Controller
begin

text \<open>
  \<open>pkg/util/node_util.go\<close> and \<open>pkg/node-taint/node_taint.go\<close>: reading the node object with a
  bounded number of retries, and removing the taint that keeps pods off the node until the
  provisioner is ready. \<open>klog.Fatalf\<close> ends the process: a function that can call it returns
  \<open>Inl\<close> with the error. Random numbers are read from an argument.
\<close>

declare map_of_eq_Some_iff [simp del] Some_eq_map_of_iff [simp del]

section \<open>Reading the node\<close>

abbreviation maxGetNodesRetries :: nat where "maxGetNodesRetries \<equiv> 3"

function get_node_loop :: "env \<Rightarrow> string \<Rightarrow> nat \<Rightarrow> world \<Rightarrow> node result \<times> world" where
  "get_node_loop env name retries w =
     (case e_nodes env (w_trace w) name of
        Inr nd \<Rightarrow> (Inr nd, w)
      | Inl err \<Rightarrow>
          if retries + 1 \<ge> maxGetNodesRetries then (Inl err, w)
          else get_node_loop env name (retries + 1) (emit (Sleep 1000000000) w))"
  by pat_completeness auto
termination
  by (relation "measure (\<lambda>(env, name, retries, w). maxGetNodesRetries - retries)") auto

declare get_node_loop.simps [simp del]

definition GetNode :: "env \<Rightarrow> string \<Rightarrow> world \<Rightarrow> node result \<times> world" where
  "GetNode env name w = get_node_loop env name 0 w"

section \<open>The taint remover\<close>

abbreviation maxRemoveTaintRetries :: nat where "maxRemoveTaintRetries \<equiv> 3"
abbreviation removeTaintRetryPeriod :: time where "removeTaintRetryPeriod \<equiv> 5000000000"

record Remover =
  rm_RuntimeConfig :: RuntimeConfig
  rm_taintRemoved :: bool

abbreviation rm_User :: "Remover \<Rightarrow> UserConfig" where
  "rm_User n \<equiv> rc_UserConfig (rm_RuntimeConfig n)"

definition NewRemover :: "RuntimeConfig \<Rightarrow> Remover" where
  "NewRemover runtimeConfig = \<lparr>rm_RuntimeConfig = runtimeConfig, rm_taintRemoved = False\<rparr>"

text \<open>The loop over the node's taints: whether the taint was found, and the others.\<close>

fun split_taints :: "string \<Rightarrow> taint list \<Rightarrow> bool \<Rightarrow> taint list \<Rightarrow> bool \<times> taint list" where
  "split_taints key [] taintExists currTaints = (taintExists, currTaints)"
| "split_taints key (t # ts) taintExists currTaints =
     (if taint_Key t = key then split_taints key ts True currTaints
      else split_taints key ts taintExists (currTaints @ [t]))"

definition RemoveNodeTaint :: "env \<Rightarrow> Remover \<Rightarrow> world \<Rightarrow> error option result \<times> Remover \<times> world" where
  "RemoveNodeTaint env n w =
     (if \<not> uc_RemoveNodeNotReadyTaint (rm_User n) \<or> rm_taintRemoved n then (Inr None, n, w)
      else case GetNode env (om_Name (node_Meta (uc_Node (rm_User n)))) w of
        (Inl err, w) \<Rightarrow> (Inl err, n, w)
      | (Inr nd, w) \<Rightarrow>
          let (taintExists, currTaints) =
                split_taints (uc_ProvisionerNotReadyNodeTaintKey (rm_User n)) (node_Taints nd) False [] in
          if \<not> taintExists then (Inr None, n, w)
          else case call env (ReqUpdateNode (nd\<lparr>node_Taints := currTaints\<rparr>)) w of
            (Some err, w) \<Rightarrow> (Inr (Some err), n, w)
          | (None, w) \<Rightarrow> (Inr None, n\<lparr>rm_taintRemoved := True\<rparr>, w))"

definition ShouldRemoveTaint :: "Remover \<Rightarrow> bool" where
  "ShouldRemoveTaint n \<longleftrightarrow> \<not> rm_taintRemoved n \<and> uc_RemoveNodeNotReadyTaint (rm_User n)"

text \<open>The retry loop; \<open>rand n\<close> is \<open>rand.Intn(n)\<close> as a function of the log. The result is the error
  that ended the process, if one did.\<close>

function taint_backoff :: "env \<Rightarrow> (trace \<Rightarrow> int \<Rightarrow> int) \<Rightarrow> nat \<Rightarrow> time \<Rightarrow> Remover \<Rightarrow> world
    \<Rightarrow> error option \<times> Remover \<times> world" where
  "taint_backoff env rand retries retryPeriod n w =
     (if ShouldRemoveTaint n \<and> retries < maxRemoveTaintRetries then
        (case RemoveNodeTaint env n w of
           (Inl err, n, w) \<Rightarrow> (Some err, n, w)
         | (Inr None, n, w) \<Rightarrow> (None, n, w)
         | (Inr (Some err), n, w) \<Rightarrow>
             let randomSeconds = rand (w_trace w) (quot64 removeTaintRetryPeriod 1000000000);
                 retryPeriod = retryPeriod + randomSeconds * 1000000000
             in taint_backoff env rand (retries + 1) retryPeriod n (emit (Sleep retryPeriod) w))
      else (None, n, w))"
  by pat_completeness auto
termination
  by (relation "measure (\<lambda>(env, rand, retries, p, n, w). maxRemoveTaintRetries - retries)") auto

declare taint_backoff.simps [simp del]

definition RemoveTaintWithBackoff :: "env \<Rightarrow> (trace \<Rightarrow> int \<Rightarrow> int) \<Rightarrow> Remover \<Rightarrow> world
    \<Rightarrow> error option \<times> Remover \<times> world" where
  "RemoveTaintWithBackoff env rand n w = taint_backoff env rand 0 0 n w"

section \<open>Lemmas\<close>

lemma get_node_loop_spec:
  assumes "get_node_loop env name retries w = (r, w')" and "retries < maxGetNodesRetries"
  shows "\<exists>k\<le>maxGetNodesRetries - 1 - retries. w_trace w' = w_trace w @ replicate k (Sleep 1000000000)
    \<and> r = e_nodes env (w_trace w') name \<and> (\<forall>e. r = Inl e \<longrightarrow> k = maxGetNodesRetries - 1 - retries)"
  using assms
proof (induction env name retries w rule: get_node_loop.induct)
  case (1 env name retries w)
  show ?case
  proof (cases "e_nodes env (w_trace w) name")
    case (Inr nd)
    with 1(2) show ?thesis by (intro exI[of _ 0]) (auto simp: get_node_loop.simps[of env name retries])
  next
    case (Inl err)
    show ?thesis
    proof (cases "retries + 1 \<ge> maxGetNodesRetries")
      case True
      with Inl 1(2,3) show ?thesis by (intro exI[of _ 0]) (simp add: get_node_loop.simps[of env name retries])
    next
      case False
      with Inl 1(2) have "get_node_loop env name (retries + 1) (emit (Sleep 1000000000) w) = (r, w')"
        by (simp add: get_node_loop.simps[of env name retries])
      from 1(1)[OF Inl False this] False obtain k where "k \<le> maxGetNodesRetries - 1 - (retries + 1)"
        "w_trace w' = w_trace w @ [Sleep 1000000000] @ replicate k (Sleep 1000000000)"
        "r = e_nodes env (w_trace w') name" "\<forall>e. r = Inl e \<longrightarrow> k = maxGetNodesRetries - 1 - (retries + 1)"
        by auto
      with False show ?thesis by (intro exI[of _ "Suc k"]) auto
    qed
  qed
qed

lemma get_node_loop_fields:
  "get_node_loop env name retries w = (r, w') \<Longrightarrow> w_Cache w' = w_Cache w \<and> w_ProcTable w' = w_ProcTable w"
proof (induction env name retries w rule: get_node_loop.induct)
  case (1 env name retries w)
  from 1(2) 1(1) show ?case
    by (subst (asm) get_node_loop.simps) (auto split: sum.splits if_splits)
qed

lemma requests_sleeps [simp]: "requests (replicate k (Sleep t)) = []"
  by (induction k) simp_all

lemma GetNode_spec:
  assumes "GetNode env name w = (r, w')"
  shows "\<exists>k\<le>2. w_trace w' = w_trace w @ replicate k (Sleep 1000000000)"
    "r = e_nodes env (w_trace w') name" "w_Cache w' = w_Cache w" "w_ProcTable w' = w_ProcTable w"
  using get_node_loop_spec[of env name 0 w r w'] get_node_loop_fields[of env name 0 w r w'] assms
  by (auto simp: GetNode_def)

lemma split_taints_eq:
  "split_taints key ts ex acc =
     (ex \<or> (\<exists>t\<in>set ts. taint_Key t = key), acc @ filter (\<lambda>t. taint_Key t \<noteq> key) ts)"
  by (induction ts arbitrary: ex acc) auto

text \<open>A request of the remover, made in some state of the log: the node as last read, less the
  taint.\<close>

definition untaint_request :: "env \<Rightarrow> Remover \<Rightarrow> request \<Rightarrow> bool" where
  "untaint_request env n r \<longleftrightarrow>
     (\<exists>tr nd. e_nodes env tr (om_Name (node_Meta (uc_Node (rm_User n)))) = Inr nd
        \<and> (\<exists>t\<in>set (node_Taints nd). taint_Key t = uc_ProvisionerNotReadyNodeTaintKey (rm_User n))
        \<and> r = ReqUpdateNode (nd\<lparr>node_Taints :=
              filter (\<lambda>t. taint_Key t \<noteq> uc_ProvisionerNotReadyNodeTaintKey (rm_User n)) (node_Taints nd)\<rparr>))"

lemma RemoveNodeTaint_spec:
  assumes "RemoveNodeTaint env n w = (res, n', w')"
  shows "w_Cache w' = w_Cache w \<and> w_ProcTable w' = w_ProcTable w \<and> rm_RuntimeConfig n' = rm_RuntimeConfig n
    \<and> (\<exists>es. w_trace w' = w_trace w @ es \<and> length (requests es) \<le> 1 \<and> (\<forall>r\<in>set (requests es). untaint_request env n r)
         \<and> (rm_taintRemoved n' \<longleftrightarrow> rm_taintRemoved n \<or> (\<exists>r. Call r None \<in> set es))
         \<and> (\<forall>e. res = Inr (Some e) \<longrightarrow> \<not> rm_taintRemoved n' \<and> (\<exists>r. es \<noteq> [] \<and> last es = Call r (Some e))))"
proof (cases "\<not> uc_RemoveNodeNotReadyTaint (rm_User n) \<or> rm_taintRemoved n")
  case True
  with assms show ?thesis by (auto simp: RemoveNodeTaint_def)
next
  case False
  obtain r w1 where g: "GetNode env (om_Name (node_Meta (uc_Node (rm_User n)))) w = (r, w1)" by fastforce
  note gs = GetNode_spec[OF g]
  from gs(1) obtain k where k: "w_trace w1 = w_trace w @ replicate k (Sleep 1000000000)" by blast
  show ?thesis
  proof (cases r)
    case (Inl e)
    with assms False g k gs(3,4) show ?thesis by (auto simp: RemoveNodeTaint_def)
  next
    case (Inr nd)
    let ?key = "uc_ProvisionerNotReadyNodeTaintKey (rm_User n)"
    let ?req = "ReqUpdateNode (nd\<lparr>node_Taints := filter (\<lambda>t. taint_Key t \<noteq> ?key) (node_Taints nd)\<rparr>)"
    have eq: "RemoveNodeTaint env n w =
        (if \<exists>t\<in>set (node_Taints nd). taint_Key t = ?key then
           (case call env ?req w1 of
              (Some err, w) \<Rightarrow> (Inr (Some err), n, w)
            | (None, w) \<Rightarrow> (Inr None, n\<lparr>rm_taintRemoved := True\<rparr>, w))
         else (Inr None, n, w1))"
      using False g Inr by (simp add: RemoveNodeTaint_def split_taints_eq Let_def)
    show ?thesis
    proof (cases "\<exists>t\<in>set (node_Taints nd). taint_Key t = ?key")
      case True
      then have u: "untaint_request env n ?req"
        using gs(2) Inr unfolding untaint_request_def by metis
      have "res = Inr (e_api env (w_trace w1) ?req) \<and> w' = emit (Call ?req (e_api env (w_trace w1) ?req)) w1
          \<and> n' = (if e_api env (w_trace w1) ?req = None then n\<lparr>rm_taintRemoved := True\<rparr> else n)"
        using assms True unfolding eq call_def by (auto simp: Let_def split: option.splits)
      with False u k gs(3,4) show ?thesis by (auto split: if_splits)
    next
      case nofind: False
      with assms k gs(3,4) False show ?thesis unfolding eq by auto
    qed
  qed
qed

text \<open>The attempts of a retry loop, of which at most the last was accepted.\<close>

definition attempts :: "env \<Rightarrow> Remover \<Rightarrow> nat \<Rightarrow> Remover \<Rightarrow> trace \<Rightarrow> bool" where
  "attempts env n m n' es \<longleftrightarrow> length (requests es) \<le> m \<and> (\<forall>r\<in>set (requests es). untaint_request env n r)
     \<and> (rm_taintRemoved n' \<longleftrightarrow> rm_taintRemoved n \<or> (\<exists>r. Call r None \<in> set es))
     \<and> (\<forall>xs r ys. es = xs @ Call r None # ys \<longrightarrow> requests ys = [])"

lemma attempts_Nil [simp]: "attempts env n m n []"
  by (simp add: attempts_def)

lemma attempts_one:
  assumes "length (requests es) \<le> 1" "\<forall>r\<in>set (requests es). untaint_request env n r"
    and "rm_taintRemoved n' \<longleftrightarrow> rm_taintRemoved n \<or> (\<exists>r. Call r None \<in> set es)" "0 < m"
  shows "attempts env n m n' es"
  using assms unfolding attempts_def by auto

lemma attempts_retry:
  assumes "length (requests es) \<le> 1" "\<forall>r\<in>set (requests es). untaint_request env n r"
    and "\<forall>r. Call r None \<notin> set es" "rm_RuntimeConfig n1 = rm_RuntimeConfig n" "\<not> rm_taintRemoved n1" "\<not> rm_taintRemoved n"
    and "attempts env n1 m n' es'"
  shows "attempts env n (Suc m) n' (es @ Sleep t # es')"
proof -
  have "requests ys = []" if "es @ Sleep t # es' = xs @ Call r None # ys" for xs r ys
  proof -
    from that obtain xs' where "es' = xs' @ Call r None # ys"
      using assms(3) by (auto simp: append_eq_append_conv2 Cons_eq_append_conv append_eq_Cons_conv)
    with assms(7) show ?thesis by (simp add: attempts_def)
  qed
  moreover have "untaint_request env n1 = untaint_request env n" by (simp add: untaint_request_def assms(4) fun_eq_iff)
  ultimately show ?thesis using assms by (auto simp: attempts_def)
qed

lemma taint_backoff_spec:
  "taint_backoff env rand retries p n w = (fatal, n', w') \<Longrightarrow>
     w_Cache w' = w_Cache w \<and> w_ProcTable w' = w_ProcTable w \<and> rm_RuntimeConfig n' = rm_RuntimeConfig n
     \<and> (\<exists>es. w_trace w' = w_trace w @ es \<and> attempts env n (maxRemoveTaintRetries - retries) n' es)"
proof (induction env rand retries p n w rule: taint_backoff.induct)
  case (1 env rand retries p n w)
  show ?case
  proof (cases "ShouldRemoveTaint n \<and> retries < maxRemoveTaintRetries")
    case False
    with 1(2) have "n' = n" "w' = w" by (subst (asm) taint_backoff.simps; auto)+
    then show ?thesis by auto
  next
    case True
    obtain res n1 w1 where rt: "RemoveNodeTaint env n w = (res, n1, w1)" by (metis prod_cases3)
    from RemoveNodeTaint_spec[OF rt] obtain es where es: "w_Cache w1 = w_Cache w" "w_ProcTable w1 = w_ProcTable w"
      "rm_RuntimeConfig n1 = rm_RuntimeConfig n" "w_trace w1 = w_trace w @ es" "length (requests es) \<le> 1"
      "\<forall>r\<in>set (requests es). untaint_request env n r"
      "rm_taintRemoved n1 \<longleftrightarrow> rm_taintRemoved n \<or> (\<exists>r. Call r None \<in> set es)"
      "\<forall>e. res = Inr (Some e) \<longrightarrow> \<not> rm_taintRemoved n1"
      by blast
    show ?thesis
    proof (cases "\<exists>e. res = Inr (Some e)")
      case False
      with 1(2) True rt have "n' = n1" "w' = w1"
        by (subst (asm) taint_backoff.simps; auto split: sum.splits option.splits)+
      with es True attempts_one[OF es(5-7)] show ?thesis by auto
    next
      case again: True
      then obtain e where e: "res = Inr (Some e)" ..
      let ?p = "p + rand (w_trace w1) (quot64 removeTaintRetryPeriod 1000000000) * 1000000000"
      from 1(2) True rt e have "taint_backoff env rand (retries + 1) ?p n1 (emit (Sleep ?p) w1) = (fatal, n', w')"
        by (subst (asm) taint_backoff.simps) (simp add: Let_def)
      from 1(1)[OF True rt[symmetric] e refl refl refl refl this] obtain es' where
        es': "w_Cache w' = w_Cache w1" "w_ProcTable w' = w_ProcTable w1" "rm_RuntimeConfig n' = rm_RuntimeConfig n1"
          "w_trace w' = (w_trace w1 @ [Sleep ?p]) @ es'" "attempts env n1 (maxRemoveTaintRetries - (retries + 1)) n' es'"
        by auto
      have m: "maxRemoveTaintRetries - retries = Suc (maxRemoveTaintRetries - (retries + 1))" using True by arith
      have "attempts env n (maxRemoveTaintRetries - retries) n' (es @ Sleep ?p # es')"
        unfolding m using es(3,5-8) e es'(5) by (intro attempts_retry) auto
      with es es' show ?thesis by auto
    qed
  qed
qed

section \<open>Properties\<close>

text \<open>C22. The taint remover is bounded and touches nothing but its taint: one call sends at most
  three updates, each of them the node as last read with exactly the taints of the configured key
  dropped, none after one was accepted, and the remover counts as done exactly if one was; the
  cache and the process table are not touched.\<close>

theorem taint_removal_bounded:
  assumes "RemoveTaintWithBackoff env rand n w = (fatal, n', w')"
  shows "w_Cache w' = w_Cache w \<and> w_ProcTable w' = w_ProcTable w
    \<and> (\<exists>es. w_trace w' = w_trace w @ es \<and> length (requests es) \<le> 3 \<and> (\<forall>r\<in>set (requests es). untaint_request env n r)
         \<and> (rm_taintRemoved n' \<longleftrightarrow> rm_taintRemoved n \<or> (\<exists>r. Call r None \<in> set es))
         \<and> (\<forall>xs r ys. es = xs @ Call r None # ys \<longrightarrow> requests ys = []))"
  using taint_backoff_spec[OF assms[unfolded RemoveTaintWithBackoff_def]] by (auto simp: attempts_def)

definition ex_tainted :: node where
  "ex_tainted = (ex_node ''n1'')\<lparr>node_Taints := [\<lparr>taint_Key = ''notready'', taint_Value = [], taint_Effect = ''NoSchedule''\<rparr>,
     \<lparr>taint_Key = ''gpu'', taint_Value = [], taint_Effect = ''NoSchedule''\<rparr>]\<rparr>"

definition ex_remover :: Remover where
  "ex_remover = NewRemover (ex_rc\<lparr>rc_UserConfig := ex_user\<lparr>uc_RemoveNodeNotReadyTaint := True,
     uc_ProvisionerNotReadyNodeTaintKey := ''notready''\<rparr>\<rparr>)"

text \<open>A remover that has to act on a tainted node succeeds with its first update.\<close>

lemma RemoveTaintWithBackoff_acts:
  assumes "ShouldRemoveTaint n" "e_nodes env (w_trace w) (om_Name (node_Meta (uc_Node (rm_User n)))) = Inr nd"
    and "\<exists>t\<in>set (node_Taints nd). taint_Key t = uc_ProvisionerNotReadyNodeTaintKey (rm_User n)"
    and "req = ReqUpdateNode (nd\<lparr>node_Taints :=
      filter (\<lambda>t. taint_Key t \<noteq> uc_ProvisionerNotReadyNodeTaintKey (rm_User n)) (node_Taints nd)\<rparr>)"
    and "e_api env (w_trace w) req = None"
  shows "RemoveTaintWithBackoff env rand n w = (None, n\<lparr>rm_taintRemoved := True\<rparr>, emit (Call req None) w)"
proof -
  have "RemoveNodeTaint env n w = (Inr None, n\<lparr>rm_taintRemoved := True\<rparr>, emit (Call req None) w)"
    using assms by (simp add: RemoveNodeTaint_def ShouldRemoveTaint_def GetNode_def get_node_loop.simps
        split_taints_eq call_def)
  with assms(1) show ?thesis by (simp add: RemoveTaintWithBackoff_def taint_backoff.simps)
qed

theorem taint_removal_bounded_witness:
  "\<exists>es. w_trace (emit (Call (ReqUpdateNode (ex_tainted\<lparr>node_Taints := [\<lparr>taint_Key = ''gpu'', taint_Value = [], taint_Effect = ''NoSchedule''\<rparr>]\<rparr>)) None) ex_world)
      = w_trace ex_world @ es \<and> length (requests es) \<le> 3
    \<and> (\<forall>r\<in>set (requests es). untaint_request (ex_env\<lparr>e_nodes := \<lambda>_ _. Inr ex_tainted\<rparr>) ex_remover r)"
proof -
  let ?env = "ex_env\<lparr>e_nodes := \<lambda>_ _. Inr ex_tainted\<rparr>"
  let ?req = "ReqUpdateNode (ex_tainted\<lparr>node_Taints := [\<lparr>taint_Key = ''gpu'', taint_Value = [], taint_Effect = ''NoSchedule''\<rparr>]\<rparr>)"
  have "RemoveTaintWithBackoff ?env (\<lambda>_ _. 0) ex_remover ex_world
      = (None, ex_remover\<lparr>rm_taintRemoved := True\<rparr>, emit (Call ?req None) ex_world)"
    by (rule RemoveTaintWithBackoff_acts[where nd = ex_tainted])
      (simp_all add: ShouldRemoveTaint_def ex_remover_def NewRemover_def ex_tainted_def ex_env_def)
  from taint_removal_bounded[OF this] show ?thesis by blast
qed

end
