(* ===== verification/Controller.thy ===== *)
theory Controller
  imports Populator Discovery Node_Taint
begin

text \<open>
  \<open>pkg/controller/controller.go\<close>: starting the sync loop for a configuration, one round of the loop
  (reclaim, discover, remove the taint, sleep), the stop signal, and the restart of the loop when
  the configuration changes. The handlers of the default HTTP multiplexer belong to the process
  and survive a restart of the loop, as does the process table; the volume cache does not.
\<close>

declare map_of_eq_Some_iff [simp del] Some_eq_map_of_iff [simp del]

section \<open>Starting the loop\<close>

text \<open>How far the process has come: still up, ended by \<open>klog.Fatalf\<close>, or crashed by a panic.\<close>

datatype 'a run = Up 'a | Exited error | Panicked

text \<open>\<open>http.ServeMux.Handle\<close> panics on an empty pattern and on one that is already registered. \<open>InstallPathHandler\<close>
  registers the path and one pattern below it per check.\<close>

definition mux_Handle :: "string \<Rightarrow> string list option \<Rightarrow> string list option" where
  "mux_Handle pattern mux =
     (case mux of None \<Rightarrow> None | Some ps \<Rightarrow> if pattern = [] \<or> pattern \<in> set ps then None else Some (ps @ [pattern]))"

definition InstallPathHandler :: "string \<Rightarrow> string list \<Rightarrow> string list \<Rightarrow> string list option" where
  "InstallPathHandler path checks mux =
     foldl (\<lambda>m check. mux_Handle (path @ ''/'' @ check) m) (mux_Handle path (Some mux))
       (if checks = [] then [''ping''] else checks)"

definition provisionerName :: "UserConfig \<Rightarrow> string" where
  "provisionerName config =
     (if uc_UseNodeNameOnly config then ''local-volume-provisioner-'' @ node_Name (uc_Node config)
      else ''local-volume-provisioner-'' @ node_Name (uc_Node config) @ ''-'' @ om_UID (node_Meta (uc_Node config)))"

record local_controller =
  lc_Deleter :: Deleter
  lc_Discoverer :: Discoverer
  lc_Remover :: Remover
  lc_jobController :: "jobController option"

text \<open>What the outside decides while the loop starts: whether the volume utility can be created,
  whether each informer has synced, and the notifications delivered until then.\<close>

record startup =
  st_VolumeUtil :: "error option"
  st_synced :: "(string \<times> bool) list"
  st_events :: "pv_event list"

definition start_controller :: "startup \<Rightarrow> UserConfig \<Rightarrow> string list \<Rightarrow> world
    \<Rightarrow> local_controller run \<times> string list \<times> world" where
  "start_controller st config mux w =
     (case st_VolumeUtil st of
        Some err \<Rightarrow> (Exited (Wrapf ''Error initializing VolumeUtil: %v'' [] err), mux, w)
      | None \<Rightarrow>
          let runtimeConfig = \<lparr>rc_UserConfig = config, rc_Name = provisionerName config\<rparr>;
              w = w\<lparr>w_Cache := NewVolumeCache\<rparr>;
              jobController = (if uc_UseJobForCleaning config
                 then Some (NewJobController [(NodeNameLabel, node_Name (uc_Node config))] runtimeConfig) else None);
              cleanupTracker = \<lparr>ct_JobController = map_option jc_namespace jobController\<rparr> in
          (case NewDiscoverer runtimeConfig cleanupTracker of
             Inl err \<Rightarrow> (Exited (Wrapf ''Error initializing discoverer: %v'' [] err), mux, w)
           | Inr discoverer \<Rightarrow>
               (case InstallPathHandler ''/ready'' [readyz_Name] mux of
                  None \<Rightarrow> (Panicked, mux, w)
                | Some mux \<Rightarrow>
                    (case filter (\<lambda>(v, ok). \<not> ok) (st_synced st) of
                       (v, _) # _ \<Rightarrow> (Exited (Errorf ''Error syncing informer for %v'' [v]), mux, w)
                     | [] \<Rightarrow>
                         (Up \<lparr>lc_Deleter = NewDeleter runtimeConfig cleanupTracker, lc_Discoverer = discoverer,
                              lc_Remover = NewRemover runtimeConfig, lc_jobController = jobController\<rparr>,
                          mux, w\<lparr>w_Cache := run_events runtimeConfig (st_events st) (w_Cache w)\<rparr>)))))"

section \<open>The loop\<close>

definition controller_round :: "env \<Rightarrow> (trace \<Rightarrow> int \<Rightarrow> int) \<Rightarrow> time \<Rightarrow> local_controller \<Rightarrow> world
    \<Rightarrow> local_controller run \<times> world" where
  "controller_round env rand discoveryPeriod c w =
     (case DeletePVs env (lc_Deleter c) w of
        None \<Rightarrow> (Panicked, w)
      | Some w \<Rightarrow>
          (case DiscoverLocalVolumes env (lc_Discoverer c) w of
             None \<Rightarrow> (Panicked, w)
           | Some (discoverer, w) \<Rightarrow>
               let c = c\<lparr>lc_Discoverer := discoverer\<rparr> in
               case (if \<not> ShouldRemoveTaint (lc_Remover c) \<and> Check discoverer = None
                     then RemoveTaintWithBackoff env rand (lc_Remover c) w
                     else (None, lc_Remover c, w)) of
                 (Some err, remover, w) \<Rightarrow> (Exited err, w)
               | (None, remover, w) \<Rightarrow> (Up (c\<lparr>lc_Remover := remover\<rparr>), emit (Sleep discoveryPeriod) w)))"

text \<open>The loop until it is told to stop: each entry says whether the stop signal is waiting when the
  loop selects. The result is the loop's state, or \<open>None\<close> inside \<open>Up\<close> once it has stopped.\<close>

fun sync_loop :: "env \<Rightarrow> (trace \<Rightarrow> int \<Rightarrow> int) \<Rightarrow> time \<Rightarrow> bool list \<Rightarrow> local_controller \<Rightarrow> world
    \<Rightarrow> local_controller option run \<times> world" where
  "sync_loop env rand period [] c w = (Up (Some c), w)"
| "sync_loop env rand period (stop # stops) c w =
     (if stop then (Up None, w)
      else case controller_round env rand period c w of
        (Up c, w) \<Rightarrow> sync_loop env rand period stops c w
      | (Exited err, w) \<Rightarrow> (Exited err, w)
      | (Panicked, w) \<Rightarrow> (Panicked, w))"

text \<open>\<open>StartLocalController\<close>: start, then loop.\<close>

definition StartLocalController :: "env \<Rightarrow> (trace \<Rightarrow> int \<Rightarrow> int) \<Rightarrow> time \<Rightarrow> startup \<Rightarrow> bool list \<Rightarrow> UserConfig
    \<Rightarrow> string list \<Rightarrow> world \<Rightarrow> local_controller option run \<times> string list \<times> world" where
  "StartLocalController env rand period st stops config mux w =
     (case start_controller st config mux w of
        (Up c, mux, w) \<Rightarrow> (case sync_loop env rand period stops c w of (r, w) \<Rightarrow> (r, mux, w))
      | (Exited err, mux, w) \<Rightarrow> (Exited err, mux, w)
      | (Panicked, mux, w) \<Rightarrow> (Panicked, mux, w))"

text \<open>\<open>RunLocalController\<close>: the configurations in the order they arrive, each with what the outside
  decides while its loop starts and runs. A new configuration waits until the running loop has
  taken the stop signal.\<close>

fun RunLocalController :: "env \<Rightarrow> (trace \<Rightarrow> int \<Rightarrow> int) \<Rightarrow> time \<Rightarrow> node \<Rightarrow> string \<Rightarrow> string
    \<Rightarrow> (ProvisionerConfiguration \<times> startup \<times> bool list) list \<Rightarrow> string list \<Rightarrow> world
    \<Rightarrow> local_controller option run \<times> string list \<times> world" where
  "RunLocalController env rand period nd namespace jobImage [] mux w = (Up None, mux, w)"
| "RunLocalController env rand period nd namespace jobImage ((config, st, stops) # updates) mux w =
     (case StartLocalController env rand period st stops
             (UserConfigFromProvisionerConfig nd namespace jobImage config) mux w of
        (Up None, mux, w) \<Rightarrow> RunLocalController env rand period nd namespace jobImage updates mux w
      | r \<Rightarrow> r)"

section \<open>Lemmas\<close>

lemma mux_Handle_simps [simp]:
  "mux_Handle p None = None" "mux_Handle p (Some mux) = (if p = [] \<or> p \<in> set mux then None else Some (mux @ [p]))"
  by (simp_all add: mux_Handle_def)

lemma mux_fold_None [simp]: "foldl (\<lambda>m c. mux_Handle (f c) m) None cs = None"
  by (induction cs) simp_all

lemma mux_fold:
  "foldl (\<lambda>m c. mux_Handle (f c) m) (Some mux) cs =
     (if [] \<notin> set (map f cs) \<and> distinct (map f cs) \<and> set (map f cs) \<inter> set mux = {} then Some (mux @ map f cs) else None)"
  by (induction cs arbitrary: mux) auto

lemma InstallPathHandler_eq:
  "InstallPathHandler path checks mux =
     (let ps = path # map (\<lambda>c. path @ ''/'' @ c) (if checks = [] then [''ping''] else checks)
      in if path \<noteq> [] \<and> distinct ps \<and> set ps \<inter> set mux = {} then Some (mux @ ps) else None)"
proof (cases "path = [] \<or> path \<in> set mux")
  case True
  then show ?thesis by (auto simp: InstallPathHandler_def Let_def)
next
  case False
  then show ?thesis by (auto simp: InstallPathHandler_def mux_fold Let_def)
qed

text \<open>Whether the metrics path or the readiness handler is registered first makes no difference.\<close>

lemma mux_order_irrelevant:
  "Option.bind (mux_Handle p (Some mux)) (InstallPathHandler path checks) = None
     \<longleftrightarrow> mux_Handle p (InstallPathHandler path checks mux) = None"
  by (auto simp: InstallPathHandler_eq Let_def split: if_splits)

lemma registered_not_Up: "''/ready'' \<in> set mux \<Longrightarrow> start_controller st config mux w \<noteq> (Up c, mux', w')"
  by (auto simp: start_controller_def InstallPathHandler_eq Let_def split: option.splits sum.splits list.splits)

lemma start_controller_Up:
  assumes "start_controller st config mux w = (Up c, mux', w')"
  shows "dl_User (lc_Deleter c) = config" "ds_User (lc_Discoverer c) = config" "rm_User (lc_Remover c) = config"
    "dl_RuntimeConfig (lc_Deleter c) = ds_RuntimeConfig (lc_Discoverer c)"
    "rc_Name (ds_RuntimeConfig (lc_Discoverer c)) = provisionerName config"
    "dl_CleanupStatus (lc_Deleter c) = ds_CleanupTracker (lc_Discoverer c)"
    "ct_JobController (ds_CleanupTracker (lc_Discoverer c)) =
       (if uc_UseJobForCleaning config then Some (uc_Namespace config) else None)"
    "ds_ownerReference (lc_Discoverer c) \<noteq> None" "\<not> ds_ready (lc_Discoverer c)"
    "\<not> rm_taintRemoved (lc_Remover c)"
    "w_ProcTable w' = w_ProcTable w" "w_trace w' = w_trace w" "''/ready'' \<in> set mux'"
proof -
  from assms have
    "dl_User (lc_Deleter c) = config \<and> ds_User (lc_Discoverer c) = config \<and> rm_User (lc_Remover c) = config
     \<and> dl_RuntimeConfig (lc_Deleter c) = ds_RuntimeConfig (lc_Discoverer c)
     \<and> rc_Name (ds_RuntimeConfig (lc_Discoverer c)) = provisionerName config
     \<and> dl_CleanupStatus (lc_Deleter c) = ds_CleanupTracker (lc_Discoverer c)
     \<and> ct_JobController (ds_CleanupTracker (lc_Discoverer c)) =
         (if uc_UseJobForCleaning config then Some (uc_Namespace config) else None)
     \<and> ds_ownerReference (lc_Discoverer c) \<noteq> None \<and> \<not> ds_ready (lc_Discoverer c) \<and> \<not> rm_taintRemoved (lc_Remover c)
     \<and> w_ProcTable w' = w_ProcTable w \<and> w_trace w' = w_trace w \<and> ''/ready'' \<in> set mux'"
    by (auto simp: start_controller_def NewDiscoverer_def NewDeleter_def NewRemover_def NewJobController_def Let_def
        InstallPathHandler_def mux_Handle_def split: option.splits sum.splits if_splits list.splits)
  then show "dl_User (lc_Deleter c) = config" "ds_User (lc_Discoverer c) = config" "rm_User (lc_Remover c) = config"
    "dl_RuntimeConfig (lc_Deleter c) = ds_RuntimeConfig (lc_Discoverer c)"
    "rc_Name (ds_RuntimeConfig (lc_Discoverer c)) = provisionerName config"
    "dl_CleanupStatus (lc_Deleter c) = ds_CleanupTracker (lc_Discoverer c)"
    "ct_JobController (ds_CleanupTracker (lc_Discoverer c)) =
       (if uc_UseJobForCleaning config then Some (uc_Namespace config) else None)"
    "ds_ownerReference (lc_Discoverer c) \<noteq> None" "\<not> ds_ready (lc_Discoverer c)"
    "\<not> rm_taintRemoved (lc_Remover c)"
    "w_ProcTable w' = w_ProcTable w" "w_trace w' = w_trace w" "''/ready'' \<in> set mux'"
    by blast+
qed

text \<open>A loop that was started: deleter, discoverer and remover share one configuration and one
  cleanup tracker, which has a job controller whenever jobs are used.\<close>

definition lc_ok :: "local_controller \<Rightarrow> bool" where
  "lc_ok c \<longleftrightarrow> dl_RuntimeConfig (lc_Deleter c) = ds_RuntimeConfig (lc_Discoverer c)
     \<and> dl_CleanupStatus (lc_Deleter c) = ds_CleanupTracker (lc_Discoverer c)
     \<and> (uc_UseJobForCleaning (ds_User (lc_Discoverer c)) \<longrightarrow> ct_JobController (ds_CleanupTracker (lc_Discoverer c)) \<noteq> None)
     \<and> ds_ownerReference (lc_Discoverer c) \<noteq> None"

lemma start_controller_ok: "start_controller st config mux w = (Up c, mux', w') \<Longrightarrow> lc_ok c"
  using start_controller_Up[of st config mux w c mux' w'] by (simp add: lc_ok_def)

lemma RemoveTaintWithBackoff_idle: "\<not> ShouldRemoveTaint n \<Longrightarrow> RemoveTaintWithBackoff env rand n w = (None, n, w)"
  by (simp add: RemoveTaintWithBackoff_def taint_backoff.simps)

text \<open>The taint is only looked at when there is nothing to remove, so a round amounts to a pass of
  the deleter, a pass of the discoverer and the pause.\<close>

lemma controller_round_eq:
  "controller_round env rand period c w =
     (case DeletePVs env (lc_Deleter c) w of
        None \<Rightarrow> (Panicked, w)
      | Some w1 \<Rightarrow>
          (case DiscoverLocalVolumes env (lc_Discoverer c) w1 of
             None \<Rightarrow> (Panicked, w1)
           | Some (d, w2) \<Rightarrow> (Up (c\<lparr>lc_Discoverer := d\<rparr>), emit (Sleep period) w2)))"
  by (auto simp: controller_round_def Let_def RemoveTaintWithBackoff_idle split: option.splits)

lemma DiscoverLocalVolumes_keeps:
  "DiscoverLocalVolumes env d w = Some (d', w') \<Longrightarrow> d' = d\<lparr>ds_ready := ds_ready d'\<rparr>"
  by (auto simp: DiscoverLocalVolumes_def split: option.splits)

lemma controller_round_ok:
  assumes "controller_round env rand period c w = (Up c', w')" "lc_ok c"
  shows "lc_ok c'" "lc_Remover c' = lc_Remover c" "lc_Deleter c' = lc_Deleter c"
    "ds_User (lc_Discoverer c') = ds_User (lc_Discoverer c)"
proof -
  from assms(1) obtain d w1 w2 where d: "DiscoverLocalVolumes env (lc_Discoverer c) w1 = Some (d, w2)"
    and c': "c' = c\<lparr>lc_Discoverer := d\<rparr>"
    by (auto simp: controller_round_eq split: option.splits)
  obtain rdy where "d = (lc_Discoverer c)\<lparr>ds_ready := rdy\<rparr>" using DiscoverLocalVolumes_keeps[OF d] by blast
  with assms(2) c' show "lc_ok c'" "lc_Remover c' = lc_Remover c" "lc_Deleter c' = lc_Deleter c"
    "ds_User (lc_Discoverer c') = ds_User (lc_Discoverer c)"
    by (simp_all add: lc_ok_def)
qed

text \<open>The requests a round may send, and what it keeps.\<close>

fun no_node_update :: "effect \<Rightarrow> bool" where
  "no_node_update (Call (ReqUpdateNode _) _) = False"
| "no_node_update _ = True"

lemma about_no_node_update: "about n e \<Longrightarrow> no_node_update e"
  by (cases "(n, e)" rule: about.cases) auto

lemma quiet_no_node_update: "quiet e \<Longrightarrow> no_node_update e"
  by (cases e) auto

lemma controller_round_effects:
  assumes "controller_round env rand period c w = (Up c', w')" "jobs_named env" "pt_inv (w_ProcTable w)"
  shows "ext no_node_update w w'" "pt_inv (w_ProcTable w')" "w_Cache w' = w_Cache w"
proof -
  from assms(1) obtain d w1 w2 where del: "DeletePVs env (lc_Deleter c) w = Some w1"
    and dis: "DiscoverLocalVolumes env (lc_Discoverer c) w1 = Some (d, w2)"
    and w': "w' = emit (Sleep period) w2"
    by (auto simp: controller_round_eq split: option.splits)
  note r = reclaim_all_effects[OF del[unfolded DeletePVs_def] assms(2,3)]
  from dis obtain rdy where "discover_classes env (lc_Discoverer c) (uc_DiscoveryMap (ds_User (lc_Discoverer c))) True w1
      = Some (rdy, w2)" by (auto simp: DiscoverLocalVolumes_def split: option.splits)
  from discover_classes_pass[OF assms(2) this, of w1] r
  have p: "pass_inv env (lc_Discoverer c) w1 w2" by (simp add: pass_inv_def)
  have "ext no_node_update w w1" using r
    by (auto elim!: ext_mono intro: about_no_node_update quiet_no_node_update)
  also have "ext no_node_update w1 w2"
    by (rule pass_log_ext) (use p in \<open>auto simp: pass_inv_def disc_effect_def quiet_no_node_update\<close>)
  finally show "ext no_node_update w w'" by (simp add: w')
  show "pt_inv (w_ProcTable w')" "w_Cache w' = w_Cache w" using p r by (auto simp: w' pass_inv_def)
qed

lemma sync_loop_effects:
  "sync_loop env rand period stops c w = (Up r, w') \<Longrightarrow> jobs_named env \<Longrightarrow> pt_inv (w_ProcTable w) \<Longrightarrow> lc_ok c \<Longrightarrow>
     ext no_node_update w w' \<and> (\<forall>c'. r = Some c' \<longrightarrow> lc_Remover c' = lc_Remover c)"
proof (induction stops arbitrary: c w)
  case (Cons stop stops)
  show ?case
  proof (cases "controller_round env rand period c w")
    case (Pair run w1)
    show ?thesis
    proof (cases stop)
      case True
      with Cons.prems show ?thesis by simp
    next
      case False
      with Pair Cons.prems(1) obtain c1 where r: "controller_round env rand period c w = (Up c1, w1)"
        by (auto split: run.splits)
      note e = controller_round_effects[OF r Cons.prems(2,3)] and ok = controller_round_ok[OF r Cons.prems(4)]
      from False r Cons.prems(1) have "sync_loop env rand period stops c1 w1 = (Up r, w')" by simp
      from Cons.IH[OF this Cons.prems(2) e(2) ok(1)] e(1) ok(2) show ?thesis by (auto intro: ext_trans)
    qed
  qed
qed auto

lemma NewDiscoverer_node:
  assumes "NewDiscoverer rc t = Inr d" "uc_Node (rc_UserConfig rc') = uc_Node (rc_UserConfig rc)"
  shows "\<exists>d'. NewDiscoverer rc' t' = Inr d'"
  using assms by (auto simp: NewDiscoverer_def Let_def split: sum.splits)

lemma start_twice:
  assumes "start_controller st config mux w = (Up c, mux', w')" and "uc_Node config2 = uc_Node config"
    and "st_VolumeUtil st2 = None"
  shows "fst (start_controller st2 config2 mux' w2) = Panicked"
proof -
  let ?rc = "\<lparr>rc_UserConfig = config, rc_Name = provisionerName config\<rparr>"
  have "\<exists>t d. NewDiscoverer ?rc t = Inr d"
    using assms(1) by (auto simp: start_controller_def Let_def split: option.splits sum.splits)
  then obtain t d where nd: "NewDiscoverer ?rc t = Inr d" by blast
  have d2: "\<exists>d2. NewDiscoverer \<lparr>rc_UserConfig = config2, rc_Name = n\<rparr> t2 = Inr d2" for n t2
    by (rule NewDiscoverer_node[OF nd]) (simp add: assms(2))
  have m: "InstallPathHandler ''/ready'' [readyz_Name] mux' = None"
    using start_controller_Up(13)[OF assms(1)] by (simp add: InstallPathHandler_def mux_Handle_def)
  show ?thesis
    unfolding start_controller_def Let_def assms(3) m
    using d2 by (auto split: sum.splits) (metis sum.distinct(1))+
qed

section \<open>Properties\<close>

text \<open>A change of the configuration crashes the provisioner: when the loop of one configuration
  has been started and stopped for an update, starting the loop of the next one on the same node
  panics, because the readiness handler is registered again with the process's HTTP multiplexer.\<close>

theorem config_reload_crashes:
  assumes "RunLocalController env rand period nd ns img [(config, st, stops)] mux w = (Up None, mux1, w1)"
    and "st_VolumeUtil st2 = None"
  shows "fst (RunLocalController env rand period nd ns img ((config, st, stops) # (config2, st2, stops2) # updates) mux w)
    = Panicked"
proof -
  let ?u = "UserConfigFromProvisionerConfig nd ns img"
  from assms(1) have s: "StartLocalController env rand period st stops (?u config) mux w = (Up None, mux1, w1)"
    by (auto split: prod.splits run.splits option.splits)
  then obtain c w0 where "start_controller st (?u config) mux w = (Up c, mux1, w0)"
    by (auto simp: StartLocalController_def split: run.splits prod.splits)
  from start_twice[OF this _ assms(2), of "?u config2" w1]
  have "fst (start_controller st2 (?u config2) mux1 w1) = Panicked"
    by (simp add: UserConfigFromProvisionerConfig_def)
  then have "fst (StartLocalController env rand period st2 stops2 (?u config2) mux1 w1) = Panicked"
    by (auto simp: StartLocalController_def split: run.splits prod.splits)
  with s show ?thesis by (auto split: prod.splits run.splits option.splits)
qed

text \<open>C21. The loop never removes the not-ready taint: however many rounds a started loop runs, ready
  or not and with the removal configured, it sends no update of the node and its remover never
  counts as done. The loop calls the remover exactly when the remover has nothing to do.\<close>

theorem taint_never_removed:
  assumes "start_controller st config mux w0 = (Up c, mux', w)"
    and "sync_loop env rand period stops c w = (Up r, w')" and "jobs_named env" and "pt_inv (w_ProcTable w)"
  shows "\<exists>es. w_trace w' = w_trace w @ es \<and> (\<forall>nd. ReqUpdateNode nd \<notin> set (requests es))
    \<and> (\<forall>c'. r = Some c' \<longrightarrow> \<not> rm_taintRemoved (lc_Remover c'))"
proof -
  from sync_loop_effects[OF assms(2-4) start_controller_ok[OF assms(1)]]
  obtain es where es: "w_trace w' = w_trace w @ es" "list_all no_node_update es"
    and r: "\<forall>c'. r = Some c' \<longrightarrow> lc_Remover c' = lc_Remover c" by (auto simp: ext_def)
  then have "ReqUpdateNode nd \<notin> set (requests es)" for nd
    by (auto simp: set_requests list_all_iff)
  with es(1) r start_controller_Up(10)[OF assms(1)] show ?thesis by auto
qed

text \<open>C19. A round of a started loop never ends the process, unless the cache holds a released volume
  to be deleted whose class is configured and which has no local source, in which case it
  panics; otherwise the loop goes on with the same configuration, after a pass of each
  component and the pause.\<close>

theorem round_survives:
  assumes "lc_ok c"
  shows "if \<exists>pv\<in>set (ListPVs (w_Cache w)). eligible pv \<and> pvs_Local (pv_Spec pv) = None
            \<and> gm_get (uc_DiscoveryMap (ds_User (lc_Discoverer c))) (pvs_StorageClassName (pv_Spec pv)) \<noteq> None
         then fst (controller_round env rand period c w) = Panicked
         else \<exists>c' w'. controller_round env rand period c w = (Up c', w') \<and> lc_ok c'
           \<and> ds_User (lc_Discoverer c') = ds_User (lc_Discoverer c)"
proof -
  let ?bad = "\<exists>pv\<in>set (ListPVs (w_Cache w)). panics (lc_Deleter c) pv"
  have eq: "DeletePVs env (lc_Deleter c) w = None \<longleftrightarrow> ?bad"
    using assms unfolding DeletePVs_def lc_ok_def by (intro reclaim_all_None) auto
  have "\<exists>d w2. DiscoverLocalVolumes env (lc_Discoverer c) w1 = Some (d, w2)" for w1
    using assms by (intro DiscoverLocalVolumes_total) (auto simp: lc_ok_def)
  then have d: "DiscoverLocalVolumes env (lc_Discoverer c) w1 \<noteq> None" for w1 by fastforce
  show ?thesis
  proof (cases ?bad)
    case True
    with eq assms show ?thesis by (auto simp: controller_round_eq panics_def lc_ok_def)
  next
    case False
    then obtain w1 where w1: "DeletePVs env (lc_Deleter c) w = Some w1" using eq by blast
    with d[of w1] obtain c' w' where r: "controller_round env rand period c w = (Up c', w')"
      by (auto simp: controller_round_eq split: option.splits)
    from controller_round_ok[OF r assms] r False assms show ?thesis
      by (auto simp: panics_def lc_ok_def)
  qed
qed

definition ex_startup :: startup where
  "ex_startup = \<lparr>st_VolumeUtil = None, st_synced = [(''PersistentVolume'', True)], st_events = []\<rparr>"

definition ex_taint_user :: UserConfig where
  "ex_taint_user = ex_user\<lparr>uc_DiscoveryMap := [], uc_RemoveNodeNotReadyTaint := True,
     uc_ProvisionerNotReadyNodeTaintKey := ''notready''\<rparr>"

lemma ex_start:
  assumes "uc_Node config = ex_node ''n1''"
  shows "\<exists>c mux w. start_controller ex_startup config [] ex_world = (Up c, mux, w) \<and> w = ex_world"
proof -
  have "\<exists>d. NewDiscoverer \<lparr>rc_UserConfig = config, rc_Name = n\<rparr> t = Inr d" for n t
    using NewDiscoverer_node[OF ex_disc_new[of "[]"]] assms by (simp add: ex_disc_rc_def ex_user_def)
  then have "NewDiscoverer \<lparr>rc_UserConfig = config, rc_Name = n\<rparr> t \<noteq> Inl e" for n t e
    by (metis sum.distinct(1))
  then show ?thesis
    by (auto simp: start_controller_def ex_startup_def Let_def InstallPathHandler_def mux_Handle_def
        readyz_Name_def run_events_def ex_world_def split: sum.splits)
qed

theorem config_reload_crashes_witness:
  "fst (RunLocalController ex_env (\<lambda>_ _. 0) 10 (ex_node ''n1'') ''ns'' ''img''
     [(ex_pc [], ex_startup, [True]), (ex_pc [(''fast'', ex_mount)], ex_startup, [])] [] ex_world) = Panicked"
proof -
  let ?u = "UserConfigFromProvisionerConfig (ex_node ''n1'') ''ns'' ''img'' (ex_pc [])"
  obtain c mux where "start_controller ex_startup ?u [] ex_world = (Up c, mux, ex_world)"
    using ex_start[of ?u] by (auto simp: UserConfigFromProvisionerConfig_def)
  then have "RunLocalController ex_env (\<lambda>_ _. 0) 10 (ex_node ''n1'') ''ns'' ''img'' [(ex_pc [], ex_startup, [True])] [] ex_world
      = (Up None, mux, ex_world)"
    by (simp add: StartLocalController_def)
  from config_reload_crashes[OF this] show ?thesis by (simp add: ex_startup_def)
qed

lemma ex_taint_round:
  assumes "start_controller ex_startup ex_taint_user [] ex_world = (Up c, mux, ex_world)"
  shows "controller_round ex_env (\<lambda>_ _. 0) 10 c ex_world
    = (Up (c\<lparr>lc_Discoverer := (lc_Discoverer c)\<lparr>ds_ready := True\<rparr>\<rparr>), emit (Sleep 10) ex_world)"
  using start_controller_Up(2)[OF assms]
  by (simp add: controller_round_eq DeletePVs_def DiscoverLocalVolumes_def ex_taint_user_def ListPVs_def
      ex_world_def NewVolumeCache_def)

theorem taint_never_removed_witness:
  "\<exists>c w'. sync_loop ex_env (\<lambda>_ _. 0) 10 [False] c ex_world = (Up (Some (c\<lparr>lc_Discoverer := (lc_Discoverer c)\<lparr>ds_ready := True\<rparr>\<rparr>)), w')
     \<and> ShouldRemoveTaint (lc_Remover c) \<and> Check ((lc_Discoverer c)\<lparr>ds_ready := True\<rparr>) = None
     \<and> (\<forall>nd. ReqUpdateNode nd \<notin> set (requests (w_trace w')))"
proof -
  obtain c mux where s: "start_controller ex_startup ex_taint_user [] ex_world = (Up c, mux, ex_world)"
    using ex_start[of ex_taint_user] by (auto simp: ex_taint_user_def ex_user_def)
  let ?c = "c\<lparr>lc_Discoverer := (lc_Discoverer c)\<lparr>ds_ready := True\<rparr>\<rparr>"
  have r: "sync_loop ex_env (\<lambda>_ _. 0) 10 [False] c ex_world = (Up (Some ?c), emit (Sleep 10) ex_world)"
    by (simp add: ex_taint_round[OF s])
  have "pt_inv (w_ProcTable ex_world)" "jobs_named ex_env"
    by (simp_all add: ex_world_def pt_inv_def NewProcTable_def jobs_named_def ex_env_def)
  from taint_never_removed[OF s r this(2,1)]
  have "\<forall>nd. ReqUpdateNode nd \<notin> set (requests (w_trace (emit (Sleep 10) ex_world)))"
    by (simp add: ex_world_def)
  moreover have "ShouldRemoveTaint (lc_Remover c)"
    using start_controller_Up(3,10)[OF s] by (simp add: ShouldRemoveTaint_def ex_taint_user_def)
  ultimately show ?thesis using r by (intro exI[of _ c] exI[of _ "emit (Sleep 10) ex_world"]) (simp add: Check_def)
qed

theorem round_survives_witness:
  "\<exists>c c' w'. controller_round ex_env (\<lambda>_ _. 0) 10 c ex_world = (Up c', w') \<and> lc_ok c'"
proof -
  obtain c mux where s: "start_controller ex_startup ex_taint_user [] ex_world = (Up c, mux, ex_world)"
    using ex_start[of ex_taint_user] by (auto simp: ex_taint_user_def ex_user_def)
  from round_survives[OF start_controller_ok[OF s], of ex_world ex_env "\<lambda>_ _. 0" 10]
  show ?thesis by (auto simp: ListPVs_def ex_world_def NewVolumeCache_def)
qed

end
