(* ===== verification/System.thy ===== *)
theory System
  imports Publication Controller
begin

text \<open>
  The provisioner as a concurrent system: the sync loop's handling of one volume or one file, the
  informer's notifications, and the steps of the cleanup goroutines, in any interleaving. A cleanup
  goroutine (\<open>asyncCleanPV\<close>) takes two steps: it wipes the volume, which may take arbitrarily long,
  and then records the outcome in the process table. The handling of one volume is one step: the
  process table is behind a mutex, the goroutine of another volume changes only that volume's entry,
  and a volume that is not marked as running has no goroutine, which is part of the invariant.
\<close>

declare map_of_eq_Some_iff [simp del] Some_eq_map_of_iff [simp del]

section \<open>The log\<close>

text \<open>The cleanup status of a volume as the log tells it.\<close>

fun status_step :: "string \<Rightarrow> CleanupState option \<Rightarrow> effect \<Rightarrow> CleanupState option" where
  "status_step n s (Spawn cl) = (if pv_Name (cl_PV cl) = n then Some CSRunning else s)"
| "status_step n s (Finished m ok) = (if m = n then Some (if ok then CSSucceeded else CSFailed) else s)"
| "status_step n s _ = s"

definition status :: "string \<Rightarrow> trace \<Rightarrow> CleanupState option" where
  "status n tr = foldl (status_step n) None tr"

text \<open>The last cleanup of the volume succeeded, and its object was neither deleted nor created since: the
  success has not been used yet.\<close>

fun clean_step :: "string \<Rightarrow> bool \<Rightarrow> effect \<Rightarrow> bool" where
  "clean_step n c (Spawn cl) = (if pv_Name (cl_PV cl) = n then False else c)"
| "clean_step n c (Finished m ok) = (if m = n then ok else c)"
| "clean_step n c (Call (ReqDeletePV m) _) = (if m = n then False else c)"
| "clean_step n c (Call (ReqCreatePV pv) _) = (if pv_Name pv = n then False else c)"
| "clean_step n c _ = c"

definition clean_since :: "string \<Rightarrow> trace \<Rightarrow> bool" where
  "clean_since n tr = foldl (clean_step n) False tr"

text \<open>The last request was the deletion of the volume's cleaning job, and it was accepted.\<close>

definition job_removed :: "string \<Rightarrow> trace \<Rightarrow> bool" where
  "job_removed n tr \<longleftrightarrow>
     (\<exists>xs ns ys. tr = xs @ Call (ReqDeleteJob (generateCleaningJobName n) ns) None # ys \<and> requests ys = [])"

text \<open>What each effect needs of the log before it: a cleanup starts only if none of that volume is
  running and ends only if one is; a volume's object is deleted only on an unused success, or, where
  jobs may clean (\<open>j\<close>), after its last cleanup succeeded or its succeeded job was removed; and unless
  cleaning is done by jobs no object is created for a volume that is being cleaned.\<close>

fun allowed :: "bool \<Rightarrow> trace \<Rightarrow> effect \<Rightarrow> bool" where
  "allowed j tr (Spawn cl) = (status (pv_Name (cl_PV cl)) tr \<noteq> Some CSRunning)"
| "allowed j tr (Finished n ok) = (status n tr = Some CSRunning)"
| "allowed j tr (Call (ReqDeletePV n) _) =
     (if j then status n tr = Some CSSucceeded \<or> job_removed n tr else clean_since n tr)"
| "allowed j tr (Call (ReqCreatePV pv) _) = (j \<or> status (pv_Name pv) tr \<noteq> Some CSRunning)"
| "allowed j tr _ = True"

definition trace_ok :: "bool \<Rightarrow> trace \<Rightarrow> bool" where
  "trace_ok j tr \<longleftrightarrow> (\<forall>xs e ys. tr = xs @ e # ys \<longrightarrow> allowed j xs e)"

lemma status_snoc [simp]: "status n (tr @ [e]) = status_step n (status n tr) e"
  by (simp add: status_def)

lemma status_Nil [simp]: "status n [] = None"
  by (simp add: status_def)

lemma clean_since_simps [simp]:
  "clean_since n [] = False" "clean_since n (tr @ [e]) = clean_step n (clean_since n tr) e"
  by (simp_all add: clean_since_def)

lemma clean_step_request: "clean_step n c (Call r x) \<Longrightarrow> c"
  by (cases r) (auto split: if_splits)

lemma clean_since_status: "clean_since n tr \<Longrightarrow> status n tr = Some CSSucceeded"
proof (induction tr rule: rev_induct)
  case (snoc e tr)
  then show ?case by (cases e) (auto split: if_splits dest: clean_step_request)
qed simp

definition inert :: "string \<Rightarrow> effect \<Rightarrow> bool" where
  "inert n e \<longleftrightarrow> (\<forall>c. clean_step n c e = c)"

lemma clean_step_keeps:
  assumes "e \<noteq> Finished n True" "clean_step n c e"
  shows "c \<and> inert n e"
  unfolding inert_def
proof (cases e)
  case (Call r x)
  with assms(2) show "c \<and> (\<forall>c. clean_step n c e = c)" by (cases r) (auto split: if_splits)
qed (use assms in \<open>auto split: if_splits\<close>)

text \<open>An unused success is what it says: the log has a successful end of a cleanup of the volume after
  which no cleanup of it was started or ended and its object was neither deleted nor created.\<close>

lemma clean_since_iff:
  "clean_since n tr \<longleftrightarrow> (\<exists>xs ys. tr = xs @ Finished n True # ys \<and> list_all (inert n) ys)"
proof
  assume "clean_since n tr"
  then show "\<exists>xs ys. tr = xs @ Finished n True # ys \<and> list_all (inert n) ys"
  proof (induction tr rule: rev_induct)
    case (snoc e tr)
    show ?case
    proof (cases "e = Finished n True")
      case True
      then show ?thesis by (intro exI[of _ tr] exI[of _ "[]"]) simp
    next
      case False
      from snoc.prems have "clean_step n (clean_since n tr) e" by simp
      from clean_step_keeps[OF False this] have c: "clean_since n tr" "inert n e" by simp_all
      from snoc.IH[OF c(1)] obtain xs ys where "tr = xs @ Finished n True # ys" "list_all (inert n) ys" by (elim exE conjE)
      with c(2) show ?thesis by (intro exI[of _ xs] exI[of _ "ys @ [e]"]) simp
    qed
  qed simp
next
  assume "\<exists>xs ys. tr = xs @ Finished n True # ys \<and> list_all (inert n) ys"
  then obtain xs ys where tr: "tr = xs @ Finished n True # ys" and "list_all (inert n) ys" by (elim exE conjE)
  from this(2) have "foldl (clean_step n) True ys" by (induction ys) (simp_all add: inert_def)
  then show "clean_since n tr" by (simp add: tr clean_since_def)
qed

lemma trace_ok_Nil [simp]: "trace_ok j []"
  by (simp add: trace_ok_def)

lemma trace_ok_snoc [simp]: "trace_ok j (tr @ [e]) \<longleftrightarrow> trace_ok j tr \<and> allowed j tr e"
proof
  assume l: "trace_ok j (tr @ [e])"
  then have "allowed j tr e" by (simp add: trace_ok_def)
  moreover have "trace_ok j tr"
    unfolding trace_ok_def
  proof (intro allI impI)
    fix xs e' ys
    assume "tr = xs @ e' # ys"
    then have "tr @ [e] = xs @ e' # (ys @ [e])" by simp
    with l show "allowed j xs e'" unfolding trace_ok_def by blast
  qed
  ultimately show "trace_ok j tr \<and> allowed j tr e" by simp
next
  assume r: "trace_ok j tr \<and> allowed j tr e"
  show "trace_ok j (tr @ [e])"
    unfolding trace_ok_def
  proof (intro allI impI)
    fix xs e' ys
    assume eq: "tr @ [e] = xs @ e' # ys"
    show "allowed j xs e'"
    proof (cases ys rule: rev_cases)
      case Nil
      with eq r show ?thesis by simp
    next
      case (snoc zs y)
      with eq have "tr = xs @ e' # zs" by simp
      with r show ?thesis by (auto simp: trace_ok_def)
    qed
  qed
qed

section \<open>The log and the process table\<close>

text \<open>Every entry of the table says what the log says, and a cleanup that the log shows as running has
  its entry.\<close>

definition linked :: "world \<Rightarrow> bool" where
  "linked w \<longleftrightarrow> (\<forall>n s. pt_view (w_ProcTable w) n = Some s \<longrightarrow> status n (w_trace w) = Some s)
     \<and> (\<forall>n. status n (w_trace w) = Some CSRunning \<longrightarrow> pt_view (w_ProcTable w) n = Some CSRunning)"

text \<open>Unless jobs clean, a success in the table is unused.\<close>

definition backed :: "bool \<Rightarrow> world \<Rightarrow> bool" where
  "backed j w \<longleftrightarrow> j \<or> (\<forall>n. pt_view (w_ProcTable w) n = Some CSSucceeded \<longrightarrow> clean_since n (w_trace w))"

definition good :: "bool \<Rightarrow> world \<Rightarrow> bool" where
  "good j w \<longleftrightarrow> pt_inv (w_ProcTable w) \<and> linked w \<and> backed j w \<and> trace_ok j (w_trace w)"

lemma good_not_running: "good j w \<Longrightarrow> pt_view (w_ProcTable w) n \<noteq> Some CSRunning \<Longrightarrow> status n (w_trace w) \<noteq> Some CSRunning"
  unfolding good_def linked_def by blast

lemma good_view: "good j w \<Longrightarrow> pt_view (w_ProcTable w) n = Some s \<Longrightarrow> status n (w_trace w) = Some s"
  unfolding good_def linked_def by blast

lemma linked_cong:
  assumes "w_ProcTable w' = w_ProcTable w" "\<And>n. status n (w_trace w') = status n (w_trace w)"
  shows "linked w' \<longleftrightarrow> linked w"
  unfolding linked_def assms ..

lemma good_cache [simp]: "good j (w\<lparr>w_Cache := c\<rparr>) \<longleftrightarrow> good j w"
  using linked_cong[of "w\<lparr>w_Cache := c\<rparr>" w] by (simp add: good_def backed_def)

text \<open>Effects that leave the status of every volume alone.\<close>

fun neutral :: "effect \<Rightarrow> bool" where
  "neutral (Spawn _) = False"
| "neutral (Finished _ _) = False"
| "neutral _ = True"

lemma neutral_step [simp]: "neutral e \<Longrightarrow> status_step n s e = s"
  by (cases e) auto

lemma quiet_neutral: "quiet e \<Longrightarrow> neutral e"
  by (cases e) auto

lemma quiet_allowed: "quiet e \<Longrightarrow> allowed j tr e"
  by (cases e) auto

text \<open>Effects that use up a success of the volume.\<close>

fun voids :: "string \<Rightarrow> effect \<Rightarrow> bool" where
  "voids n (Call (ReqDeletePV m) _) = (m = n)"
| "voids n (Call (ReqCreatePV pv) _) = (pv_Name pv = n)"
| "voids n _ = False"

lemma voids_request: "voids n e \<Longrightarrow> \<exists>r x. e = Call r x"
  by (cases e) auto

lemma quiet_voids: "quiet e \<Longrightarrow> \<not> voids n e"
  by (cases e) auto

lemma neutral_clean: "neutral e \<Longrightarrow> \<not> voids n e \<Longrightarrow> clean_step n c e = c"
  by (cases "(n, c, e)" rule: clean_step.cases) auto

lemma clean_since_neutral:
  "list_all neutral es \<Longrightarrow> list_all (\<lambda>e. \<not> voids n e) es \<Longrightarrow> clean_since n (tr @ es) = clean_since n tr"
proof (induction es rule: rev_induct)
  case (snoc e es)
  then show ?case by (simp add: neutral_clean append_assoc[symmetric] del: append_assoc)
qed simp

lemma backed_ext:
  assumes "backed j w" "w_trace w' = w_trace w @ es" "list_all neutral es"
    and "\<And>n. \<not> j \<Longrightarrow> pt_view (w_ProcTable w') n = Some CSSucceeded \<Longrightarrow>
      pt_view (w_ProcTable w) n = Some CSSucceeded \<and> list_all (\<lambda>e. \<not> voids n e) es"
  shows "backed j w'"
proof -
  have "clean_since n (w_trace w')" if j: "\<not> j" and v: "pt_view (w_ProcTable w') n = Some CSSucceeded" for n
  proof -
    note a = assms(4)[OF j v]
    with assms(1) j have "clean_since n (w_trace w)" by (auto simp: backed_def)
    with clean_since_neutral[OF assms(3), of n "w_trace w"] a show ?thesis by (simp add: assms(2))
  qed
  then show ?thesis by (auto simp: backed_def)
qed

lemma good_emit:
  assumes "good j w" "neutral e" "allowed j (w_trace w) e"
    and "\<And>n. \<not> j \<Longrightarrow> voids n e \<Longrightarrow> pt_view (w_ProcTable w) n \<noteq> Some CSSucceeded"
  shows "good j (emit e w)"
proof -
  have "linked (emit e w) \<longleftrightarrow> linked w" by (rule linked_cong) (simp_all add: assms(2))
  moreover have "backed j (emit e w)"
    by (rule backed_ext[of j w _ "[e]"]) (use assms in \<open>auto simp: good_def\<close>)
  ultimately show ?thesis using assms by (simp add: good_def)
qed

text \<open>A run of neutral effects that are all allowed as long as the status of the volumes stands.\<close>

lemma good_ext:
  assumes "good j w" "ext P w w'" "w_ProcTable w' = w_ProcTable w"
    and "\<And>e tr. P e \<Longrightarrow> (\<And>n. status n tr = status n (w_trace w)) \<Longrightarrow> neutral e \<and> allowed j tr e"
    and "\<And>e n. \<not> j \<Longrightarrow> P e \<Longrightarrow> voids n e \<Longrightarrow> pt_view (w_ProcTable w) n \<noteq> Some CSSucceeded"
  shows "good j w'"
proof -
  from assms(2) obtain es where es: "w_trace w' = w_trace w @ es" "list_all P es" by (auto simp: ext_def)
  have "(\<forall>n. status n (w_trace w @ es) = status n (w_trace w)) \<and> trace_ok j (w_trace w @ es)"
    using es(2)
  proof (induction es rule: rev_induct)
    case (snoc e es)
    then have IH: "\<forall>n. status n (w_trace w @ es) = status n (w_trace w)" "trace_ok j (w_trace w @ es)" and "P e" by auto
    with assms(4)[of e "w_trace w @ es"] have "neutral e" "allowed j (w_trace w @ es) e" by auto
    with IH show ?case by (simp add: append_assoc[symmetric] del: append_assoc)
  qed (use assms(1) in \<open>simp add: good_def\<close>)
  then have "linked w' \<longleftrightarrow> linked w" "trace_ok j (w_trace w')"
    using linked_cong[of w' w] assms(3) es(1) by simp_all
  moreover have "list_all neutral es" using es(2) assms(4)[of _ "w_trace w"] by (auto simp: list_all_iff)
  have "backed j w'"
    by (rule backed_ext[OF _ es(1) \<open>list_all neutral es\<close>]) (use assms(1,3,5) es(2) in \<open>auto simp: good_def list_all_iff\<close>)
  ultimately show ?thesis using assms(1,3) by (simp add: good_def)
qed

section \<open>Steps of the sync loop\<close>

text \<open>How a step of the loop changes the running cleanups: not at all, or by the one it started.\<close>

fun spawns :: "trace \<Rightarrow> cleanup list" where
  "spawns [] = []"
| "spawns (Spawn cl # es) = cl # spawns es"
| "spawns (_ # es) = spawns es"

lemma spawns_append [simp]: "spawns (xs @ ys) = spawns xs @ spawns ys"
  by (induction xs rule: spawns.induct) simp_all

lemma spawns_neutral: "list_all neutral es \<Longrightarrow> spawns es = []"
  by (induction es rule: spawns.induct) auto

definition delta :: "world \<Rightarrow> world \<Rightarrow> bool" where
  "delta w w' \<longleftrightarrow> (\<exists>es. w_trace w' = w_trace w @ es
     \<and> (spawns es = [] \<and> running_set (w_ProcTable w') = running_set (w_ProcTable w)
        \<or> (\<exists>cl. spawns es = [cl] \<and> cleanup_ok cl \<and> pv_Name (cl_PV cl) \<notin> running_set (w_ProcTable w)
             \<and> running_set (w_ProcTable w') = insert (pv_Name (cl_PV cl)) (running_set (w_ProcTable w)))))"

lemma delta_refl [simp]: "delta w w"
  by (simp add: delta_def)

lemma delta_quiet:
  assumes "delta w w1" "ext neutral w1 w2" "w_ProcTable w2 = w_ProcTable w1"
  shows "delta w w2"
proof -
  from assms(2) obtain es where "w_trace w2 = w_trace w1 @ es" "spawns es = []"
    by (auto simp: ext_def spawns_neutral)
  with assms(1,3) show ?thesis unfolding delta_def by force
qed

lemma delta_trans_idle:
  assumes "ext neutral w w1" "running_set (w_ProcTable w1) = running_set (w_ProcTable w)" "delta w1 w2"
  shows "delta w w2"
proof -
  from assms(1) obtain es where "w_trace w1 = w_trace w @ es" "spawns es = []"
    by (auto simp: ext_def spawns_neutral)
  with assms(2,3) show ?thesis unfolding delta_def by force
qed

lemma RemoveStatus_good:
  assumes "RemoveStatus env c n b w = Some ((st, t, e), w')" "jobs_named env" "good j w"
  shows "good j w'" "ext neutral w w'" "running_set (w_ProcTable w') = running_set (w_ProcTable w)"
    "\<And>m. status m (w_trace w') = status m (w_trace w)"
proof -
  have pt: "pt_inv (w_ProcTable w)" using assms(3) by (simp add: good_def)
  note p = RemoveStatus_pass[OF assms(1) pt assms(2)]
  show r: "running_set (w_ProcTable w') = running_set (w_ProcTable w)" by (rule p(1))
  show n: "ext neutral w w'" using p(2) by (rule ext_mono) auto
  have "good j w' \<and> (\<forall>m. status m (w_trace w') = status m (w_trace w))"
  proof (cases b)
    case True
    with assms(1) obtain ns where rj: "RemoveJob env ns n w = ((st, t, e), w')" by (auto elim: RemoveStatus_job)
    have g: "good j w'" by (rule good_ext[OF assms(3) p(2) RemoveJob_effects(2)[OF rj]]) auto
    have "status m (w_trace w') = status m (w_trace w)" for m
      using rj by (auto simp: RemoveJob_def DeleteJob_def call_def Let_def split: sum.splits if_splits option.splits)
    with g show ?thesis by simp
  next
    case False
    with assms(1) have rs: "RemoveStatus env c n False w = Some ((st, t, e), w')" by simp
    note f = RemoveStatus_process[OF rs]
    have "linked w" "trace_ok j (w_trace w)" using assms(3) by (simp_all add: good_def)
    moreover have "linked w'"
    proof (cases "pt_view (w_ProcTable w) n = Some CSRunning")
      case True
      with pt.remove_entry[OF f(1) pt] have v: "pt_view (w_ProcTable w') = pt_view (w_ProcTable w)" by auto
      from \<open>linked w\<close> show ?thesis unfolding linked_def v f(3) .
    next
      case False
      with pt.remove_entry[OF f(1) pt] have v: "pt_view (w_ProcTable w') = (pt_view (w_ProcTable w))(n := None)" by simp
      from \<open>linked w\<close> False show ?thesis unfolding linked_def v f(3) by (metis fun_upd_apply option.distinct(1))
    qed
    moreover have "backed j w'"
      by (rule backed_ext[of j w _ "[]"]) (use assms(3) pt.remove_entry[OF f(1) pt] f(3) in \<open>auto simp: good_def split: if_splits\<close>)
    ultimately show ?thesis using pt.remove_entry[OF f(1) pt] f(3) by (simp add: good_def)
  qed
  then show "good j w'" "\<And>m. status m (w_trace w') = status m (w_trace w)" by auto
qed

text \<open>The status of a succeeded job is removed by deleting the job.\<close>

lemma RemoveStatus_job_removed:
  assumes "RemoveStatus env c n True w = Some ((CSSucceeded, t, None), w')" "jobs_named env"
  shows "job_removed n (w_trace w')"
proof -
  from assms(1) obtain ns where "RemoveJob env ns n w = ((CSSucceeded, t, None), w')" by (auto elim: RemoveStatus_job)
  then obtain jb where jb: "e_jobs env (w_trace w) ns (generateCleaningJobName n) = Inr jb"
    "w_trace w' = w_trace w @ [Call (ReqDeleteJob (om_Name (job_Meta jb)) ns) None]"
    by (auto simp: RemoveJob_def DeleteJob_def call_def Let_def split: sum.splits if_splits option.splits)
  with assms(2) have "om_Name (job_Meta jb) = generateCleaningJobName n" by (auto simp: jobs_named_def)
  with jb(2) show ?thesis unfolding job_removed_def by force
qed

lemma job_removed_snoc: "job_removed n tr \<Longrightarrow> requests [e] = [] \<Longrightarrow> job_removed n (tr @ [e])"
  unfolding job_removed_def by (metis append_Cons append_assoc append_Nil2 requests_append)

lemma delete_cleaned_good:
  assumes "delete_cleaned env pv mode b config t w = (r, w')" "good j w"
    and "if j then status (pv_Name pv) (w_trace w) = Some CSSucceeded \<or> job_removed (pv_Name pv) (w_trace w)
         else clean_since (pv_Name pv) (w_trace w) \<and> pt_view (w_ProcTable w) (pv_Name pv) = None"
  shows "good j w'" "ext neutral w w'" "w_ProcTable w' = w_ProcTable w"
proof -
  let ?n = "pv_Name pv"
  let ?w1 = "emit (Inc APIServerRequestsTotal [APIServerRequestDelete]) w"
  let ?x = "e_api env (w_trace ?w1) (ReqDeletePV ?n)"
  let ?w2 = "emit (Call (ReqDeletePV ?n) ?x) ?w1"
  have g1: "good j ?w1" using assms(2) by (intro good_emit) simp_all
  have "if j then status ?n (w_trace ?w1) = Some CSSucceeded \<or> job_removed ?n (w_trace ?w1) else clean_since ?n (w_trace ?w1)"
    using assms(3) by (auto intro: job_removed_snoc split: if_splits)
  then have g2: "good j ?w2" by (intro good_emit[OF g1]) (use assms(3) in \<open>auto split: if_splits\<close>)
  obtain x w3 where d: "DeletePV_api env ?n w = (x, w3)" by fastforce
  then have w3: "ext metric ?w2 w3" "w_ProcTable w3 = w_ProcTable w"
    by (auto simp: DeletePV_api_def call_def Let_def ext_def)
  from assms(1) d have w': "ext quiet w3 w'" "w_ProcTable w' = w_ProcTable w3"
    by (auto simp: delete_cleaned_def Let_def split: option.splits if_splits)
  have q: "ext quiet ?w2 w'" by (rule ext_trans[OF ext_mono[OF w3(1)] w'(1)]) (rule metric_quiet)
  show "w_ProcTable w' = w_ProcTable w" using w3(2) w'(2) by simp
  then have t: "w_ProcTable w' = w_ProcTable ?w2" by simp
  show "good j w'" by (rule good_ext[OF g2 q t]) (auto intro: quiet_neutral quiet_allowed dest: quiet_voids)
  have "ext neutral w ?w2" by simp
  also have "ext neutral ?w2 w'" by (rule ext_mono[OF q quiet_neutral])
  finally show "ext neutral w w'" .
qed

lemma runProcess_good:
  assumes "runProcess env pv mode path config w = (r, w')" "good j w" "pvs_Local (pv_Spec pv) \<noteq> None"
    and "mode = PersistentVolumeBlock \<longrightarrow> cleaner_command config \<noteq> []"
  shows "good j w'" "delta w w'"
proof -
  let ?n = "pv_Name pv" and ?cl = "\<lparr>cl_PV = pv, cl_VolMode = mode, cl_MountPath = path, cl_Config = config\<rparr>"
  have pt: "pt_inv (w_ProcTable w)" using assms(2) by (simp add: good_def)
  note e = runProcess_effects[OF assms(1) pt]
  have "good j w' \<and> delta w w'"
  proof (cases "r = None")
    case True
    with e have v: "pt_view (w_ProcTable w) ?n = None"
      "pt_view (w_ProcTable w') = (pt_view (w_ProcTable w))(?n := Some CSRunning)"
      "w_trace w' = w_trace w @ [Spawn ?cl]" by simp_all
    have "status ?n (w_trace w) \<noteq> Some CSRunning" using v(1) by (intro good_not_running[OF assms(2)]) simp
    then have ok: "trace_ok j (w_trace w')" using assms(2) by (simp add: v(3) good_def)
    have st: "status m (w_trace w') = (if m = ?n then Some CSRunning else status m (w_trace w))" for m
      by (simp add: v(3))
    have "linked w'"
      unfolding linked_def
    proof (intro conjI allI impI)
      show "status m (w_trace w') = Some s" if "pt_view (w_ProcTable w') m = Some s" for m s
        using that good_view[OF assms(2), of m s] by (cases "m = ?n") (simp_all add: v(2) st)
      show "pt_view (w_ProcTable w') m = Some CSRunning" if "status m (w_trace w') = Some CSRunning" for m
        using that good_not_running[OF assms(2), of m] by (cases "m = ?n") (auto simp: v(2) st)
    qed
    moreover have "backed j w'" using assms(2) by (auto simp: backed_def good_def v)
    moreover have "delta w w'"
      unfolding delta_def using v assms(3,4) by (auto simp: cleanup_ok_def)
    ultimately show ?thesis using ok e(3) by (simp add: good_def)
  next
    case False
    with e have v: "pt_view (w_ProcTable w') = pt_view (w_ProcTable w)" "w_trace w' = w_trace w" by simp_all
    have "linked w" "backed j w" "trace_ok j (w_trace w)" using assms(2) by (simp_all add: good_def)
    then have "linked w'" "backed j w'" "trace_ok j (w_trace w')" unfolding linked_def backed_def v .
    then show ?thesis using e(3) v by (simp add: good_def delta_def)
  qed
  then show "good j w'" "delta w w'" by simp_all
qed

lemma start_cleanup_good:
  assumes "start_cleanup env d pv mode b path config w = (r, w')" "good j w" "pvs_Local (pv_Spec pv) \<noteq> None"
  shows "good j w'" "delta w w'"
proof -
  have "good j w' \<and> delta w w'"
  proof (cases "mode = PersistentVolumeBlock \<and> length (cleaner_command config) < 1")
    case True
    with assms(1,2) show ?thesis by (simp add: start_cleanup_def)
  next
    case ok: False
    show ?thesis
    proof (cases b)
      case True
      with assms(1) ok have r: "runJob env d pv mode path config w = (r, w')" by (auto simp: start_cleanup_def)
      have e: "ext (\<lambda>e. \<exists>jb x. e = Call (ReqCreateJob jb) x) w w'"
        using r by (auto simp: runJob_def CreateJob_def call_def Let_def ext_def split: if_splits sum.splits)
      have "good j w'" by (rule good_ext[OF assms(2) e runJob_effects(3)[OF r]]) auto
      moreover have "ext neutral w w'" using e by (rule ext_mono) auto
      ultimately show ?thesis using delta_quiet[OF delta_refl] runJob_effects(3)[OF r] by blast
    next
      case False
      with assms(1) ok have r: "runProcess env pv mode path config w = (r, w')" by (auto simp: start_cleanup_def)
      from ok have c: "mode = PersistentVolumeBlock \<longrightarrow> cleaner_command config \<noteq> []" by auto
      from runProcess_good[OF r assms(2,3) c] show ?thesis by blast
    qed
  qed
  then show "good j w'" "delta w w'" by simp_all
qed

lemma deletePV_good:
  assumes "deletePV env d pv w = Some (r, w')" "jobs_named env" "good j w" "uc_UseJobForCleaning (dl_User d) \<longrightarrow> j"
  shows "good j w' \<and> delta w w'"
  using assms(1)
proof (cases rule: deletePV_cases)
  case (no_status config path mode st t e)
  note rs = RemoveStatus_good[OF no_status(2) assms(2,3)]
  from rs delta_trans_idle[OF rs(2,3) delta_refl] show ?thesis by simp
next
  case (cleaned config path mode t w1)
  note rs = RemoveStatus_good[OF cleaned(3) assms(2,3)]
  have "if j then status (pv_Name pv) (w_trace w1) = Some CSSucceeded \<or> job_removed (pv_Name pv) (w_trace w1)
      else clean_since (pv_Name pv) (w_trace w1) \<and> pt_view (w_ProcTable w1) (pv_Name pv) = None"
  proof (cases "shouldRunJob d mode")
    case True
    with assms(4) have j by (simp add: shouldRunJob_def)
    with True cleaned(3) RemoveStatus_job_removed[OF _ assms(2)] show ?thesis by auto
  next
    case False
    with cleaned(3) have r: "RemoveStatus env (dl_CleanupStatus d) (pv_Name pv) False w = Some ((CSSucceeded, t, None), w1)"
      by simp
    have "pt_inv (w_ProcTable w)" using assms(3) by (simp add: good_def)
    from pt.remove_entry[OF RemoveStatus_process(1)[OF r] this]
    have v: "pt_view (w_ProcTable w) (pv_Name pv) = Some CSSucceeded" "pt_view (w_ProcTable w1) (pv_Name pv) = None" by simp_all
    moreover have "w_trace w1 = w_trace w" by (rule RemoveStatus_process(3)[OF r])
    ultimately show ?thesis using good_view[OF assms(3) v(1)] assms(3) by (auto simp: good_def backed_def)
  qed
  note dc = delete_cleaned_good[OF cleaned(4) rs(1) this]
  from dc(1) delta_trans_idle[OF rs(2,3) delta_quiet[OF delta_refl dc(2,3)]] show ?thesis by simp
next
  case (start config path mode st t w1)
  note rs = RemoveStatus_good[OF start(3) assms(2,3)]
  note sc = start_cleanup_good[OF start(5) rs(1) resolves_local[OF start(1)]]
  from sc(1) delta_trans_idle[OF rs(2,3) sc(2)] show ?thesis by simp
next
  case (odd config path mode st t e)
  note rs = RemoveStatus_good[OF odd(2) assms(2,3)]
  from rs delta_trans_idle[OF rs(2,3) delta_refl] show ?thesis by simp
qed (use assms(3) in simp_all)

lemma reclaim_good:
  assumes "reclaim env d pv w = Some w'" "jobs_named env" "good j w" "uc_UseJobForCleaning (dl_User d) \<longrightarrow> j"
  shows "good j w' \<and> delta w w'"
proof (cases "eligible pv")
  case False
  from reclaim_not_eligible[OF this, of env d w] assms(1)
  have q: "ext quiet w w'" "w_ProcTable w' = w_ProcTable w" by auto
  have "good j w'" by (rule good_ext[OF assms(3) q]) (auto intro: quiet_neutral quiet_allowed dest: quiet_voids)
  with delta_quiet[OF delta_refl ext_mono[OF q(1) quiet_neutral] q(2)] show ?thesis by simp
next
  case True
  from True assms(1) obtain r w1 where r: "deletePV env d pv w = Some (r, w1)" "w_ProcTable w' = w_ProcTable w1"
    "ext (\<lambda>e. quiet e \<and> about (pv_Name pv) e) w1 w'" by (rule reclaim_eligible)
  have q: "ext quiet w1 w'" using r(3) by (rule ext_mono) simp
  note d = deletePV_good[OF r(1) assms(2-4)]
  have "good j w'" by (rule good_ext[OF conjunct1[OF d] q r(2)]) (auto intro: quiet_neutral quiet_allowed dest: quiet_voids)
  with delta_quiet[OF conjunct2[OF d] ext_mono[OF q quiet_neutral] r(2)] show ?thesis by simp
qed

lemma discover_file_good:
  assumes "discover_file env p class config policy mps f st = Some st'" "jobs_named env" "good j (dst_World st)"
    and "uc_UseJobForCleaning (ds_User p) \<longrightarrow> j"
  shows "good j (dst_World st') \<and> delta (dst_World st) (dst_World st')"
  using assms(1)
proof (cases rule: discover_file_cases)
  case skip
  have "good j (dst_World st')" by (rule good_ext[OF assms(3) skip(3,2)]) (auto intro: quiet_neutral quiet_allowed dest: quiet_voids)
  with delta_quiet[OF delta_refl ext_mono[OF skip(3) quiet_neutral] skip(2)] show ?thesis by simp
next
  case (no_status vm s t e)
  note rs = RemoveStatus_good[OF no_status(2) assms(2,3)]
  from rs delta_trans_idle[OF rs(2,3) delta_refl] show ?thesis by simp
next
  case (new vm s t w1)
  note rs = RemoveStatus_good[OF new(2) assms(2,3)]
  note pn = provision_new_effects[OF new(3), simplified]
  let ?n = "generatePVName f (node_Name (uc_Node (ds_User p))) class"
  have "j \<or> status ?n (w_trace w1) \<noteq> Some CSRunning"
  proof (cases "uc_UseJobForCleaning (ds_User p)")
    case False
    with new(1) have "\<not> IsRunning ?n (w_ProcTable (dst_World st))" by (simp add: provisionable_def InProgress_def)
    then have "status ?n (w_trace (dst_World st)) \<noteq> Some CSRunning"
      by (intro good_not_running[OF assms(3)]) (simp add: IsRunning_view)
    with rs(4) show ?thesis by simp
  qed (use assms(4) in simp)
  then have "neutral e \<and> allowed j tr e"
    if "metric e \<or> creates p class config policy f e" "\<And>n. status n tr = status n (w_trace w1)" for e tr
    using that by (auto simp: creates_def discovered_pv_def metric_quiet quiet_neutral quiet_allowed)
  moreover have "pt_view (w_ProcTable w1) n \<noteq> Some CSSucceeded"
    if "\<not> j" "metric e \<or> creates p class config policy f e" "voids n e" for e n
  proof -
    have n: "n = ?n" using that(2,3) by (auto simp: creates_def discovered_pv_def dest: metric_quiet quiet_voids)
    from that(1) assms(4) new(2) have r: "RemoveStatus env (ds_CleanupTracker p) ?n False (dst_World st) = Some ((s, t, None), w1)" by simp
    have "pt_inv (w_ProcTable (dst_World st))" using assms(3) by (simp add: good_def)
    from pt.remove_entry[OF RemoveStatus_process(1)[OF r] this] show ?thesis by (simp add: n)
  qed
  ultimately have "good j (dst_World st')" by (rule good_ext[OF rs(1) pn(1,3)])
  moreover have "ext neutral w1 (dst_World st')"
    using pn(1) by (rule ext_mono) (auto simp: creates_def metric_quiet quiet_neutral)
  ultimately show ?thesis
    using delta_trans_idle[OF rs(2,3) delta_quiet[OF delta_refl _ pn(3)]] by simp
qed

section \<open>The system\<close>

text \<open>A cleanup goroutine, with how the wiping has ended once it has; a goroutine whose wiping hangs takes no
  further step.\<close>

record task =
  tk_cleanup :: cleanup
  tk_result :: "cleanup_end option"

abbreviation tk_name :: "task \<Rightarrow> string" where
  "tk_name tk \<equiv> pv_Name (cl_PV (tk_cleanup tk))"

record sys =
  sy_world :: world
  sy_tasks :: "task list"

text \<open>The end of \<open>asyncCleanPV\<close>, after \<open>cleanPV\<close> has returned.\<close>

definition record_outcome :: "string \<Rightarrow> error option \<Rightarrow> world \<Rightarrow> world" where
  "record_outcome name r w =
     (case r of
        Some err \<Rightarrow> emit (Finished name False) (w\<lparr>w_ProcTable := snd (MarkFailed name (w_ProcTable w))\<rparr>)
      | None \<Rightarrow> emit (Finished name True) (w\<lparr>w_ProcTable := snd (MarkSucceeded name (w_ProcTable w))\<rparr>))"

lemma asyncCleanPV_steps:
  "asyncCleanPV env cl w =
     (case cleanPV env (cl_PV cl) (cl_VolMode cl) (cl_MountPath cl) (cl_Config cl) w of
        None \<Rightarrow> None
      | Some (Hangs, w') \<Rightarrow> Some (False, w')
      | Some (Returned r, w') \<Rightarrow> Some (True, record_outcome (pv_Name (cl_PV cl)) r w'))"
  by (auto simp: asyncCleanPV_def record_outcome_def Let_def split: option.splits cleanup_end.splits)

definition new_tasks :: "world \<Rightarrow> world \<Rightarrow> task list" where
  "new_tasks w w' = map (\<lambda>cl. \<lparr>tk_cleanup = cl, tk_result = None\<rparr>) (spawns (drop (length (w_trace w)) (w_trace w')))"

text \<open>One step of the system: the loop handles a volume or a file (whatever object or file it has at
  hand), the informer delivers a notification, a goroutine wipes its volume or records the outcome,
  or something happens that neither reaches the API server nor belongs to a cleanup.\<close>

inductive sys_step :: "env \<Rightarrow> Deleter \<Rightarrow> Discoverer \<Rightarrow> sys \<Rightarrow> sys \<Rightarrow> bool" for env d p where
  reclaim_step: "reclaim env d pv w = Some w' \<Longrightarrow>
     sys_step env d p \<lparr>sy_world = w, sy_tasks = ts\<rparr> \<lparr>sy_world = w', sy_tasks = ts @ new_tasks w w'\<rparr>"
| discover_step: "discover_file env p class config policy mps file st = Some st' \<Longrightarrow>
     sys_step env d p \<lparr>sy_world = dst_World st, sy_tasks = ts\<rparr>
       \<lparr>sy_world = dst_World st', sy_tasks = ts @ new_tasks (dst_World st) (dst_World st')\<rparr>"
| event_step: "sys_step env d p \<lparr>sy_world = w, sy_tasks = ts\<rparr>
     \<lparr>sy_world = w\<lparr>w_Cache := pv_event_handler (ds_RuntimeConfig p) (w_Cache w) ev\<rparr>, sy_tasks = ts\<rparr>"
| wipe_step: "cleanPV env (cl_PV cl) (cl_VolMode cl) (cl_MountPath cl) (cl_Config cl) w = Some (r, w') \<Longrightarrow>
     sys_step env d p \<lparr>sy_world = w, sy_tasks = xs @ \<lparr>tk_cleanup = cl, tk_result = None\<rparr> # ys\<rparr>
       \<lparr>sy_world = w', sy_tasks = xs @ \<lparr>tk_cleanup = cl, tk_result = Some r\<rparr> # ys\<rparr>"
| record_step: "sys_step env d p \<lparr>sy_world = w, sy_tasks = xs @ \<lparr>tk_cleanup = cl, tk_result = Some (Returned r)\<rparr> # ys\<rparr>
     \<lparr>sy_world = record_outcome (pv_Name (cl_PV cl)) r w, sy_tasks = xs @ ys\<rparr>"
| quiet_step: "quiet e \<Longrightarrow> sys_step env d p \<lparr>sy_world = w, sy_tasks = ts\<rparr> \<lparr>sy_world = emit e w, sy_tasks = ts\<rparr>"

definition sys_init :: "world \<Rightarrow> sys" where
  "sys_init w = \<lparr>sy_world = w\<lparr>w_ProcTable := NewProcTable, w_trace := []\<rparr>, sy_tasks = []\<rparr>"

inductive reachable :: "env \<Rightarrow> Deleter \<Rightarrow> Discoverer \<Rightarrow> sys \<Rightarrow> bool" for env d p where
  init: "reachable env d p (sys_init w)"
| step: "reachable env d p s \<Longrightarrow> sys_step env d p s s' \<Longrightarrow> reachable env d p s'"

section \<open>The invariant\<close>

text \<open>The goroutines are exactly the cleanups marked as running, one for each volume, and each of them
  can finish.\<close>

abbreviation uses_jobs :: "Deleter \<Rightarrow> Discoverer \<Rightarrow> bool" where
  "uses_jobs d p \<equiv> uc_UseJobForCleaning (dl_User d) \<or> uc_UseJobForCleaning (ds_User p)"

definition sys_inv :: "bool \<Rightarrow> sys \<Rightarrow> bool" where
  "sys_inv j s \<longleftrightarrow> good j (sy_world s) \<and> distinct (map tk_name (sy_tasks s))
     \<and> tk_name ` set (sy_tasks s) = running_set (w_ProcTable (sy_world s))
     \<and> (\<forall>tk\<in>set (sy_tasks s). cleanup_ok (tk_cleanup tk))"

lemma delta_tasks:
  assumes "sys_inv j \<lparr>sy_world = w, sy_tasks = ts\<rparr>" "good j w'" "delta w w'"
  shows "sys_inv j \<lparr>sy_world = w', sy_tasks = ts @ new_tasks w w'\<rparr>"
proof -
  from assms(3) obtain es where es: "w_trace w' = w_trace w @ es"
    and c: "spawns es = [] \<and> running_set (w_ProcTable w') = running_set (w_ProcTable w)
        \<or> (\<exists>cl. spawns es = [cl] \<and> cleanup_ok cl \<and> pv_Name (cl_PV cl) \<notin> running_set (w_ProcTable w)
             \<and> running_set (w_ProcTable w') = insert (pv_Name (cl_PV cl)) (running_set (w_ProcTable w)))"
    unfolding delta_def by blast
  have nt: "new_tasks w w' = map (\<lambda>cl. \<lparr>tk_cleanup = cl, tk_result = None\<rparr>) (spawns es)"
    by (simp add: new_tasks_def es)
  from assms(1) have inv: "distinct (map tk_name ts)" "tk_name ` set ts = running_set (w_ProcTable w)"
    "\<forall>tk\<in>set ts. cleanup_ok (tk_cleanup tk)" by (simp_all add: sys_inv_def)
  from c show ?thesis
  proof
    assume "spawns es = [] \<and> running_set (w_ProcTable w') = running_set (w_ProcTable w)"
    with inv assms(2) nt show ?thesis by (simp add: sys_inv_def)
  next
    assume "\<exists>cl. spawns es = [cl] \<and> cleanup_ok cl \<and> pv_Name (cl_PV cl) \<notin> running_set (w_ProcTable w)
             \<and> running_set (w_ProcTable w') = insert (pv_Name (cl_PV cl)) (running_set (w_ProcTable w))"
    then obtain cl where cl: "spawns es = [cl]" "cleanup_ok cl" "pv_Name (cl_PV cl) \<notin> tk_name ` set ts"
      "running_set (w_ProcTable w') = insert (pv_Name (cl_PV cl)) (tk_name ` set ts)" unfolding inv(2) by blast
    from cl inv(1,3) assms(2) nt show ?thesis by (auto simp: sys_inv_def)
  qed
qed

lemma record_outcome_view:
  assumes "pt_inv (w_ProcTable w)" "pt_view (w_ProcTable w) n = Some CSRunning"
  shows "pt_view (w_ProcTable (record_outcome n r w)) n = Some (if r = None then CSSucceeded else CSFailed)"
proof -
  obtain e1 t1 e2 t2 where m: "MarkFailed n (w_ProcTable w) = (e1, t1)" "MarkSucceeded n (w_ProcTable w) = (e2, t2)"
    by fastforce
  from pt.mark_failed[OF m(1) assms(1)] pt.mark_succeeded[OF m(2) assms(1)] m assms(2)
  show ?thesis by (auto simp: record_outcome_def split: option.splits)
qed

lemma record_outcome_good:
  assumes "good j w" "pt_view (w_ProcTable w) n = Some CSRunning"
  shows "good j (record_outcome n r w)"
    "running_set (w_ProcTable (record_outcome n r w)) = running_set (w_ProcTable w) - {n}"
proof -
  let ?s = "if r = None then CSSucceeded else CSFailed" and ?w' = "record_outcome n r w"
  have pt: "pt_inv (w_ProcTable w)" using assms(1) by (simp add: good_def)
  obtain e1 t1 e2 t2 where m: "MarkFailed n (w_ProcTable w) = (e1, t1)" "MarkSucceeded n (w_ProcTable w) = (e2, t2)"
    by fastforce
  have v: "pt_view (w_ProcTable ?w') = (pt_view (w_ProcTable w))(n := Some ?s)" "pt_inv (w_ProcTable ?w')"
    "w_trace ?w' = w_trace w @ [Finished n (r = None)]"
    using pt.mark_failed[OF m(1) pt] pt.mark_succeeded[OF m(2) pt] m assms(2)
    by (auto simp: record_outcome_def split: option.splits)
  have st: "status k (w_trace ?w') = (if k = n then Some ?s else status k (w_trace w))" for k by (simp add: v(3))
  have "linked ?w'"
    unfolding linked_def
  proof (intro conjI allI impI)
    show "status k (w_trace ?w') = Some s" if "pt_view (w_ProcTable ?w') k = Some s" for k s
      using that good_view[OF assms(1), of k s] by (cases "k = n") (simp_all add: v(1) st)
    show "pt_view (w_ProcTable ?w') k = Some CSRunning" if "status k (w_trace ?w') = Some CSRunning" for k
      using that good_not_running[OF assms(1), of k] by (cases "k = n") (auto simp: v(1) st split: if_splits)
  qed
  moreover have "trace_ok j (w_trace ?w')"
    using good_view[OF assms] assms(1) by (simp add: v(3) good_def)
  moreover have "backed j ?w'" using assms(1) by (auto simp: backed_def good_def v split: if_splits)
  ultimately show "good j ?w'" using v(2) by (simp add: good_def)
  show "running_set (w_ProcTable ?w') = running_set (w_ProcTable w) - {n}" by (auto simp: v(1) split: if_splits)
qed

lemma sys_step_inv:
  assumes "sys_step env d p s s'" "sys_inv j s" "jobs_named env" "uses_jobs d p \<longrightarrow> j"
  shows "sys_inv j s'"
  using assms(1)
proof cases
  case (reclaim_step pv w w' ts)
  have "good j w" using assms(2) reclaim_step by (simp add: sys_inv_def)
  with reclaim_good[OF reclaim_step(3) assms(3)] assms(4) show ?thesis
    using delta_tasks assms(2) reclaim_step by blast
next
  case (discover_step cl config policy mps f st st' ts)
  have "good j (dst_World st)" using assms(2) discover_step by (simp add: sys_inv_def)
  with discover_file_good[OF discover_step(3) assms(3)] assms(4) show ?thesis
    using delta_tasks assms(2) discover_step by blast
next
  case (event_step w ts ev)
  with assms(2) show ?thesis by (simp add: sys_inv_def)
next
  case (wipe_step cl w r w' xs ys)
  from assms(2) wipe_step have ok: "cleanup_ok cl" and g: "good j w" by (auto simp: sys_inv_def)
  from cleanPV_total[OF ok, of env w] wipe_step(3) have
    w': "w_ProcTable w' = w_ProcTable w"
      "ext (\<lambda>e. (\<forall>q x. e \<noteq> Call q x) \<and> (\<forall>c. e \<noteq> Spawn c) \<and> (\<forall>n b. e \<noteq> Finished n b)) w w'" by auto
  have "neutral e \<and> allowed j tr e" if "(\<forall>q x. e \<noteq> Call q x) \<and> (\<forall>c. e \<noteq> Spawn c) \<and> (\<forall>n b. e \<noteq> Finished n b)" for e tr
    using that by (cases e) auto
  then have "good j w'" by (intro good_ext[OF g w'(2,1)]) (auto dest: voids_request)
  with assms(2) wipe_step w'(1) show ?thesis by (simp add: sys_inv_def)
next
  case (record_step w xs cl r ys)
  let ?n = "pv_Name (cl_PV cl)"
  from assms(2) record_step have g: "good j w" and run: "?n \<in> running_set (w_ProcTable w)"
    and dist: "distinct (map tk_name (xs @ ys))" "?n \<notin> tk_name ` set (xs @ ys)"
    and rset: "running_set (w_ProcTable w) = insert ?n (tk_name ` set (xs @ ys))"
    by (auto simp: sys_inv_def)
  note ro = record_outcome_good[OF g, of ?n r]
  from run have "pt_view (w_ProcTable w) ?n = Some CSRunning" by simp
  note ro = record_outcome_good[OF g this, of r]
  have "running_set (w_ProcTable (record_outcome ?n r w)) = tk_name ` set (xs @ ys)"
    using ro(2) rset dist(2) by simp
  with ro(1) dist(1) assms(2) record_step show ?thesis by (simp add: sys_inv_def)
next
  case (quiet_step e w ts)
  with assms(2) good_emit[of j w e] quiet_neutral quiet_allowed quiet_voids[of e] show ?thesis by (simp add: sys_inv_def)
qed

lemma sys_init_inv: "sys_inv j (sys_init w)"
  by (simp add: sys_init_def sys_inv_def good_def linked_def backed_def)

lemma reachable_inv:
  assumes "reachable env d p s" "jobs_named env" "uses_jobs d p \<longrightarrow> j"
  shows "sys_inv j s"
  using assms(1) by (induction rule: reachable.induct) (auto intro: sys_init_inv sys_step_inv[OF _ _ assms(2,3)])

text \<open>A goroutine that hangs is never removed.\<close>

lemma reachable_steps: "(sys_step env d p)\<^sup>*\<^sup>* s s' \<Longrightarrow> reachable env d p s \<Longrightarrow> reachable env d p s'"
  by (induction rule: rtranclp_induct) (auto intro: reachable.step)

lemma hung_forever:
  assumes "(sys_step env d p)\<^sup>*\<^sup>* s s'" "tk \<in> set (sy_tasks s)" "tk_result tk = Some Hangs"
  shows "tk \<in> set (sy_tasks s')"
  using assms(1)
proof (induction rule: rtranclp_induct)
  case (step s1 s2)
  from step.hyps(2) step.IH assms(3) show ?case by cases auto
qed (rule assms(2))

section \<open>Properties\<close>

text \<open>C1. The life cycle of a volume, in every interleaving of the sync loop, the informer and the
  cleanup goroutines, with any answers from the outside: a cleanup of a volume is started only
  while no other one of it is running, it ends only once, the volume's object is deleted only
  once for every successful cleanup (after it, nothing was started, created or deleted for the volume;
  where jobs may clean: after its last cleanup succeeded or its succeeded job was removed), and
  without jobs no object is created for a volume that is being cleaned.\<close>

theorem volume_life_cycle:
  assumes "reachable env d p s" and "jobs_named env"
    and "w_trace (sy_world s) = xs @ e # ys"
  shows "case e of
      Spawn cl \<Rightarrow> status (pv_Name (cl_PV cl)) xs \<noteq> Some CSRunning
    | Finished n ok \<Rightarrow> status n xs = Some CSRunning
    | Call (ReqDeletePV n) _ \<Rightarrow>
        if uses_jobs d p then status n xs = Some CSSucceeded \<or> job_removed n xs else clean_since n xs
    | Call (ReqCreatePV pv) _ \<Rightarrow> uses_jobs d p \<or> status (pv_Name pv) xs \<noteq> Some CSRunning
    | _ \<Rightarrow> True"
proof -
  have "trace_ok (uses_jobs d p) (w_trace (sy_world s))"
    using reachable_inv[OF assms(1,2), of "uses_jobs d p"] by (simp add: sys_inv_def good_def)
  with assms(3) have "allowed (uses_jobs d p) xs e" by (auto simp: trace_ok_def)
  then show ?thesis by (cases e) (auto split: request.splits)
qed

text \<open>C7. The process table and the goroutines agree at all times: in every reachable state the
  volumes marked as running are exactly those with a cleanup goroutine, no volume has two, and the
  number of running cleanups the metrics report is the number of goroutines.\<close>

theorem cleanups_tracked:
  assumes "reachable env d p s" and "jobs_named env"
  shows "distinct (map tk_name (sy_tasks s)) \<and> tk_name ` set (sy_tasks s) = running_set (w_ProcTable (sy_world s))
    \<and> Running (Stats (w_ProcTable (sy_world s))) = int (length (sy_tasks s))"
proof -
  have inv: "sys_inv True s" by (rule reachable_inv[OF assms]) simp
  then have pt: "pt_inv (w_ProcTable (sy_world s))" and d: "distinct (map tk_name (sy_tasks s))"
    and r: "tk_name ` set (sy_tasks s) = running_set (w_ProcTable (sy_world s))"
    by (simp_all add: sys_inv_def good_def)
  have "card (running_set (w_ProcTable (sy_world s))) = length (sy_tasks s)"
    using distinct_card[OF d] r by simp
  with d r Stats_Running[OF pt] show ?thesis by simp
qed

text \<open>C16. When a cleanup goroutine makes progress and when it never does. In every reachable state,
  whatever the others and the loop do: a goroutine that has not wiped its volume can do so, and gets
  stuck there exactly if it runs a cleaner command that never ends, be it by itself or because it
  writes a line that is too long for the scanner of its output and then more than a pipe holds; one
  whose wiping has returned can record the outcome, which ends it and leaves the volume's entry as
  succeeded or failed; and one that is stuck stays so in every continuation, with its volume marked as
  running for good. Calls of the file system are taken to return.\<close>

theorem cleanup_task_progress:
  assumes "reachable env d p s" and "jobs_named env" and "sy_tasks s = xs @ tk # ys"
  shows "case tk_result tk of
      None \<Rightarrow> \<exists>r s'. sys_step env d p s s' \<and> sy_tasks s' = xs @ tk\<lparr>tk_result := Some r\<rparr> # ys
        \<and> (r = Hangs \<longleftrightarrow> cleanup_hangs env (tk_cleanup tk) (sy_world s))
    | Some (Returned r) \<Rightarrow> \<exists>s'. sys_step env d p s s' \<and> sy_tasks s' = xs @ ys
        \<and> pt_view (w_ProcTable (sy_world s')) (tk_name tk) = Some (if r = None then CSSucceeded else CSFailed)
    | Some Hangs \<Rightarrow> \<forall>s'. (sys_step env d p)\<^sup>*\<^sup>* s s' \<longrightarrow>
        tk \<in> set (sy_tasks s') \<and> pt_view (w_ProcTable (sy_world s')) (tk_name tk) = Some CSRunning"
proof -
  obtain w where s: "s = \<lparr>sy_world = w, sy_tasks = xs @ tk # ys\<rparr>" using assms(3) by (cases s) simp
  obtain cl res where tk: "tk = \<lparr>tk_cleanup = cl, tk_result = res\<rparr>" by (cases tk)
  have inv: "sys_inv True s" by (rule reachable_inv[OF assms(1,2)]) simp
  consider (wiping) "res = None" | (hung) "res = Some Hangs" | (returned) r where "res = Some (Returned r)"
    by (metis cleanup_end.exhaust option.exhaust)
  then show ?thesis
  proof cases
    case wiping
    have "cleanup_ok cl" using inv by (simp add: sys_inv_def s tk)
    then obtain r w' where r: "cleanPV env (cl_PV cl) (cl_VolMode cl) (cl_MountPath cl) (cl_Config cl) w = Some (r, w')"
      and h: "r = Hangs \<longleftrightarrow> cleanup_hangs env cl w" using cleanPV_total by blast
    from sys_step.wipe_step[OF r, of d p xs ys] have "sys_step env d p s
        \<lparr>sy_world = w', sy_tasks = xs @ tk\<lparr>tk_result := Some r\<rparr> # ys\<rparr>" by (simp add: s tk wiping)
    moreover have "r = Hangs \<longleftrightarrow> cleanup_hangs env (tk_cleanup tk) (sy_world s)" using h by (simp add: s tk)
    ultimately show ?thesis using wiping by (force simp: tk)
  next
    case hung
    have "tk \<in> set (sy_tasks s')" "pt_view (w_ProcTable (sy_world s')) (tk_name tk) = Some CSRunning"
      if r: "(sys_step env d p)\<^sup>*\<^sup>* s s'" for s'
    proof -
      show t: "tk \<in> set (sy_tasks s')" by (rule hung_forever[OF r]) (simp_all add: tk hung s)
      have "sys_inv True s'" by (rule reachable_inv[OF reachable_steps[OF r assms(1)] assms(2)]) simp
      with t show "pt_view (w_ProcTable (sy_world s')) (tk_name tk) = Some CSRunning" by (auto simp: sys_inv_def)
    qed
    then show ?thesis by (simp add: tk hung)
  next
    case (returned r)
    let ?n = "pv_Name (cl_PV cl)"
    have "?n \<in> running_set (w_ProcTable w)" using inv by (auto simp: sys_inv_def s tk)
    then have "pt_view (w_ProcTable (record_outcome ?n r w)) ?n = Some (if r = None then CSSucceeded else CSFailed)"
      using inv by (intro record_outcome_view) (simp_all add: sys_inv_def good_def s)
    moreover from sys_step.record_step[of env d p w xs cl r ys]
    have "sys_step env d p s \<lparr>sy_world = record_outcome ?n r w, sy_tasks = xs @ ys\<rparr>" by (simp add: s tk returned)
    ultimately show ?thesis using returned by (force simp: tk)
  qed
qed

text \<open>A command that writes one line of 64 KiB and then more than the pipe holds.\<close>

lemma long_line_hangs:
  assumes "x_StdoutPipe x = None" "x_StderrPipe x = None" "x_Start x = None"
    and "x_Stdout x = replicate MaxScanTokenSize c @ rest" "c \<noteq> CHR 0x0A" "x_PipeSize x < int (length rest)"
  shows "command_hangs x"
proof -
  have "scan_lines (x_Stdout x) = rest" unfolding assms(4) using assms(5) by (intro scan_long_line) auto
  with assms show ?thesis by (simp add: command_hangs_def)
qed

text \<open>A system in which the cleanup of one released volume was started.\<close>

definition ex_sys :: sys where
  "ex_sys = (let w = sy_world (sys_init ex_world); w' = the (reclaim ex_env ex_deleter (ex_pv ''p'') w)
     in \<lparr>sy_world = w', sy_tasks = new_tasks w w'\<rparr>)"

lemma ex_sys_reachable: "reachable ex_env ex_deleter (ex_disc m) ex_sys"
proof -
  let ?w = "sy_world (sys_init ex_world)"
  have "reclaim ex_env ex_deleter (ex_pv ''p'') ?w \<noteq> None" by code_simp
  then have r: "reclaim ex_env ex_deleter (ex_pv ''p'') ?w = Some (the (reclaim ex_env ex_deleter (ex_pv ''p'') ?w))"
    by (rule option.collapse[symmetric])
  have "sys_step ex_env ex_deleter (ex_disc m) (sys_init ex_world) ex_sys"
    using sys_step.reclaim_step[OF r, of "ex_disc m" "[]"] by (simp add: ex_sys_def sys_init_def Let_def)
  with reachable.init show ?thesis by (rule reachable.step)
qed

lemma ex_sys_facts:
  "w_trace (sy_world ex_sys) = [Spawn ex_cleanup]"
  "sy_tasks ex_sys = [\<lparr>tk_cleanup = ex_cleanup, tk_result = None\<rparr>]" "jobs_named ex_env"
  by (code_simp, code_simp) (simp add: jobs_named_def ex_env_def)

theorem volume_life_cycle_witness: "status ''p'' [] \<noteq> Some CSRunning \<and> w_trace (sy_world ex_sys) = [Spawn ex_cleanup]"
  using volume_life_cycle[OF ex_sys_reachable[of "[]"] ex_sys_facts(3), of "[]" "Spawn ex_cleanup" "[]"]
  by (simp add: ex_sys_facts ex_cleanup_def ex_pv_def)

theorem cleanups_tracked_witness:
  "running_set (w_ProcTable (sy_world ex_sys)) = {''p''} \<and> Running (Stats (w_ProcTable (sy_world ex_sys))) = 1"
  using cleanups_tracked[OF ex_sys_reachable[of "[]"] ex_sys_facts(3)]
  by (auto simp: ex_sys_facts ex_cleanup_def ex_pv_def)

theorem cleanup_task_progress_witness:
  "\<exists>r s'. sys_step ex_env ex_deleter (ex_disc []) ex_sys s' \<and> sy_tasks s' = [\<lparr>tk_cleanup = ex_cleanup, tk_result = Some (Returned r)\<rparr>]"
proof -
  have "\<exists>r s'. sys_step ex_env ex_deleter (ex_disc []) ex_sys s' \<and> sy_tasks s' = [\<lparr>tk_cleanup = ex_cleanup, tk_result = Some r\<rparr>]
      \<and> (r = Hangs \<longleftrightarrow> cleanup_hangs ex_env ex_cleanup (sy_world ex_sys))"
    using cleanup_task_progress[OF ex_sys_reachable[of "[]"] ex_sys_facts(3), of "[]" "\<lparr>tk_cleanup = ex_cleanup, tk_result = None\<rparr>" "[]"]
    by (simp add: ex_sys_facts)
  moreover have "\<not> cleanup_hangs ex_env ex_cleanup (sy_world ex_sys)" by (simp add: cleanup_hangs_def ex_cleanup_def)
  ultimately show ?thesis by (metis cleanup_end.exhaust)
qed

end
