(* ===== verification/Node_Cleanup.thy ===== *)
theory Node_Cleanup
  imports World Workqueue
begin

text \<open>
  The node-cleanup controller, a program of its own (\<open>pkg/node-cleanup\<close>): the deleter scans for
  volumes whose node is gone and deletes their objects; the cleanup controller starts a timer for
  every claim bound to such a volume and deletes the claim if the node has not come back when the
  timer ends. Both read volumes, claims and nodes through informer listers, which are functions of
  the log so far, as are the clock, the API server and the token bucket of the rate limiter.
\<close>

declare map_of_eq_Some_iff [simp del] Some_eq_map_of_iff [simp del]

section \<open>Durations\<close>

text \<open>\<open>Duration.String\<close> of Go's \<open>time\<close> package, for the event message: \<open>frac_str\<close> is \<open>fmtFrac\<close>,
  which drops trailing zeros, and the point with them when nothing is left.\<close>

definition pad_zero :: "nat \<Rightarrow> string \<Rightarrow> string" where
  "pad_zero n s = replicate (n - length s) (CHR ''0'') @ s"

definition frac_str :: "nat \<Rightarrow> nat \<Rightarrow> string" where
  "frac_str v prec =
     (let ds = rev (dropWhile (\<lambda>c. c = CHR ''0'') (rev (pad_zero prec (dec_nat (v mod 10 ^ prec))))) in
      if ds = [] then [] else ''.'' @ ds)"

definition Duration_String :: "int \<Rightarrow> string" where
  "Duration_String d =
     (let u = nat \<bar>d\<bar>;
          sgn = (if d < 0 then ''-'' else []);
          unit = (\<lambda>prec suffix. dec_nat (u div 10 ^ prec) @ frac_str u prec @ suffix) in
      if u = 0 then ''0s''
      else if u < 1000 then sgn @ unit 0 ''ns''
      else if u < 1000000 then sgn @ unit 3 [CHR 0xC2, CHR 0xB5, CHR ''s'']
      else if u < 1000000000 then sgn @ unit 6 ''ms''
      else
        let secs = u div 10 ^ 9; mins = secs div 60; hours = mins div 60;
            s = dec_nat (secs mod 60) @ frac_str u 9 @ ''s'' in
        if mins = 0 then sgn @ s
        else if hours = 0 then sgn @ dec_nat (mins mod 60) @ ''m'' @ s
        else sgn @ dec_nat hours @ ''h'' @ dec_nat (mins mod 60) @ ''m'' @ s)"

section \<open>State and environment\<close>

record nc_env =
  ne_api :: "trace \<Rightarrow> request \<Rightarrow> error option"
  ne_now :: "trace \<Rightarrow> time"
  ne_pvs :: "trace \<Rightarrow> persistent_volume lister"
  ne_nodes :: "trace \<Rightarrow> node lister"
  ne_pvcs :: "trace \<Rightarrow> string \<Rightarrow> string \<Rightarrow> pvc result"
  ne_bucket :: "trace \<Rightarrow> int"

record nc_state =
  ns_queue :: workqueue
  ns_trace :: trace

definition ns_emit :: "effect \<Rightarrow> nc_state \<Rightarrow> nc_state" where
  "ns_emit e s = s\<lparr>ns_trace := ns_trace s @ [e]\<rparr>"

definition ns_call :: "nc_env \<Rightarrow> request \<Rightarrow> nc_state \<Rightarrow> error option \<times> nc_state" where
  "ns_call env req s = (let err = ne_api env (ns_trace s) req in (err, ns_emit (Call req err) s))"

abbreviation NC_PersistentVolumeDeleteTotal :: string where
  "NC_PersistentVolumeDeleteTotal \<equiv> ''persistentvolume_delete_total''"
abbreviation NC_PersistentVolumeDeleteFailedTotal :: string where
  "NC_PersistentVolumeDeleteFailedTotal \<equiv> ''persistentvolume_delete_failed_total''"
abbreviation PersistentVolumeClaimDeleteTotal :: string where
  "PersistentVolumeClaimDeleteTotal \<equiv> ''persistentvolumeclaim_delete_total''"
abbreviation PersistentVolumeClaimDeleteFailedTotal :: string where
  "PersistentVolumeClaimDeleteFailedTotal \<equiv> ''persistentvolumeclaim_delete_failed_total''"

section \<open>The deleter of stale volumes\<close>

record NC_Deleter =
  nd_storageClassNames :: "string list"

definition NC_NewDeleter :: "string list \<Rightarrow> NC_Deleter" where
  "NC_NewDeleter storageClassNames = \<lparr>nd_storageClassNames = storageClassNames\<rparr>"

definition referencesNonExistentNode :: "nc_env \<Rightarrow> persistent_volume \<Rightarrow> nc_state \<Rightarrow> bool" where
  "referencesNonExistentNode env localPV s =
     (case GetLocalPersistentVolumeNodeNames (Some localPV) of
        None \<Rightarrow> False
      | Some nodeNames \<Rightarrow> \<not> AnyNodeExists (ne_nodes env (ns_trace s)) nodeNames)"

definition NC_deletePV :: "nc_env \<Rightarrow> string \<Rightarrow> nc_state \<Rightarrow> error option \<times> nc_state" where
  "NC_deletePV env pvName s =
     (case ns_call env (ReqDeletePV pvName) s of
        (Some err, s) \<Rightarrow> if IsNotFound err then (None, s) else (Some err, s)
      | (None, s) \<Rightarrow> (None, s))"

text \<open>The body of the loop of \<open>DeletePVs\<close>.\<close>

definition delete_stale :: "nc_env \<Rightarrow> NC_Deleter \<Rightarrow> persistent_volume \<Rightarrow> nc_state \<Rightarrow> nc_state" where
  "delete_stale env d pv s =
     (if \<not> IsLocalPVWithStorageClass pv (nd_storageClassNames d) then s
      else if \<not> referencesNonExistentNode env pv s then s
      else
        let phase = pv_Phase pv;
            reclaimPolicy = pvs_ReclaimPolicy (pv_Spec pv);
            isReleasedWithDeleteReclaim =
              (phase = VolumeReleased \<and> reclaimPolicy = PersistentVolumeReclaimDelete);
            isAvailable = (phase = VolumeAvailable) in
        if isReleasedWithDeleteReclaim \<or> isAvailable then
          (case NC_deletePV env (pv_Name pv) s of
             (Some err, s) \<Rightarrow> ns_emit (Inc NC_PersistentVolumeDeleteFailedTotal [phase]) s
           | (None, s) \<Rightarrow> ns_emit (Inc NC_PersistentVolumeDeleteTotal [phase]) s)
        else s)"

fun delete_stale_all :: "nc_env \<Rightarrow> NC_Deleter \<Rightarrow> persistent_volume list \<Rightarrow> nc_state \<Rightarrow> nc_state" where
  "delete_stale_all env d [] s = s"
| "delete_stale_all env d (pv # pvs) s = delete_stale_all env d pvs (delete_stale env d pv s)"

definition NC_DeletePVs :: "nc_env \<Rightarrow> NC_Deleter \<Rightarrow> nc_state \<Rightarrow> nc_state" where
  "NC_DeletePVs env d s =
     (case l_List (ne_pvs env (ns_trace s)) (\<lambda>_. True) of
        Inl err \<Rightarrow> s
      | Inr pvs \<Rightarrow> delete_stale_all env d pvs s)"

text \<open>\<open>Run\<close> for at most the given number of rounds: whether it has stopped, and the state.
  The context is done as a function of the log.\<close>

fun NC_Run :: "nc_env \<Rightarrow> NC_Deleter \<Rightarrow> (trace \<Rightarrow> bool) \<Rightarrow> time \<Rightarrow> nat \<Rightarrow> nc_state \<Rightarrow> bool \<times> nc_state" where
  "NC_Run env d ctxDone discoveryInterval 0 s = (False, s)"
| "NC_Run env d ctxDone discoveryInterval (Suc n) s =
     (if ctxDone (ns_trace s) then (True, s)
      else NC_Run env d ctxDone discoveryInterval n
             (ns_emit (Sleep discoveryInterval) (NC_DeletePVs env d s)))"

section \<open>The cleanup controller\<close>

record CleanupController =
  cc_storageClassNames :: "string list"
  cc_pvcDeletionDelay :: time
  cc_stalePVDiscoveryInterval :: time

definition NewCleanupController :: "string list \<Rightarrow> time \<Rightarrow> time \<Rightarrow> CleanupController \<times> workqueue" where
  "NewCleanupController storageClassNames pvcDeletionDelay stalePVDiscoveryInterval =
     (\<lparr>cc_storageClassNames = storageClassNames, cc_pvcDeletionDelay = pvcDeletionDelay,
       cc_stalePVDiscoveryInterval = stalePVDiscoveryInterval\<rparr>, wq_New)"

definition deletePVC :: "nc_env \<Rightarrow> pvc \<Rightarrow> nc_state \<Rightarrow> error option \<times> nc_state" where
  "deletePVC env pvc s =
     (case ns_call env (ReqDeletePVC (om_Namespace (pvc_Meta pvc)) (om_Name (pvc_Meta pvc)) (om_UID (pvc_Meta pvc))) s of
        (Some err, s) \<Rightarrow> if IsNotFound err then (None, s) else (Some err, s)
      | (None, s) \<Rightarrow> (None, s))"

definition syncHandler :: "nc_env \<Rightarrow> string \<Rightarrow> nc_state \<Rightarrow> error option \<times> nc_state" where
  "syncHandler env pvName s =
     (case l_Get (ne_pvs env (ns_trace s)) pvName of
        Inl err \<Rightarrow> if IsNotFound err then (None, s) else (Some err, s)
      | Inr pv \<Rightarrow>
          (case GetLocalPersistentVolumeNodeNames (Some pv) of
             None \<Rightarrow> (None, s)
           | Some nodeNames \<Rightarrow>
               if AnyNodeExists (ne_nodes env (ns_trace s)) nodeNames then (None, s)
               else case pvs_ClaimRef (pv_Spec pv) of
                 None \<Rightarrow> (None, s)
               | Some pvClaimRef \<Rightarrow>
                   (case ne_pvcs env (ns_trace s) (ref_Namespace pvClaimRef) (ref_Name pvClaimRef) of
                      Inl err \<Rightarrow> if IsNotFound err then (None, s) else (Some err, s)
                    | Inr pvc \<Rightarrow>
                        if pvc_VolumeName pvc \<noteq> pv_Name pv \<or> om_UID (pvc_Meta pvc) \<noteq> ref_UID pvClaimRef
                        then (None, s)
                        else case deletePVC env pvc s of
                          (Some err, s) \<Rightarrow>
                            (Some err, ns_emit (Inc PersistentVolumeClaimDeleteFailedTotal []) s)
                        | (None, s) \<Rightarrow>
                            (None, ns_emit (Inc PersistentVolumeClaimDeleteTotal []) s))))"

text \<open>The keys of the queue are volume names, so the assertion \<open>key.(string)\<close> never fails. The
  result is \<open>None\<close> while the queue blocks, and otherwise whether the worker goes on.\<close>

definition processNextWorkItem :: "nc_env \<Rightarrow> nc_state \<Rightarrow> bool option \<times> nc_state" where
  "processNextWorkItem env s =
     (case wq_Get (ns_queue s) of
        (Blocked, q) \<Rightarrow> (None, s\<lparr>ns_queue := q\<rparr>)
      | (Shutdown, q) \<Rightarrow> (Some False, s\<lparr>ns_queue := q\<rparr>)
      | (Item pvName, q) \<Rightarrow>
          (case syncHandler env pvName (s\<lparr>ns_queue := q\<rparr>) of
             (Some err, s) \<Rightarrow>
               let q = wq_AddRateLimited (ne_now env (ns_trace s)) (ne_bucket env (ns_trace s)) pvName (ns_queue s)
               in (Some True, s\<lparr>ns_queue := wq_Done pvName q\<rparr>)
           | (None, s) \<Rightarrow>
               let q = wq_Forget pvName (ns_queue s) in (Some True, s\<lparr>ns_queue := wq_Done pvName q\<rparr>)))"

fun NC_runWorker :: "nc_env \<Rightarrow> nat \<Rightarrow> nc_state \<Rightarrow> bool \<times> nc_state" where
  "NC_runWorker env 0 s = (False, s)"
| "NC_runWorker env (Suc n) s =
     (case processNextWorkItem env s of
        (None, s) \<Rightarrow> (False, s)
      | (Some False, s) \<Rightarrow> (True, s)
      | (Some True, s) \<Rightarrow> NC_runWorker env n s)"

definition shouldEnqueueEntry :: "nc_env \<Rightarrow> persistent_volume \<Rightarrow> string list \<Rightarrow> nc_state \<Rightarrow> bool" where
  "shouldEnqueueEntry env pv nodeNames s =
     (if pvs_ClaimRef (pv_Spec pv) = None then False
      else \<not> AnyNodeExists (ne_nodes env (ns_trace s)) nodeNames)"

text \<open>The body of the loop of \<open>startCleanupTimersIfNeeded\<close>.\<close>

definition start_timer :: "nc_env \<Rightarrow> CleanupController \<Rightarrow> persistent_volume \<Rightarrow> nc_state \<Rightarrow> nc_state" where
  "start_timer env c pv s =
     (if \<not> IsLocalPVWithStorageClass pv (cc_storageClassNames c) then s
      else case GetLocalPersistentVolumeNodeNames (Some pv) of
        None \<Rightarrow> s
      | Some nodeNames \<Rightarrow>
          if shouldEnqueueEntry env pv nodeNames s then
            let s = (case pvs_ClaimRef (pv_Spec pv) of
                       None \<Rightarrow> s
                     | Some ref \<Rightarrow>
                         ns_emit (Event (ref_Name ref) EventTypeWarning ''ReferencedNodeDeleted''
                           (Errorf ''PVC is tied to a deleted Node. PVC will be cleaned up in %s if the Node doesn't come back''
                              [Duration_String (cc_pvcDeletionDelay c)])) s)
            in s\<lparr>ns_queue := wq_AddAfter (ne_now env (ns_trace s)) (pv_Name pv) (cc_pvcDeletionDelay c) (ns_queue s)\<rparr>
          else s)"

fun start_timers :: "nc_env \<Rightarrow> CleanupController \<Rightarrow> persistent_volume list \<Rightarrow> nc_state \<Rightarrow> nc_state" where
  "start_timers env c [] s = s"
| "start_timers env c (pv # pvs) s = start_timers env c pvs (start_timer env c pv s)"

definition startCleanupTimersIfNeeded :: "nc_env \<Rightarrow> CleanupController \<Rightarrow> nc_state \<Rightarrow> nc_state" where
  "startCleanupTimersIfNeeded env c s =
     (case l_List (ne_pvs env (ns_trace s)) (\<lambda>_. True) of
        Inl err \<Rightarrow> s
      | Inr pvs \<Rightarrow> start_timers env c pvs s)"

definition nodeDeleted :: "nc_env \<Rightarrow> CleanupController \<Rightarrow> nc_state \<Rightarrow> nc_state" where
  "nodeDeleted env c s = startCleanupTimersIfNeeded env c s"

section \<open>What the listers say\<close>

lemma ns_emit_simps [simp]:
  "ns_trace (ns_emit e s) = ns_trace s @ [e]" "ns_queue (ns_emit e s) = ns_queue s"
  by (simp_all add: ns_emit_def)

lemma ns_call_simps [simp]:
  "ns_call env r s = (err, s') \<longleftrightarrow> err = ne_api env (ns_trace s) r \<and> s' = ns_emit (Call r err) s"
  by (auto simp: ns_call_def Let_def)

text \<open>No node of the index has one of the names the volume's required affinity gives, and all
  these names can be looked up. An affinity that gives no name satisfies this vacuously.\<close>

definition node_gone :: "(string, node) gomap \<Rightarrow> persistent_volume \<Rightarrow> bool" where
  "node_gone nodes pv \<longleftrightarrow>
     (\<exists>terms. pvs_NodeAffinity (pv_Spec pv) = Some (Some terms)
        \<and> (\<forall>t\<in>set terms. \<forall>n. term_names t n \<longrightarrow> IsValidLabelValue n
             \<and> (\<forall>nd\<in>snd ` set nodes. node_Name nd \<noteq> n \<and> label_get (om_Labels (node_Meta nd)) NodeLabelKey \<noteq> Some n)))"

lemma node_gone_iff:
  assumes "index_ok node_Name nodes"
  shows "node_gone nodes pv \<longleftrightarrow>
    (\<exists>names. GetLocalPersistentVolumeNodeNames (Some pv) = Some names
       \<and> \<not> AnyNodeExists (indexer_lister nodes) names)"
  unfolding GetLocalPersistentVolumeNodeNames_def node_gone_def
  by (auto simp: AnyNodeExists_indexer[OF assms] set_terms_nodes split: option.splits)

lemma references_iff:
  assumes "index_ok node_Name nodes" "ne_nodes env (ns_trace s) = indexer_lister nodes"
  shows "referencesNonExistentNode env pv s \<longleftrightarrow> node_gone nodes pv"
  using assms(2) unfolding referencesNonExistentNode_def node_gone_iff[OF assms(1)]
  by (simp split: option.splits)

text \<open>The volumes whose objects the deleter may delete.\<close>

definition stale :: "(string, node) gomap \<Rightarrow> string list \<Rightarrow> persistent_volume \<Rightarrow> bool" where
  "stale nodes classes pv \<longleftrightarrow> pvs_Local (pv_Spec pv) \<noteq> None \<and> pvs_StorageClassName (pv_Spec pv) \<in> set classes
     \<and> node_gone nodes pv
     \<and> (pv_Phase pv = VolumeAvailable
        \<or> pv_Phase pv = VolumeReleased \<and> pvs_ReclaimPolicy (pv_Spec pv) = PersistentVolumeReclaimDelete)"

lemma NC_deletePV_spec:
  assumes "NC_deletePV env n s = (err, s')"
  shows "s' = ns_emit (Call (ReqDeletePV n) (ne_api env (ns_trace s) (ReqDeletePV n))) s"
    "err = (if ne_api env (ns_trace s) (ReqDeletePV n) = Some ErrNotFound then None
            else ne_api env (ns_trace s) (ReqDeletePV n))"
  using assms by (auto simp: NC_deletePV_def ns_call_def Let_def split: option.splits if_splits)

lemma delete_stale_requests:
  assumes "index_ok node_Name nodes" "ne_nodes env (ns_trace s) = indexer_lister nodes"
  shows "\<exists>es. ns_trace (delete_stale env d pv s) = ns_trace s @ es
    \<and> requests es = (if stale nodes (nd_storageClassNames d) pv then [ReqDeletePV (pv_Name pv)] else [])"
proof (cases "stale nodes (nd_storageClassNames d) pv")
  case True
  obtain err s' where c: "NC_deletePV env (pv_Name pv) s = (err, s')" by fastforce
  from True have "delete_stale env d pv s =
      (case NC_deletePV env (pv_Name pv) s of
         (Some err, s) \<Rightarrow> ns_emit (Inc NC_PersistentVolumeDeleteFailedTotal [pv_Phase pv]) s
       | (None, s) \<Rightarrow> ns_emit (Inc NC_PersistentVolumeDeleteTotal [pv_Phase pv]) s)"
    by (auto simp: delete_stale_def stale_def IsLocalPVWithStorageClass_def references_iff[OF assms] Let_def)
  with True c NC_deletePV_spec(1)[OF c] show ?thesis by (simp split: option.split)
next
  case False
  then have "delete_stale env d pv s = s"
    by (auto simp: delete_stale_def stale_def IsLocalPVWithStorageClass_def references_iff[OF assms] Let_def)
  with False show ?thesis by simp
qed

lemma delete_stale_all_requests:
  assumes "index_ok node_Name nodes" "\<And>tr. ne_nodes env tr = indexer_lister nodes"
  shows "\<exists>es. ns_trace (delete_stale_all env d pvs s) = ns_trace s @ es
    \<and> requests es = map (\<lambda>pv. ReqDeletePV (pv_Name pv)) (filter (stale nodes (nd_storageClassNames d)) pvs)"
proof (induction pvs arbitrary: s)
  case (Cons pv pvs)
  obtain es1 where e1: "ns_trace (delete_stale env d pv s) = ns_trace s @ es1"
    "requests es1 = (if stale nodes (nd_storageClassNames d) pv then [ReqDeletePV (pv_Name pv)] else [])"
    using delete_stale_requests[OF assms(1) assms(2)] by blast
  obtain es2 where "ns_trace (delete_stale_all env d pvs (delete_stale env d pv s)) = ns_trace s @ es1 @ es2"
    "requests es2 = map (\<lambda>pv. ReqDeletePV (pv_Name pv)) (filter (stale nodes (nd_storageClassNames d)) pvs)"
    using Cons[of "delete_stale env d pv s"] e1(1) by auto
  with e1(2) show ?case by (intro exI[of _ "es1 @ es2"]) simp
qed simp

section \<open>The claim of a volume\<close>

text \<open>The claim that is bound to the volume on both sides.\<close>

definition bound_claim :: "nc_env \<Rightarrow> trace \<Rightarrow> persistent_volume \<Rightarrow> pvc \<Rightarrow> bool" where
  "bound_claim env tr pv pvc \<longleftrightarrow>
     (\<exists>ref. pvs_ClaimRef (pv_Spec pv) = Some ref \<and> ne_pvcs env tr (ref_Namespace ref) (ref_Name ref) = Inr pvc
        \<and> pvc_VolumeName pvc = pv_Name pv \<and> om_UID (pvc_Meta pvc) = ref_UID ref)"

definition pvc_request :: "pvc \<Rightarrow> request" where
  "pvc_request pvc = ReqDeletePVC (om_Namespace (pvc_Meta pvc)) (om_Name (pvc_Meta pvc)) (om_UID (pvc_Meta pvc))"

lemma deletePVC_spec:
  assumes "deletePVC env pvc s = (err, s')"
  shows "s' = ns_emit (Call (pvc_request pvc) (ne_api env (ns_trace s) (pvc_request pvc))) s"
    "err = (if ne_api env (ns_trace s) (pvc_request pvc) = Some ErrNotFound then None
            else ne_api env (ns_trace s) (pvc_request pvc))"
  using assms by (auto simp: deletePVC_def pvc_request_def ns_call_def Let_def split: option.splits if_splits)

text \<open>The answer of the API server to a deletion, an object that is gone counting as deleted.\<close>

abbreviation deleted :: "error option \<Rightarrow> bool" where
  "deleted err \<equiv> err = None \<or> err = Some ErrNotFound"

lemma syncHandler_orphan:
  assumes "index_ok node_Name nodes" "ne_nodes env (ns_trace s) = indexer_lister nodes"
    and "l_Get (ne_pvs env (ns_trace s)) pvName = Inr pv" "node_gone nodes pv" "bound_claim env (ns_trace s) pv pvc"
  shows "\<exists>err s'. syncHandler env pvName s = (err, s') \<and> ns_queue s' = ns_queue s
    \<and> (\<exists>es. ns_trace s' = ns_trace s @ Call (pvc_request pvc) (ne_api env (ns_trace s) (pvc_request pvc)) # es
        \<and> requests es = [])
    \<and> (err = None \<longleftrightarrow> deleted (ne_api env (ns_trace s) (pvc_request pvc)))"
proof -
  from assms(4) obtain names where n: "GetLocalPersistentVolumeNodeNames (Some pv) = Some names"
    "\<not> AnyNodeExists (indexer_lister nodes) names"
    by (auto simp: node_gone_iff[OF assms(1)])
  from assms(5) obtain ref where r: "pvs_ClaimRef (pv_Spec pv) = Some ref"
    "ne_pvcs env (ns_trace s) (ref_Namespace ref) (ref_Name ref) = Inr pvc"
    "pvc_VolumeName pvc = pv_Name pv" "om_UID (pvc_Meta pvc) = ref_UID ref"
    by (auto simp: bound_claim_def)
  obtain err s' where d: "deletePVC env pvc s = (err, s')" by fastforce
  have "syncHandler env pvName s =
      (case deletePVC env pvc s of
         (Some err, s) \<Rightarrow> (Some err, ns_emit (Inc PersistentVolumeClaimDeleteFailedTotal []) s)
       | (None, s) \<Rightarrow> (None, ns_emit (Inc PersistentVolumeClaimDeleteTotal []) s))"
    using n r by (simp add: syncHandler_def assms(2,3))
  with d deletePVC_spec[OF d] show ?thesis by (simp split: option.split)
qed

lemma syncHandler_no_orphan:
  assumes "index_ok node_Name nodes" "ne_nodes env (ns_trace s) = indexer_lister nodes"
    and "\<nexists>pv pvc. l_Get (ne_pvs env (ns_trace s)) pvName = Inr pv \<and> node_gone nodes pv
      \<and> bound_claim env (ns_trace s) pv pvc"
  shows "snd (syncHandler env pvName s) = s"
proof (cases "l_Get (ne_pvs env (ns_trace s)) pvName")
  case (Inr pv)
  show ?thesis
  proof (cases "node_gone nodes pv")
    case True
    with assms(3) Inr have "\<nexists>pvc. bound_claim env (ns_trace s) pv pvc" by blast
    with Inr show ?thesis
      by (auto simp: syncHandler_def bound_claim_def split: option.splits sum.splits)
  next
    case False
    with Inr show ?thesis
      by (auto simp: syncHandler_def node_gone_iff[OF assms(1)] assms(2) split: option.splits)
  qed
qed (simp add: syncHandler_def)

section \<open>Timers\<close>

text \<open>The volumes whose claims get a timer.\<close>

definition timed :: "(string, node) gomap \<Rightarrow> string list \<Rightarrow> persistent_volume \<Rightarrow> bool" where
  "timed nodes classes pv \<longleftrightarrow> pvs_Local (pv_Spec pv) \<noteq> None \<and> pvs_StorageClassName (pv_Spec pv) \<in> set classes
     \<and> pvs_ClaimRef (pv_Spec pv) \<noteq> None \<and> node_gone nodes pv"

lemma start_timer_spec:
  assumes "index_ok node_Name nodes" "ne_nodes env (ns_trace s) = indexer_lister nodes"
  shows "\<exists>es. ns_trace (start_timer env c pv s) = ns_trace s @ es \<and> requests es = []
    \<and> ns_queue (start_timer env c pv s) =
        (if timed nodes (cc_storageClassNames c) pv
         then wq_AddAfter (ne_now env (ns_trace s @ es)) (pv_Name pv) (cc_pvcDeletionDelay c) (ns_queue s)
         else ns_queue s)"
proof (cases "timed nodes (cc_storageClassNames c) pv")
  case True
  then obtain names ref where "GetLocalPersistentVolumeNodeNames (Some pv) = Some names"
    "\<not> AnyNodeExists (indexer_lister nodes) names" "pvs_ClaimRef (pv_Spec pv) = Some ref"
    by (auto simp: timed_def node_gone_iff[OF assms(1)])
  with True show ?thesis
    by (auto simp: start_timer_def shouldEnqueueEntry_def timed_def IsLocalPVWithStorageClass_def assms(2) Let_def)
next
  case False
  then have "start_timer env c pv s = s"
    by (auto simp: start_timer_def shouldEnqueueEntry_def timed_def IsLocalPVWithStorageClass_def
        node_gone_iff[OF assms(1)] assms(2) Let_def split: option.splits)
  with False show ?thesis by simp
qed

lemma start_timers_spec:
  assumes "index_ok node_Name nodes" "\<And>tr. ne_nodes env tr = indexer_lister nodes" "\<not> wq_shuttingDown (ns_queue s)"
  shows "let q = ns_queue s; q' = ns_queue (start_timers env c pvs s) in
      wq_pending q' = wq_pending q \<union> pv_Name ` {pv \<in> set pvs. timed nodes (cc_storageClassNames c) pv}
    \<and> wq_processing q' = wq_processing q \<and> (wq_inv q \<longrightarrow> wq_inv q')
    \<and> (\<forall>k t. gm_get (wq_waiting q) k = Some t \<longrightarrow> (\<exists>t'\<le>t. gm_get (wq_waiting q') k = Some t'))
    \<and> (\<exists>es. ns_trace (start_timers env c pvs s) = ns_trace s @ es \<and> requests es = [])"
  using assms(3)
proof (induction pvs arbitrary: s)
  case (Cons pv pvs)
  let ?s = "start_timer env c pv s" and ?T = "timed nodes (cc_storageClassNames c)"
  obtain es where es: "ns_trace ?s = ns_trace s @ es" "requests es = []"
    "ns_queue ?s = (if ?T pv then wq_AddAfter (ne_now env (ns_trace s @ es)) (pv_Name pv) (cc_pvcDeletionDelay c) (ns_queue s)
       else ns_queue s)"
    using start_timer_spec[OF assms(1,2)] by blast
  then have q: "wq_pending (ns_queue ?s) = wq_pending (ns_queue s) \<union> (if ?T pv then {pv_Name pv} else {})"
    "wq_processing (ns_queue ?s) = wq_processing (ns_queue s)" "\<not> wq_shuttingDown (ns_queue ?s)"
    "wq_inv (ns_queue s) \<longrightarrow> wq_inv (ns_queue ?s)"
    using Cons.prems by simp_all
  have w: "\<exists>t'\<le>t. gm_get (wq_waiting (ns_queue ?s)) k = Some t'" if "gm_get (wq_waiting (ns_queue s)) k = Some t" for k t
    using that by (simp add: es(3) wq_AddAfter_waiting)
  note IH = Cons.IH[OF q(3), unfolded Let_def]
  have "\<exists>t'\<le>t. gm_get (wq_waiting (ns_queue (start_timers env c pvs ?s))) k = Some t'"
    if "gm_get (wq_waiting (ns_queue s)) k = Some t" for k t
    using w[OF that] IH by (meson order_trans)
  moreover obtain es2 where "ns_trace (start_timers env c pvs ?s) = ns_trace s @ (es @ es2)" "requests es2 = []"
    using IH es(1) by auto
  ultimately show ?case using IH q es(2) by (auto simp: Let_def)
qed auto

text \<open>Without a delay the volumes are ready at once.\<close>

lemma start_timers_now:
  assumes "index_ok node_Name nodes" "\<And>tr. ne_nodes env tr = indexer_lister nodes" "cc_pvcDeletionDelay c \<le> 0"
    and "\<not> wq_shuttingDown (ns_queue s)"
  shows "let q = ns_queue s; q' = ns_queue (start_timers env c pvs s) in
    wq_waiting q' = wq_waiting q \<and> wq_dirty q' = wq_dirty q \<union> pv_Name ` {pv \<in> set pvs. timed nodes (cc_storageClassNames c) pv}"
  using assms(4)
proof (induction pvs arbitrary: s)
  case (Cons pv pvs)
  let ?s = "start_timer env c pv s" and ?T = "timed nodes (cc_storageClassNames c)"
  obtain es where "ns_queue ?s = (if ?T pv then wq_AddAfter (ne_now env (ns_trace s @ es)) (pv_Name pv) (cc_pvcDeletionDelay c) (ns_queue s)
       else ns_queue s)"
    using start_timer_spec[OF assms(1,2)] by blast
  with assms(3) Cons.prems have q: "ns_queue ?s = (if ?T pv then wq_Add (pv_Name pv) (ns_queue s) else ns_queue s)"
    by (simp add: wq_AddAfter_def)
  then have "\<not> wq_shuttingDown (ns_queue ?s)" using Cons.prems by simp
  from Cons.IH[OF this] q Cons.prems show ?case by (auto simp: Let_def wq_Add_def)
qed simp

text \<open>With a delay nothing becomes ready at once, and each timer runs for the delay from a moment of the loop.\<close>

lemma start_timers_due:
  assumes "index_ok node_Name nodes" "\<And>tr. ne_nodes env tr = indexer_lister nodes" "0 < cc_pvcDeletionDelay c"
    and "\<not> wq_shuttingDown (ns_queue s)"
  shows "let q = ns_queue s; s' = start_timers env c pvs s; q' = ns_queue s' in
      wq_queue q' = wq_queue q \<and> wq_dirty q' = wq_dirty q
    \<and> (\<forall>k. if k \<in> pv_Name ` {pv \<in> set pvs. timed nodes (cc_storageClassNames c) pv}
         then \<exists>tr. prefix (ns_trace s) tr \<and> prefix tr (ns_trace s')
           \<and> gm_get (wq_waiting q') k = Some (timer_due (gm_get (wq_waiting q) k) (ne_now env tr + cc_pvcDeletionDelay c))
         else gm_get (wq_waiting q') k = gm_get (wq_waiting q) k)"
  using assms(4)
proof (induction pvs arbitrary: s)
  case (Cons pv pvs)
  let ?s = "start_timer env c pv s" and ?T = "timed nodes (cc_storageClassNames c)" and ?d = "cc_pvcDeletionDelay c"
  let ?s' = "start_timers env c pvs ?s" and ?old = "\<lambda>k. gm_get (wq_waiting (ns_queue s)) k"
  obtain es where es: "ns_trace ?s = ns_trace s @ es"
    "ns_queue ?s = (if ?T pv then wq_AddAfter (ne_now env (ns_trace s @ es)) (pv_Name pv) ?d (ns_queue s) else ns_queue s)"
    using start_timer_spec[OF assms(1,2)] by blast
  have sd: "\<not> wq_shuttingDown (ns_queue ?s)" using es(2) Cons.prems by simp
  have q: "wq_queue (ns_queue ?s) = wq_queue (ns_queue s)" "wq_dirty (ns_queue ?s) = wq_dirty (ns_queue s)"
    and w: "gm_get (wq_waiting (ns_queue ?s)) k = (if ?T pv \<and> k = pv_Name pv
        then Some (timer_due (?old k) (ne_now env (ns_trace ?s) + ?d)) else ?old k)" for k
    using wq_AddAfter_timer[OF assms(3) Cons.prems] es by auto
  note IH = Cons.IH[OF sd, unfolded Let_def]
  note IHk = spec[OF conjunct2[OF conjunct2[OF IH]]]
  obtain es2 where "ns_trace ?s' = ns_trace ?s @ es2"
    using start_timers_spec[OF assms(1,2) sd, of c pvs] by (auto simp: Let_def)
  then have pre: "prefix (ns_trace s) (ns_trace ?s)" "prefix (ns_trace ?s) (ns_trace ?s')" using es(1) by simp_all
  have "if k \<in> pv_Name ` {q \<in> set (pv # pvs). ?T q}
      then \<exists>tr. prefix (ns_trace s) tr \<and> prefix tr (ns_trace ?s')
        \<and> gm_get (wq_waiting (ns_queue ?s')) k = Some (timer_due (?old k) (ne_now env tr + ?d))
      else gm_get (wq_waiting (ns_queue ?s')) k = ?old k" for k
  proof (cases "k \<in> pv_Name ` {pv \<in> set pvs. ?T pv}")
    case True
    from IHk[of k, unfolded if_P[OF True]] obtain tr where tr: "prefix (ns_trace ?s) tr" "prefix tr (ns_trace ?s')"
      "gm_get (wq_waiting (ns_queue ?s')) k = Some (timer_due (gm_get (wq_waiting (ns_queue ?s)) k) (ne_now env tr + ?d))"
      by (elim exE conjE)
    have "timer_due (Some (timer_due (?old k) a)) b = timer_due (?old k) (if a \<le> b then a else b)" for a b
      by (auto simp: timer_due_def split: option.splits)
    then have "gm_get (wq_waiting (ns_queue ?s')) k = Some (timer_due (?old k) (ne_now env tr + ?d))
        \<or> gm_get (wq_waiting (ns_queue ?s')) k = Some (timer_due (?old k) (ne_now env (ns_trace ?s) + ?d))"
      using tr(3) w[of k] by (auto split: if_splits)
    moreover have "prefix (ns_trace s) tr" using pre(1) tr(1) by (rule prefix_order.trans)
    moreover have "k \<in> pv_Name ` {q \<in> set (pv # pvs). ?T q}" using True by auto
    ultimately show ?thesis using pre tr(2) by (simp only: if_True) blast
  next
    case False
    let ?P = "?T pv \<and> k = pv_Name pv"
    have w': "gm_get (wq_waiting (ns_queue ?s')) k = (if ?P
        then Some (timer_due (?old k) (ne_now env (ns_trace ?s) + ?d)) else ?old k)"
      using IHk[of k, unfolded if_not_P[OF False]] w[of k] by (simp only:)
    have m: "k \<in> pv_Name ` {q \<in> set (pv # pvs). ?T q} \<longleftrightarrow> ?P" using False by auto
    show ?thesis
    proof (cases ?P)
      case True
      show ?thesis unfolding m if_P[OF True] by (intro exI conjI, rule pre, rule pre, rule w'[unfolded if_P[OF True]])
    next
      case False
      show ?thesis unfolding m if_not_P[OF False] by (rule w'[unfolded if_not_P[OF False]])
    qed
  qed
  with IH q show ?case by (simp add: Let_def)
qed simp

section \<open>The worker\<close>

lemma syncHandler_grows:
  "\<exists>es. ns_trace (snd (syncHandler env k s)) = ns_trace s @ es" "ns_queue (snd (syncHandler env k s)) = ns_queue s"
  by (auto simp: syncHandler_def deletePVC_def ns_call_def Let_def split: sum.splits option.splits if_splits)

lemma processNextWorkItem_item:
  assumes "wq_inv (ns_queue s)" "wq_processing (ns_queue s) = {}" "wq_queue (ns_queue s) = key # rest"
  obtains s' where "processNextWorkItem env s = (Some True, s')" "wq_inv (ns_queue s')"
    "wq_processing (ns_queue s') = {}" "wq_queue (ns_queue s') = rest"
    "wq_shuttingDown (ns_queue s') = wq_shuttingDown (ns_queue s)"
    "ns_trace s' = ns_trace (snd (syncHandler env key (s\<lparr>ns_queue := snd (wq_Get (ns_queue s))\<rparr>)))"
proof -
  obtain q1 where g: "wq_Get (ns_queue s) = (Item key, q1)" using assms(3) by (simp add: wq_Get_def)
  obtain err s1 where h: "syncHandler env key (s\<lparr>ns_queue := q1\<rparr>) = (err, s1)" by fastforce
  then have q: "ns_queue s1 = q1" using syncHandler_grows(2)[of env key "s\<lparr>ns_queue := q1\<rparr>"] by simp
  let ?q2 = "if err = None then wq_Forget key q1
    else wq_AddRateLimited (ne_now env (ns_trace s1)) (ne_bucket env (ns_trace s1)) key q1"
  have "processNextWorkItem env s = (Some True, s1\<lparr>ns_queue := wq_Done key ?q2\<rparr>)"
    by (simp add: processNextWorkItem_def g h q Let_def split: option.split)
  moreover have "?q2 = wq_Forget key q1
      \<or> ?q2 = wq_AddRateLimited (ne_now env (ns_trace s1)) (ne_bucket env (ns_trace s1)) key q1" by simp
  note t = wq_turn[OF assms(1) g this]
  ultimately show ?thesis using that[of "s1\<lparr>ns_queue := wq_Done key ?q2\<rparr>"] t assms(2,3) g h by auto
qed

lemma processNextWorkItem_idle:
  "wq_queue (ns_queue s) = [] \<Longrightarrow>
     processNextWorkItem env s = (if wq_shuttingDown (ns_queue s) then Some False else None, s)"
  by (simp add: processNextWorkItem_def wq_Get_def)

text \<open>A key that stays orphaned while the worker runs: its volume and claim are seen in every
  state, the node is gone.\<close>

definition orphaned :: "nc_env \<Rightarrow> (string, node) gomap \<Rightarrow> string \<Rightarrow> pvc \<Rightarrow> bool" where
  "orphaned env nodes k pvc \<longleftrightarrow>
     (\<forall>tr. \<exists>pv. l_Get (ne_pvs env tr) k = Inr pv \<and> node_gone nodes pv \<and> bound_claim env tr pv pvc)"

lemma syncHandler_orphaned:
  assumes "index_ok node_Name nodes" "\<And>tr. ne_nodes env tr = indexer_lister nodes" "orphaned env nodes k pvc"
  shows "\<exists>es. ns_trace (snd (syncHandler env k s)) = ns_trace s @ es \<and> pvc_request pvc \<in> set (requests es)"
proof -
  from assms(3) obtain pv where "l_Get (ne_pvs env (ns_trace s)) k = Inr pv" "node_gone nodes pv"
    "bound_claim env (ns_trace s) pv pvc"
    unfolding orphaned_def by blast
  from syncHandler_orphan[OF assms(1,2) this] show ?thesis by auto
qed

lemma NC_runWorker_grows:
  "wq_inv (ns_queue s) \<Longrightarrow> wq_processing (ns_queue s) = {} \<Longrightarrow>
     \<exists>es. ns_trace (snd (NC_runWorker env n s)) = ns_trace s @ es"
proof (induction n arbitrary: s)
  case (Suc n)
  show ?case
  proof (cases "wq_queue (ns_queue s)")
    case Nil
    then show ?thesis by (simp add: processNextWorkItem_idle)
  next
    case (Cons key rest)
    with Suc.prems obtain s' where s': "processNextWorkItem env s = (Some True, s')" "wq_inv (ns_queue s')"
      "wq_processing (ns_queue s') = {}"
      "ns_trace s' = ns_trace (snd (syncHandler env key (s\<lparr>ns_queue := snd (wq_Get (ns_queue s))\<rparr>)))"
      by (rule processNextWorkItem_item)
    then obtain es where "ns_trace s' = ns_trace s @ es"
      using syncHandler_grows(1)[of env key "s\<lparr>ns_queue := snd (wq_Get (ns_queue s))\<rparr>"] by auto
    moreover obtain es2 where "ns_trace (snd (NC_runWorker env n s')) = ns_trace s' @ es2"
      using Suc.IH[OF s'(2,3)] by blast
    ultimately show ?thesis using s'(1) by simp
  qed
qed simp

lemma NC_runWorker_deletes:
  assumes "index_ok node_Name nodes" "\<And>tr. ne_nodes env tr = indexer_lister nodes" "orphaned env nodes k pvc"
    and "wq_inv (ns_queue s)" "wq_processing (ns_queue s) = {}" "k \<in> set (wq_queue (ns_queue s))"
    and "length (wq_queue (ns_queue s)) \<le> n"
  shows "\<exists>es. ns_trace (snd (NC_runWorker env n s)) = ns_trace s @ es \<and> pvc_request pvc \<in> set (requests es)"
  using assms(4-)
proof (induction n arbitrary: s)
  case (Suc n)
  from Suc.prems(3) obtain key rest where q: "wq_queue (ns_queue s) = key # rest"
    by (cases "wq_queue (ns_queue s)") auto
  from Suc.prems(1,2) q obtain s' where s': "processNextWorkItem env s = (Some True, s')" "wq_inv (ns_queue s')"
    "wq_processing (ns_queue s') = {}" "wq_queue (ns_queue s') = rest"
    "ns_trace s' = ns_trace (snd (syncHandler env key (s\<lparr>ns_queue := snd (wq_Get (ns_queue s))\<rparr>)))"
    by (rule processNextWorkItem_item)
  show ?case
  proof (cases "key = k")
    case True
    with s'(5) syncHandler_orphaned[OF assms(1-3), of "s\<lparr>ns_queue := snd (wq_Get (ns_queue s))\<rparr>"]
    obtain es where "ns_trace s' = ns_trace s @ es" "pvc_request pvc \<in> set (requests es)" by auto
    with s'(1) NC_runWorker_grows[OF s'(2,3), of env n] show ?thesis by auto
  next
    case False
    from s'(5) syncHandler_grows(1)[of env key "s\<lparr>ns_queue := snd (wq_Get (ns_queue s))\<rparr>"]
    obtain es where es: "ns_trace s' = ns_trace s @ es" by auto
    have "k \<in> set (wq_queue (ns_queue s'))" "length (wq_queue (ns_queue s')) \<le> n"
      using False Suc.prems(3,4) q s'(4) by simp_all
    from Suc.IH[OF s'(2,3) this] es s'(1) show ?thesis by auto
  qed
qed simp

section \<open>Properties\<close>

text \<open>C13. A scan of the node-cleanup deleter deletes exactly the stale volumes: while the informers'
  indexes stand still, the requests it sends are one deletion for each local volume of a managed
  class whose required affinity names no node that exists and which is available, or released with
  reclaim policy Delete, in the order of the listing, whatever the API server answers on the way.\<close>

theorem stale_volumes_deleted:
  assumes "index_ok node_Name nodes" and "\<And>tr. ne_nodes env tr = indexer_lister nodes"
    and "ne_pvs env (ns_trace s) = indexer_lister pvs"
  shows "\<exists>es. ns_trace (NC_DeletePVs env d s) = ns_trace s @ es
    \<and> requests es = map (\<lambda>pv. ReqDeletePV (pv_Name pv)) (filter (stale nodes (nd_storageClassNames d)) (map snd pvs))"
  using delete_stale_all_requests[OF assms(1,2)]
  by (simp add: NC_DeletePVs_def assms(3) indexer_lister_def indexer_List_def)

definition ex_affine :: "string \<Rightarrow> string \<Rightarrow> persistent_volume" where
  "ex_affine n host = (ex_pv n)\<lparr>pv_Spec := ex_spec\<lparr>pvs_NodeAffinity := Some (Some [\<lparr>nst_MatchExpressions = [host_req [host]]\<rparr>]),
     pvs_ClaimRef := Some \<lparr>ref_Namespace = ''default'', ref_Name = ''data'', ref_UID = ''u7''\<rparr>\<rparr>\<rparr>"

definition ex_claim :: pvc where
  "ex_claim = \<lparr>pvc_Meta = empty_meta\<lparr>om_Namespace := ''default'', om_Name := ''data'', om_UID := ''u7''\<rparr>,
     pvc_VolumeName = ''p''\<rparr>"

definition ex_nc_env :: nc_env where
  "ex_nc_env = \<lparr>ne_api = (\<lambda>_ _. None), ne_now = (\<lambda>tr. int (length tr)),
     ne_pvs = (\<lambda>_. indexer_lister [(''p'', ex_affine ''p'' ''n2''), (''q'', ex_affine ''q'' ''n1'')]),
     ne_nodes = (\<lambda>_. indexer_lister [(''n1'', ex_node ''n1'')]), ne_pvcs = (\<lambda>_ _ _. Inr ex_claim), ne_bucket = (\<lambda>_. 0)\<rparr>"

definition ex_nc_state :: nc_state where
  "ex_nc_state = \<lparr>ns_queue = wq_New, ns_trace = []\<rparr>"

lemma ex_nodes_ok: "index_ok node_Name [(''n1'', ex_node ''n1'')]"
  by (simp add: index_ok_def ex_node_def)

lemma ex_gone:
  "node_gone [(''n1'', ex_node ''n1'')] (ex_affine n host) \<longleftrightarrow> IsValidLabelValue host \<and> host \<noteq> ''n1''"
  by (auto simp: node_gone_def ex_affine_def term_names_def hostname_req_def host_req_def ex_node_def)

lemma ex_label: "IsValidLabelValue ''n2''"
  by (simp add: IsValidLabelValue_def alnum_def)

theorem stale_volumes_deleted_witness:
  "\<exists>es. ns_trace (NC_DeletePVs ex_nc_env (NC_NewDeleter [''fast'']) ex_nc_state) = es \<and> requests es = [ReqDeletePV ''p'']"
proof -
  have "\<exists>es. ns_trace (NC_DeletePVs ex_nc_env (NC_NewDeleter [''fast'']) ex_nc_state) = ns_trace ex_nc_state @ es
    \<and> requests es = map (\<lambda>pv. ReqDeletePV (pv_Name pv))
        (filter (stale [(''n1'', ex_node ''n1'')] (nd_storageClassNames (NC_NewDeleter [''fast''])))
          (map snd [(''p'', ex_affine ''p'' ''n2''), (''q'', ex_affine ''q'' ''n1'')]))"
    by (rule stale_volumes_deleted[OF ex_nodes_ok]) (simp_all add: ex_nc_env_def)
  moreover have "stale [(''n1'', ex_node ''n1'')] [''fast''] (ex_affine ''p'' ''n2'')"
    "\<not> stale [(''n1'', ex_node ''n1'')] [''fast''] (ex_affine ''q'' ''n1'')"
    by (simp_all add: stale_def ex_gone ex_label) (simp add: ex_affine_def ex_spec_def ex_pv_def)
  moreover have "pv_Name (ex_affine ''p'' ''n2'') = ''p''" by (simp add: ex_affine_def ex_pv_def)
  ultimately show ?thesis by (simp add: NC_NewDeleter_def ex_nc_state_def)
qed

text \<open>C6. A claim is deleted only while it is orphaned, and never a namesake: handling a queued volume
  sends exactly one deletion, under the claim's UID, if the volume still exists, its nodes are all
  gone and the claim it refers to is bound back to it with the same UID; otherwise it has no effect
  at all. The key is retried exactly if that deletion failed with anything but NotFound.\<close>

theorem claim_deleted_iff_orphaned:
  assumes "index_ok node_Name nodes" and "ne_nodes env (ns_trace s) = indexer_lister nodes"
    and "l_Get (ne_pvs env (ns_trace s)) pvName = Inr pv"
  shows "(\<forall>pvc. node_gone nodes pv \<and> bound_claim env (ns_trace s) pv pvc \<longrightarrow>
        (\<exists>err s'. syncHandler env pvName s = (err, s')
          \<and> (\<exists>es. ns_trace s' = ns_trace s @ Call (pvc_request pvc) (ne_api env (ns_trace s) (pvc_request pvc)) # es
                \<and> requests es = [])
          \<and> (err = None \<longleftrightarrow> deleted (ne_api env (ns_trace s) (pvc_request pvc)))))
    \<and> ((\<nexists>pvc. node_gone nodes pv \<and> bound_claim env (ns_trace s) pv pvc) \<longrightarrow> snd (syncHandler env pvName s) = s)"
proof -
  have "snd (syncHandler env pvName s) = s" if "\<nexists>pvc. node_gone nodes pv \<and> bound_claim env (ns_trace s) pv pvc"
    using that assms(3) by (intro syncHandler_no_orphan[OF assms(1,2)]) auto
  moreover note syncHandler_orphan[OF assms]
  ultimately show ?thesis by blast
qed

lemma ex_bound: "bound_claim ex_nc_env tr (ex_affine ''p'' host) ex_claim"
  by (simp add: bound_claim_def ex_affine_def ex_nc_env_def ex_claim_def ex_pv_def)

theorem claim_deleted_iff_orphaned_witness:
  "\<exists>err s'. syncHandler ex_nc_env ''p'' ex_nc_state = (err, s') \<and> err = None
     \<and> (\<exists>es. ns_trace s' = Call (ReqDeletePVC ''default'' ''data'' ''u7'') None # es \<and> requests es = [])"
proof -
  have "l_Get (ne_pvs ex_nc_env (ns_trace ex_nc_state)) ''p'' = Inr (ex_affine ''p'' ''n2'')"
    "ne_nodes ex_nc_env (ns_trace ex_nc_state) = indexer_lister [(''n1'', ex_node ''n1'')]"
    by (simp_all add: ex_nc_env_def indexer_lister_def indexer_Get_def)
  note claim_deleted_iff_orphaned[OF ex_nodes_ok this(2,1)]
  then have "\<exists>err s'. syncHandler ex_nc_env ''p'' ex_nc_state = (err, s')
      \<and> (\<exists>es. ns_trace s' = ns_trace ex_nc_state @ Call (pvc_request ex_claim)
            (ne_api ex_nc_env (ns_trace ex_nc_state) (pvc_request ex_claim)) # es \<and> requests es = [])
      \<and> (err = None \<longleftrightarrow> deleted (ne_api ex_nc_env (ns_trace ex_nc_state) (pvc_request ex_claim)))"
    using ex_gone[of "''p''" "''n2''"] ex_label ex_bound[of "ns_trace ex_nc_state" "''n2''"] by auto
  then show ?thesis by (auto simp: ex_nc_state_def ex_nc_env_def pvc_request_def ex_claim_def)
qed

text \<open>C15. Deleting a node starts the right timers. The volumes concerned are those of managed classes that
  have a claim and whose nodes are all gone. Where a deletion delay is configured, nothing becomes
  ready at once; every such volume then waits in the queue until the delay has passed, counted from a
  moment of the call, or until the earlier time it was waiting for already, so that no running timer
  is put off; all other timers are as they were. Without a delay the volumes are ready at once. The
  queue holds nothing else that it did not hold before, and nothing is sent to the API server.\<close>

theorem node_deletion_starts_timers:
  assumes "index_ok node_Name nodes" and "\<And>tr. ne_nodes env tr = indexer_lister nodes"
    and "l_List (ne_pvs env (ns_trace s)) (\<lambda>_. True) = Inr pvs" and "\<not> wq_shuttingDown (ns_queue s)"
  shows "let q = ns_queue s; s' = nodeDeleted env c s; q' = ns_queue s'; delay = cc_pvcDeletionDelay c;
             gone = pv_Name ` {pv \<in> set pvs. timed nodes (cc_storageClassNames c) pv} in
      wq_pending q' = wq_pending q \<union> gone
    \<and> (if 0 < delay then wq_queue q' = wq_queue q \<and> wq_dirty q' = wq_dirty q
         \<and> (\<forall>k. if k \<in> gone
              then \<exists>tr. prefix (ns_trace s) tr \<and> prefix tr (ns_trace s')
                \<and> gm_get (wq_waiting q') k = Some (timer_due (gm_get (wq_waiting q) k) (ne_now env tr + delay))
              else gm_get (wq_waiting q') k = gm_get (wq_waiting q) k)
       else wq_waiting q' = wq_waiting q \<and> wq_dirty q' = wq_dirty q \<union> gone)
    \<and> wq_processing q' = wq_processing q \<and> (wq_inv q \<longrightarrow> wq_inv q')
    \<and> (\<forall>k t. gm_get (wq_waiting q) k = Some t \<longrightarrow> (\<exists>t'\<le>t. gm_get (wq_waiting q') k = Some t'))
    \<and> (\<exists>es. ns_trace s' = ns_trace s @ es \<and> requests es = [])"
proof -
  have n: "nodeDeleted env c s = start_timers env c pvs s" by (simp add: nodeDeleted_def startCleanupTimersIfNeeded_def assms(3))
  note due = start_timers_due[OF assms(1,2) _ assms(4), of c pvs, unfolded Let_def]
    and now = start_timers_now[OF assms(1,2) _ assms(4), of c pvs, unfolded Let_def]
    and spec = start_timers_spec[OF assms(1,2,4), of c pvs, unfolded Let_def]
  show ?thesis
  proof (cases "0 < cc_pvcDeletionDelay c")
    case True
    show ?thesis unfolding Let_def n if_P[OF True] using due[OF True] spec by (intro conjI) (elim conjE; assumption)+
  next
    case False
    then have "cc_pvcDeletionDelay c \<le> 0" by simp
    from now[OF this] spec show ?thesis unfolding Let_def n if_not_P[OF False] by (intro conjI) (elim conjE; assumption)+
  qed
qed

theorem node_deletion_starts_timers_witness:
  "let s' = nodeDeleted ex_nc_env (fst (NewCleanupController [''fast''] 60000000000 10000000000)) ex_nc_state in
    wq_queue (ns_queue s') = [] \<and> (\<exists>tr. prefix tr (ns_trace s') \<and> gm_get (wq_waiting (ns_queue s')) ''p'' = Some (ne_now ex_nc_env tr + 60000000000))
    \<and> gm_get (wq_waiting (ns_queue s')) ''q'' = None"
proof -
  let ?c = "fst (NewCleanupController [''fast''] 60000000000 10000000000)"
  let ?pvs = "[ex_affine ''p'' ''n2'', ex_affine ''q'' ''n1'']"
  have "timed [(''n1'', ex_node ''n1'')] [''fast''] (ex_affine ''p'' ''n2'')"
    "\<not> timed [(''n1'', ex_node ''n1'')] [''fast''] (ex_affine ''q'' ''n1'')"
    by (simp_all add: timed_def ex_gone ex_label) (simp add: ex_affine_def ex_spec_def)
  then have "{pv \<in> set ?pvs. timed [(''n1'', ex_node ''n1'')] [''fast''] pv} = {ex_affine ''p'' ''n2''}" by auto
  moreover have "cc_storageClassNames ?c = [''fast'']" "cc_pvcDeletionDelay ?c = 60000000000" by (simp_all add: NewCleanupController_def)
  ultimately have g: "pv_Name ` {pv \<in> set ?pvs. timed [(''n1'', ex_node ''n1'')] (cc_storageClassNames ?c) pv} = {''p''}"
    "cc_pvcDeletionDelay ?c = 60000000000" by (simp_all add: ex_affine_def[of "''p''"] ex_pv_def)
  have l: "l_List (ne_pvs ex_nc_env (ns_trace ex_nc_state)) (\<lambda>_. True) = Inr ?pvs"
    by (simp add: ex_nc_env_def indexer_lister_def indexer_List_def)
  have e: "ns_queue ex_nc_state = wq_New" "gm_get (wq_waiting wq_New) k = None" "wq_queue wq_New = []" "\<not> wq_shuttingDown wq_New"
    "ne_nodes ex_nc_env tr = indexer_lister [(''n1'', ex_node ''n1'')]" for k tr
    by (simp_all add: ex_nc_state_def wq_New_def ex_nc_env_def)
  have "\<not> wq_shuttingDown (ns_queue ex_nc_state)" using e by simp
  note f = conjunct1[OF conjunct2[OF node_deletion_starts_timers[OF ex_nodes_ok e(5) l this, of ?c, unfolded Let_def g e(1)]]]
  have "(0 :: int) < 60000000000" by simp
  note w = f[unfolded if_P[OF this] e(2,3)]
  from conjunct1[OF w] spec[OF conjunct2[OF conjunct2[OF w]], of "''p''"] spec[OF conjunct2[OF conjunct2[OF w]], of "''q''"]
  show ?thesis by (simp add: Let_def timer_due_def) blast
qed

text \<open>C14. An orphaned claim is deleted in the end: once the timer of its volume has run out, a worker
  that takes as many turns as there are queued keys requests the deletion of the claim, provided
  the claim stays orphaned, whatever happens to the other keys.\<close>

theorem orphaned_claim_eventually_deleted:
  assumes "index_ok node_Name nodes" and "\<And>tr. ne_nodes env tr = indexer_lister nodes"
    and "orphaned env nodes k pvc" and "wq_inv (ns_queue s)" and "wq_processing (ns_queue s) = {}"
    and "\<not> wq_shuttingDown (ns_queue s)" and "gm_get (wq_waiting (ns_queue s)) k = Some t" and "t \<le> now"
    and "length (wq_queue (wq_tick now (ns_queue s))) \<le> n"
  shows "\<exists>es. ns_trace (snd (NC_runWorker env n (s\<lparr>ns_queue := wq_tick now (ns_queue s)\<rparr>))) = ns_trace s @ es
    \<and> pvc_request pvc \<in> set (requests es)"
proof -
  have "k \<in> set (wq_queue (wq_tick now (ns_queue s)))"
    using assms(4-8) by (intro wq_tick_due) auto
  with NC_runWorker_deletes[OF assms(1-3), of "s\<lparr>ns_queue := wq_tick now (ns_queue s)\<rparr>" n] assms(4,5,9)
  show ?thesis by simp
qed

theorem orphaned_claim_eventually_deleted_witness:
  "ReqDeletePVC ''default'' ''data'' ''u7'' \<in> set (requests (ns_trace (snd (NC_runWorker ex_nc_env 1
      (ex_nc_state\<lparr>ns_queue := wq_tick 70 (wq_AddAfter 0 ''p'' 60 wq_New)\<rparr>)))))"
proof -
  let ?q = "wq_AddAfter 0 ''p'' 60 wq_New"
  have o: "orphaned ex_nc_env [(''n1'', ex_node ''n1'')] ''p'' ex_claim"
    using ex_bound ex_gone[of "''p''" "''n2''"] ex_label
    by (auto simp: orphaned_def ex_nc_env_def indexer_lister_def indexer_Get_def)
  have "length (wq_queue (wq_tick 70 ?q)) \<le> 1"
    by (simp add: wq_tick_def wq_AddAfter_def wq_New_def wq_insert_def wq_Add_def Let_def)
  with orphaned_claim_eventually_deleted[OF ex_nodes_ok _ o, of "ex_nc_state\<lparr>ns_queue := ?q\<rparr>" 60 70 1]
  show ?thesis
    by (simp add: pvc_request_def ex_claim_def ex_nc_state_def)
      (simp add: ex_nc_env_def wq_AddAfter_def wq_insert_def wq_New_def wq_inv_def)
qed

text \<open>A volume whose affinity names no host at all counts as left behind by its node: the function
  that collects the names returns an empty list where its comment promises nil, and the callers
  test for nil only. Such a volume is deleted while all nodes are up.\<close>

lemma stale_without_hostname:
  assumes "pvs_NodeAffinity (pv_Spec pv) = Some (Some terms)"
    and "\<forall>t\<in>set terms. \<forall>m\<in>set (nst_MatchExpressions t). \<not> hostname_req m"
  shows "node_gone nodes pv"
  using assms by (auto simp: node_gone_def term_names_def)

end
