(* ===== verification/Metric_Labels.thy ===== *)
theory Metric_Labels
  imports Controller Node_Cleanup
begin

text \<open>
  The metrics declared in \<open>pkg/metrics/metrics.go\<close>, \<open>pkg/metrics/node-cleanup/metrics.go\<close> and
  \<open>pkg/metrics/collectors\<close>, and that the program uses them as they are declared: Prometheus panics
  when a metric is updated with the wrong number of label values or registered twice.
\<close>

declare map_of_eq_Some_iff [simp del] Some_eq_map_of_iff [simp del]

section \<open>Declarations\<close>

datatype metric_kind = GaugeKind | CounterKind | HistogramKind

record metric_desc =
  md_Kind :: metric_kind
  md_Subsystem :: string
  md_Name :: string
  md_Labels :: "string list"

abbreviation LocalVolumeProvisionerSubsystem :: string where
  "LocalVolumeProvisionerSubsystem \<equiv> ''local_volume_provisioner''"
abbreviation LocalVolumeNodeCleanupSubsystem :: string where
  "LocalVolumeNodeCleanupSubsystem \<equiv> ''local_volume_node_cleanup''"

text \<open>\<open>prometheus.BuildFQName\<close> with an empty namespace.\<close>

definition BuildFQName :: "string \<Rightarrow> string \<Rightarrow> string" where
  "BuildFQName subsystem name =
     (if name = [] then [] else if subsystem = [] then name else subsystem @ ''_'' @ name)"

definition fq_name :: "metric_desc \<Rightarrow> string" where
  "fq_name m = BuildFQName (md_Subsystem m) (md_Name m)"

subsection \<open>The provisioner\<close>

definition desc_CapacityBytes :: metric_desc where
  "desc_CapacityBytes = \<lparr>md_Kind = GaugeKind, md_Subsystem = LocalVolumeProvisionerSubsystem,
     md_Name = PersistentVolumeCapacityBytes, md_Labels = [''mode'']\<rparr>"
definition desc_DiscoveryTotal :: metric_desc where
  "desc_DiscoveryTotal = \<lparr>md_Kind = CounterKind, md_Subsystem = LocalVolumeProvisionerSubsystem,
     md_Name = PersistentVolumeDiscoveryTotal, md_Labels = [''mode'']\<rparr>"
definition desc_DiscoveryDurationSeconds :: metric_desc where
  "desc_DiscoveryDurationSeconds = \<lparr>md_Kind = HistogramKind, md_Subsystem = LocalVolumeProvisionerSubsystem,
     md_Name = PersistentVolumeDiscoveryDurationSeconds, md_Labels = [''mode'']\<rparr>"
definition desc_DeleteTotal :: metric_desc where
  "desc_DeleteTotal = \<lparr>md_Kind = CounterKind, md_Subsystem = LocalVolumeProvisionerSubsystem,
     md_Name = PersistentVolumeDeleteTotal, md_Labels = [''mode'', ''type'']\<rparr>"
definition desc_DeleteFailedTotal :: metric_desc where
  "desc_DeleteFailedTotal = \<lparr>md_Kind = CounterKind, md_Subsystem = LocalVolumeProvisionerSubsystem,
     md_Name = PersistentVolumeDeleteFailedTotal, md_Labels = [''mode'', ''type'']\<rparr>"
definition desc_DeleteDurationSeconds :: metric_desc where
  "desc_DeleteDurationSeconds = \<lparr>md_Kind = HistogramKind, md_Subsystem = LocalVolumeProvisionerSubsystem,
     md_Name = PersistentVolumeDeleteDurationSeconds, md_Labels = [''mode'', ''type'', ''capacity'', ''cleanup_command'']\<rparr>"
definition desc_APIServerRequestsTotal :: metric_desc where
  "desc_APIServerRequestsTotal = \<lparr>md_Kind = CounterKind, md_Subsystem = LocalVolumeProvisionerSubsystem,
     md_Name = APIServerRequestsTotal, md_Labels = [''method'']\<rparr>"
definition desc_APIServerRequestsFailedTotal :: metric_desc where
  "desc_APIServerRequestsFailedTotal = \<lparr>md_Kind = CounterKind, md_Subsystem = LocalVolumeProvisionerSubsystem,
     md_Name = APIServerRequestsFailedTotal, md_Labels = [''method'']\<rparr>"
definition desc_APIServerRequestsDurationSeconds :: metric_desc where
  "desc_APIServerRequestsDurationSeconds = \<lparr>md_Kind = HistogramKind, md_Subsystem = LocalVolumeProvisionerSubsystem,
     md_Name = APIServerRequestsDurationSeconds, md_Labels = [''method'']\<rparr>"

definition procTableRunning :: metric_desc where
  "procTableRunning = \<lparr>md_Kind = GaugeKind, md_Subsystem = LocalVolumeProvisionerSubsystem,
     md_Name = ''proctable_running'', md_Labels = []\<rparr>"
definition procTableSucceeded :: metric_desc where
  "procTableSucceeded = \<lparr>md_Kind = GaugeKind, md_Subsystem = LocalVolumeProvisionerSubsystem,
     md_Name = ''proctable_succeeded'', md_Labels = []\<rparr>"
definition procTableFailed :: metric_desc where
  "procTableFailed = \<lparr>md_Kind = GaugeKind, md_Subsystem = LocalVolumeProvisionerSubsystem,
     md_Name = ''proctable_failed'', md_Labels = []\<rparr>"

text \<open>What \<open>main\<close> of the provisioner registers, in its order; the collector of the process table
  stands for its three gauges.\<close>

definition provisioner_metrics :: "metric_desc list" where
  "provisioner_metrics =
     [desc_CapacityBytes, desc_DiscoveryTotal, desc_DiscoveryDurationSeconds, desc_DeleteTotal,
      desc_DeleteDurationSeconds, desc_DeleteFailedTotal, desc_APIServerRequestsTotal,
      desc_APIServerRequestsFailedTotal, desc_APIServerRequestsDurationSeconds,
      procTableRunning, procTableSucceeded, procTableFailed]"

subsection \<open>The node-cleanup program\<close>

definition desc_NC_DeleteTotal :: metric_desc where
  "desc_NC_DeleteTotal = \<lparr>md_Kind = CounterKind, md_Subsystem = LocalVolumeNodeCleanupSubsystem,
     md_Name = NC_PersistentVolumeDeleteTotal, md_Labels = [''phase'']\<rparr>"
definition desc_NC_DeleteFailedTotal :: metric_desc where
  "desc_NC_DeleteFailedTotal = \<lparr>md_Kind = CounterKind, md_Subsystem = LocalVolumeNodeCleanupSubsystem,
     md_Name = NC_PersistentVolumeDeleteFailedTotal, md_Labels = [''phase'']\<rparr>"
definition desc_NC_ClaimDeleteTotal :: metric_desc where
  "desc_NC_ClaimDeleteTotal = \<lparr>md_Kind = CounterKind, md_Subsystem = LocalVolumeNodeCleanupSubsystem,
     md_Name = PersistentVolumeClaimDeleteTotal, md_Labels = []\<rparr>"
definition desc_NC_ClaimDeleteFailedTotal :: metric_desc where
  "desc_NC_ClaimDeleteFailedTotal = \<lparr>md_Kind = CounterKind, md_Subsystem = LocalVolumeNodeCleanupSubsystem,
     md_Name = PersistentVolumeClaimDeleteFailedTotal, md_Labels = []\<rparr>"

definition node_cleanup_metrics :: "metric_desc list" where
  "node_cleanup_metrics = [desc_NC_DeleteTotal, desc_NC_DeleteFailedTotal, desc_NC_ClaimDeleteTotal, desc_NC_ClaimDeleteFailedTotal]"

lemmas provisioner_descs = provisioner_metrics_def desc_CapacityBytes_def desc_DiscoveryTotal_def
  desc_DiscoveryDurationSeconds_def desc_DeleteTotal_def desc_DeleteFailedTotal_def desc_DeleteDurationSeconds_def
  desc_APIServerRequestsTotal_def desc_APIServerRequestsFailedTotal_def desc_APIServerRequestsDurationSeconds_def
  procTableRunning_def procTableSucceeded_def procTableFailed_def

lemmas node_cleanup_descs = node_cleanup_metrics_def desc_NC_DeleteTotal_def desc_NC_DeleteFailedTotal_def
  desc_NC_ClaimDeleteTotal_def desc_NC_ClaimDeleteFailedTotal_def

section \<open>Registration\<close>

text \<open>\<open>prometheus.MustRegister\<close> panics on a descriptor that is already registered.\<close>

fun MustRegister :: "metric_desc list \<Rightarrow> string list \<Rightarrow> string list option" where
  "MustRegister [] names = Some names"
| "MustRegister (m # ms) names = (if fq_name m \<in> set names then None else MustRegister ms (names @ [fq_name m]))"

lemma provisioner_metrics_register: "MustRegister provisioner_metrics [] \<noteq> None"
  by code_simp

lemma node_cleanup_metrics_register: "MustRegister node_cleanup_metrics [] \<noteq> None"
  by code_simp

text \<open>The collector sends what it describes, and those are registered gauges without labels.\<close>

lemma collector_described:
  "map (\<lambda>g. case g of Gauge n v \<Rightarrow> n) (Collect t) = Describe
   \<and> Describe = map md_Name (filter (\<lambda>m. md_Labels m = []) provisioner_metrics)"
  by (simp add: Collect_def Describe_def provisioner_descs Let_def)

section \<open>Label values\<close>

text \<open>An update fits the declarations if the metric is declared, with the kind the update needs and as
  many labels as the update has values.\<close>

definition declared :: "metric_desc list \<Rightarrow> metric_kind \<Rightarrow> string \<Rightarrow> nat \<Rightarrow> bool" where
  "declared ms k name n \<longleftrightarrow> (\<exists>m \<in> set ms. md_Name m = name \<and> md_Kind m = k \<and> length (md_Labels m) = n)"

fun well_labelled :: "metric_desc list \<Rightarrow> effect \<Rightarrow> bool" where
  "well_labelled ms (Inc name vs) = declared ms CounterKind name (length vs)"
| "well_labelled ms (Observe name vs t) = declared ms HistogramKind name (length vs)"
| "well_labelled ms (SetGauge name vs v) = declared ms GaugeKind name (length vs)"
| "well_labelled ms _ = True"

lemma provisioner_declared [simp]:
  "declared provisioner_metrics CounterKind APIServerRequestsTotal (Suc 0)"
  "declared provisioner_metrics CounterKind APIServerRequestsFailedTotal (Suc 0)"
  "declared provisioner_metrics HistogramKind APIServerRequestsDurationSeconds (Suc 0)"
  "declared provisioner_metrics CounterKind PersistentVolumeDeleteTotal (Suc (Suc 0))"
  "declared provisioner_metrics CounterKind PersistentVolumeDeleteFailedTotal (Suc (Suc 0))"
  "declared provisioner_metrics HistogramKind PersistentVolumeDeleteDurationSeconds (Suc (Suc (Suc (Suc 0))))"
  "declared provisioner_metrics CounterKind PersistentVolumeDiscoveryTotal (Suc 0)"
  "declared provisioner_metrics HistogramKind PersistentVolumeDiscoveryDurationSeconds (Suc 0)"
  "declared provisioner_metrics GaugeKind PersistentVolumeCapacityBytes (Suc 0)"
  by (simp_all add: declared_def provisioner_descs)

lemma node_cleanup_declared [simp]:
  "declared node_cleanup_metrics CounterKind NC_PersistentVolumeDeleteTotal (Suc 0)"
  "declared node_cleanup_metrics CounterKind NC_PersistentVolumeDeleteFailedTotal (Suc 0)"
  "declared node_cleanup_metrics CounterKind PersistentVolumeClaimDeleteTotal 0"
  "declared node_cleanup_metrics CounterKind PersistentVolumeClaimDeleteFailedTotal 0"
  by (simp_all add: declared_def node_cleanup_descs)

abbreviation prov_labelled :: "effect \<Rightarrow> bool" where
  "prov_labelled \<equiv> well_labelled provisioner_metrics"

subsection \<open>Reclaiming\<close>

lemma RemoveStatus_labelled:
  assumes "RemoveStatus env c p j w = Some ((st, t, e), w')"
  shows "ext prov_labelled w w'"
proof (cases j)
  case True
  with assms obtain ns where "RemoveJob env ns p w = ((st, t, e), w')" by (auto elim: RemoveStatus_job)
  from RemoveJob_effects(3)[OF this] show ?thesis by (rule ext_mono) auto
next
  case False
  with assms RemoveStatus_process(3)[of env c p w st t e w'] show ?thesis by (simp add: ext_def)
qed

lemma DeletePV_api_labelled: "DeletePV_api env n w = (err, w') \<Longrightarrow> ext prov_labelled w w'"
  by (auto simp: DeletePV_api_def call_def Let_def split: if_splits)

lemma CreatePV_labelled: "CreatePV env pv w = (err, w') \<Longrightarrow> ext prov_labelled w w'"
  by (auto simp: CreatePV_def call_def Let_def split: if_splits)

lemma delete_cleaned_labelled:
  assumes "delete_cleaned env pv mode j config t w = (r, w')"
  shows "ext prov_labelled w w'"
proof -
  obtain x w1 where d: "DeletePV_api env (pv_Name pv) w = (x, w1)" by fastforce
  from assms d DeletePV_api_labelled[OF d] show ?thesis
    by (auto simp: delete_cleaned_def Let_def split: option.splits if_splits)
qed

lemma start_cleanup_labelled:
  "start_cleanup env d pv mode j path config w = (r, w') \<Longrightarrow> ext prov_labelled w w'"
  by (auto simp: start_cleanup_def runJob_def runProcess_def CreateJob_def call_def Let_def
      split: if_splits sum.splits option.splits prod.splits)

lemma deletePV_labelled:
  assumes "deletePV env d pv w = Some (r, w')"
  shows "ext prov_labelled w w'"
  using assms
proof (cases rule: deletePV_cases)
  case (cleaned config path mode t w1)
  from ext_trans[OF RemoveStatus_labelled[OF cleaned(3)] delete_cleaned_labelled[OF cleaned(4)]] show ?thesis .
next
  case (start config path mode st t w1)
  from ext_trans[OF RemoveStatus_labelled[OF start(3)] start_cleanup_labelled[OF start(5)]] show ?thesis .
next
  case (no_status config path mode st t e)
  from RemoveStatus_labelled[OF no_status(2)] show ?thesis .
next
  case (odd config path mode st t e)
  from RemoveStatus_labelled[OF odd(2)] show ?thesis .
qed auto

lemma reclaim_labelled: "reclaim env d pv w = Some w' \<Longrightarrow> ext prov_labelled w w'"
  using deletePV_labelled by (auto simp: reclaim_def Let_def split: if_splits option.splits)

lemma DeletePVs_labelled: "DeletePVs env d w = Some w' \<Longrightarrow> ext prov_labelled w w'"
proof -
  have "reclaim_all env d pvs w = Some w' \<Longrightarrow> ext prov_labelled w w'" for pvs
    by (induction pvs arbitrary: w) (auto split: option.splits dest: reclaim_labelled intro: ext_trans)
  then show "DeletePVs env d w = Some w' \<Longrightarrow> ext prov_labelled w w'" by (simp add: DeletePVs_def)
qed

subsection \<open>Discovering\<close>

lemma createPV_labelled:
  "createPV env d f cl policy opts config cap vm am t0 w = Some (r, w') \<Longrightarrow> ext prov_labelled w w'"
  by (auto simp: createPV_def Let_def dest!: CreatePV_labelled split: sum.splits option.splits prod.splits)

lemma provision_new_labelled:
  assumes "provision_new env d cl config policy mps t0 f vm st = Some st'"
  shows "ext prov_labelled (dst_World st) (dst_World st')"
proof -
  obtain r st1 where p: "probe_volume env d config mps vm (FJoin [mc_MountDir config, f]) (FJoin [mc_HostDir config, f]) st = (r, st1)"
    by fastforce
  have "dst_World st1 = dst_World st"
    using probe_volume_world[of env d config mps vm "FJoin [mc_MountDir config, f]" "FJoin [mc_HostDir config, f]" st] by (simp add: p)
  with assms p show ?thesis
    by (auto simp: provision_new_def Let_def split: sum.splits option.splits) (rule createPV_labelled, assumption)+
qed

lemma discover_file_labelled:
  assumes "discover_file env d cl config policy mps f st = Some st'"
  shows "ext prov_labelled (dst_World st) (dst_World st')"
proof -
  have "ext prov_labelled (dst_World st) (dst_World st')"
    if "RemoveStatus env c n j (dst_World st) = Some ((s, t, None), w1)"
      "provision_new env d cl config policy mps t0 f vm (st\<lparr>dst_World := w1\<rparr>) = Some st'" for c n j s t w1 t0 vm
    using ext_trans[OF RemoveStatus_labelled[OF that(1)]] provision_new_labelled[OF that(2)] by simp
  then show ?thesis
    using assms RemoveStatus_labelled
    by (auto simp: discover_file_def Let_def add_error_def split: sum.splits option.splits if_splits bool.splits)
qed

lemma discover_files_labelled:
  "discover_files env d cl config policy mps fs st = Some (r, st') \<Longrightarrow> ext prov_labelled (dst_World st) (dst_World st')"
proof (induction fs arbitrary: st)
  case (Cons f fs)
  then show ?case
    by (auto split: sum.splits bool.splits option.splits dest: discover_file_labelled intro: ext_trans)
qed simp

lemma discoverVolumesAtPath_labelled:
  assumes "discoverVolumesAtPath env d cl config w = Some (r, w')"
  shows "ext prov_labelled w w'"
proof -
  have "w' = w \<or> (\<exists>policy mps fs e st. discover_files env d cl config policy mps fs
          \<lparr>dst_Errors = [], dst_BlockBytes = 0, dst_FSBytes = 0, dst_World = w\<rparr> = Some (e, st)
      \<and> (w' = dst_World st \<or> (\<exists>a b. w' = emit (SetGauge PersistentVolumeCapacityBytes [PersistentVolumeFilesystem] b)
           (emit (SetGauge PersistentVolumeCapacityBytes [PersistentVolumeBlock] a) (dst_World st)))))"
    using assms unfolding discoverVolumesAtPath_def
    by (fastforce simp: Let_def split: sum.splits if_splits option.splits)
  then show ?thesis by (fastforce dest!: discover_files_labelled)
qed

lemma DiscoverLocalVolumes_labelled:
  assumes "DiscoverLocalVolumes env d w = Some (d', w')"
  shows "ext prov_labelled w w'"
proof -
  have "discover_classes env d cs ready w = Some (r, w') \<Longrightarrow> ext prov_labelled w w'" for cs ready r
  proof (induction cs arbitrary: ready w)
    case (Cons c cs)
    then show ?case
      by (cases c) (auto split: option.splits dest: discoverVolumesAtPath_labelled intro: ext_trans)
  qed simp
  with assms show ?thesis by (auto simp: DiscoverLocalVolumes_def split: option.splits)
qed

section \<open>Properties\<close>

text \<open>C39. The program uses its metrics as they are declared: every update in a round of the controller
  loop is of a registered metric, of the kind the update needs and with one value per label, so no
  update panics, and registering them all succeeds.\<close>

theorem metrics_well_labelled:
  assumes "controller_round env rand period c w = (Up c', w')"
  shows "MustRegister provisioner_metrics [] \<noteq> None
    \<and> (\<exists>es. w_trace w' = w_trace w @ es \<and> list_all (well_labelled provisioner_metrics) es)"
proof -
  from assms obtain d w1 w2 where "DeletePVs env (lc_Deleter c) w = Some w1"
    and "DiscoverLocalVolumes env (lc_Discoverer c) w1 = Some (d, w2)" and w': "w' = emit (Sleep period) w2"
    by (auto simp: controller_round_eq split: option.splits)
  from ext_trans[OF DeletePVs_labelled[OF this(1)] DiscoverLocalVolumes_labelled[OF this(2)]]
  have "ext prov_labelled w w'" by (simp add: w')
  then show ?thesis using provisioner_metrics_register by (simp add: ext_def)
qed

theorem metrics_well_labelled_witness:
  "\<exists>c es. controller_round ex_env (\<lambda>_ _. 0) 10 c ex_world
       = (Up (c\<lparr>lc_Discoverer := (lc_Discoverer c)\<lparr>ds_ready := True\<rparr>\<rparr>), emit (Sleep 10) ex_world)
     \<and> w_trace (emit (Sleep 10) ex_world) = w_trace ex_world @ es \<and> list_all (well_labelled provisioner_metrics) es"
proof -
  obtain c mux where s: "start_controller ex_startup ex_taint_user [] ex_world = (Up c, mux, ex_world)"
    using ex_start[of ex_taint_user] by (auto simp: ex_taint_user_def ex_user_def)
  from metrics_well_labelled[OF ex_taint_round[OF s]] ex_taint_round[OF s] show ?thesis by blast
qed

text \<open>The node-cleanup program, for every scan and every queued volume.\<close>

definition ns_ext :: "(effect \<Rightarrow> bool) \<Rightarrow> nc_state \<Rightarrow> nc_state \<Rightarrow> bool" where
  "ns_ext P s s' \<longleftrightarrow> (\<exists>es. ns_trace s' = ns_trace s @ es \<and> list_all P es)"

lemma ns_ext_refl [simp]: "ns_ext P s s"
  by (simp add: ns_ext_def)

lemma ns_ext_trans: "ns_ext P s s' \<Longrightarrow> ns_ext P s' s'' \<Longrightarrow> ns_ext P s s''"
  by (auto simp: ns_ext_def)

lemma ns_ext_emit [simp]: "ns_ext P s s' \<Longrightarrow> P e \<Longrightarrow> ns_ext P s (ns_emit e s')"
  by (auto simp: ns_ext_def ns_emit_def)

lemma delete_stale_labelled: "ns_ext (well_labelled node_cleanup_metrics) s (delete_stale env d pv s)"
  by (auto simp: delete_stale_def NC_deletePV_def ns_call_def Let_def split: option.splits)

lemma NC_DeletePVs_labelled: "ns_ext (well_labelled node_cleanup_metrics) s (NC_DeletePVs env d s)"
proof -
  have "ns_ext (well_labelled node_cleanup_metrics) s (delete_stale_all env d pvs s)" for pvs
    by (induction pvs arbitrary: s) (auto intro: ns_ext_trans delete_stale_labelled)
  then show ?thesis by (auto simp: NC_DeletePVs_def split: sum.splits)
qed

lemma syncHandler_labelled: "ns_ext (well_labelled node_cleanup_metrics) s (snd (syncHandler env k s))"
  by (auto simp: syncHandler_def deletePVC_def ns_call_def Let_def split: sum.splits option.splits prod.splits)

end
