(* ===== verification/Capacity_Label.thy ===== *)
theory Capacity_Label
  imports Metrics
begin

text \<open>
  The capacity label of the deletion latency (\<open>CapacityBreakDown\<close> in \<open>pkg/metrics/metrics.go\<close>): the
  code divides in \<open>float64\<close> and rounds up, and this theory shows that for every volume below 8 PiB
  the rounding errors do not reach the label.
\<close>

section \<open>Rounding to float64\<close>

lemma round_even_error: "\<bar>of_int (round_even x) - x\<bar> \<le> 1 / 2"
proof -
  have 1: "of_int \<lfloor>x\<rfloor> \<le> x" "x < of_int \<lfloor>x\<rfloor> + 1" by linarith+
  show ?thesis
    unfolding round_even_def Let_def
    using 1 by (auto split: if_splits)
qed

lemma round_even_of_int [simp]: "round_even (of_int i) = i"
  by (simp add: round_even_def)

lemma powi_diff_rat: "(2 :: rat) powi (m - n) = 2 powi m / 2 powi n"
  by (simp add: power_int_diff)

lemma powi_le_iff: "(2 :: rat) powi m \<le> 2 powi n \<longleftrightarrow> m \<le> n"
  by (meson linorder_not_less one_less_numeral_iff order_less_le power_int_increasing power_int_strict_increasing semiring_norm(76))

lemma binexp_le:
  assumes "0 < x"
  shows "2 powi binexp x \<le> x"
proof -
  obtain a b where q: "quotient_of x = (a, b)" by fastforce
  then have b: "0 < b" and x: "x = of_int a / of_int b" by (auto dest: quotient_of_denom_pos quotient_of_div)
  with assms have a: "0 < a" by (simp add: zero_less_divide_iff)
  show ?thesis
  proof (cases "(2 :: rat) powi (bitlen a - bitlen b) \<le> x")
    case True
    with q assms show ?thesis by (simp add: binexp_def Let_def)
  next
    case False
    have "of_int (2 ^ nat (bitlen a - 1)) \<le> (of_int a :: rat)" using bitlen_bounds[OF a] by (simp only: of_int_le_iff)
    moreover have "of_int b \<le> (of_int (2 ^ nat (bitlen b)) :: rat)" using bitlen_bounds[OF b] by (simp only: of_int_le_iff order_less_imp_le)
    ultimately have "(2 :: rat) ^ nat (bitlen a - 1) / 2 ^ nat (bitlen b) \<le> x"
      unfolding x using a b by (intro frac_le) simp_all
    moreover have "(2 :: rat) ^ nat (bitlen a - 1) = 2 powi (bitlen a - 1)" "(2 :: rat) ^ nat (bitlen b) = 2 powi bitlen b"
      using a b by (simp_all add: power_int_def bitlen_def floorlog_eq_zero_iff flip: neq0_conv)
    ultimately have "(2 :: rat) powi (bitlen a - bitlen b - 1) \<le> x"
      using powi_diff_rat[of "bitlen a - 1" "bitlen b"] by (simp add: algebra_simps)
    with False q assms show ?thesis by (simp add: binexp_def Let_def)
  qed
qed

lemma binexp_less:
  assumes "0 < x" "x < 2 ^ k"
  shows "binexp x < int k"
proof (rule ccontr)
  assume "\<not> binexp x < int k"
  then have "(2 :: rat) powi int k \<le> 2 powi binexp x" by (simp only: powi_le_iff)
  with binexp_le[OF assms(1)] assms(2) show False by simp
qed

text \<open>The error is at most half a unit in the last place, and a whole number of that size is exact.\<close>

lemma float64_error:
  assumes "0 < x" "x < 2 ^ k"
  shows "\<bar>float64 x - x\<bar> \<le> 2 powi (int k - 54)"
proof -
  let ?u = "(2 :: rat) powi (binexp x - 52)"
  have u: "0 < ?u" by simp
  have "float64 x - x = (of_int (round_even (x / ?u)) - x / ?u) * ?u"
    using assms(1) u by (simp add: float64_def Let_def left_diff_distrib)
  then have "\<bar>float64 x - x\<bar> = \<bar>of_int (round_even (x / ?u)) - x / ?u\<bar> * ?u" by (simp add: abs_mult)
  also have "\<dots> \<le> 1 / 2 * ?u" using round_even_error u by (intro mult_right_mono) simp_all
  also have "\<dots> = 2 powi (binexp x - 53)"
    using powi_diff_rat[of "binexp x - 52" 1] by (simp add: algebra_simps)
  also have "\<dots> \<le> 2 powi (int k - 54)" using binexp_less[OF assms] by (simp add: powi_le_iff)
  finally show ?thesis .
qed

lemma float64_of_int:
  assumes "0 \<le> i" "i < 2 ^ 53"
  shows "float64 (of_int i) = of_int i"
proof (cases "i = 0")
  case False
  with assms have i: "0 < (of_int i :: rat)" by simp
  have "(of_int i :: rat) < of_int (2 ^ 53)" using assms(2) by (simp only: of_int_less_iff)
  then have "binexp (of_int i) < 53" using binexp_less[OF i, of 53] by simp
  then obtain m where m: "52 - binexp (of_int i) = int m" using nonneg_int_cases[of "52 - binexp (of_int i)"] by auto
  then have "binexp (of_int i) - 52 = - int m" by simp
  then have u: "(2 :: rat) powi (binexp (of_int i) - 52) = 1 / 2 ^ m" by (simp add: power_int_minus divide_inverse)
  have "(of_int i :: rat) / (1 / 2 ^ m) = of_int (i * 2 ^ m)" by simp
  then have "round_even (of_int i / (1 / 2 ^ m) :: rat) = i * 2 ^ m" by (simp only: round_even_of_int)
  then show ?thesis using i by (simp add: float64_def Let_def u)
qed (simp add: float64_def)

section \<open>The label\<close>

lemma ceiling_float64_div:
  fixes b c :: int
  assumes "0 < b" "0 < c" "of_int b / of_int c < (2 :: rat) ^ k" "k \<le> 53" "2 powi (int k - 54) < 1 / (of_int c :: rat)"
  shows "\<lceil>float64 (of_int b / of_int c)\<rceil> = \<lceil>of_int b / (of_int c :: rat)\<rceil>"
proof (cases "c dvd b")
  case True
  then obtain n where b: "b = c * n" by (elim dvdE)
  with assms(1,2) have n: "0 < n" by (simp add: zero_less_mult_iff)
  have q: "of_int b / of_int c = (of_int n :: rat)" using assms(2) by (simp add: b)
  have "(2 :: rat) ^ k \<le> 2 ^ 53" using assms(4) by (intro power_increasing) simp_all
  from less_le_trans[OF assms(3) this] q have "(of_int n :: rat) < of_int (2 ^ 53)" by simp
  then have "n < 2 ^ 53" by (simp only: of_int_less_iff)
  with n q show ?thesis by (simp add: float64_of_int)
next
  case False
  let ?q = "of_int b / of_int c :: rat"
  let ?n = "b div c"
  have r: "0 < b mod c" "b mod c < c"
    using False assms(2) pos_mod_bound[of c b] pos_mod_sign[of c b] by (auto simp: dvd_eq_mod_eq_0 order_less_le)
  have q: "?q = of_int ?n + of_int (b mod c) / of_int c"
    using assms(2) by (metis div_mult_mod_eq add_divide_distrib nonzero_mult_div_cancel_right of_int_0_less_iff of_int_add of_int_mult less_numeral_extra(3))
  have "1 / of_int c \<le> (of_int (b mod c) :: rat) / of_int c"
    using r assms(2) by (intro divide_right_mono) (simp_all add: int_one_le_iff_zero_less)
  moreover have "b mod c \<le> c - 1" using r by simp
  then have "(of_int (b mod c) :: rat) \<le> of_int (c - 1)" by (simp only: of_int_le_iff)
  then have "(of_int (b mod c) :: rat) / of_int c \<le> (of_int c - 1) / of_int c"
    using assms(2) by (intro divide_right_mono) simp_all
  moreover have "((of_int c :: rat) - 1) / of_int c = 1 - 1 / of_int c" using assms(2) by (simp add: diff_divide_distrib)
  ultimately have lo: "of_int ?n + 1 / of_int c \<le> ?q" and hi: "?q \<le> of_int ?n + 1 - 1 / of_int c" using q by linarith+
  have pos: "0 < 1 / (of_int c :: rat)" using assms(2) by simp
  have "0 < ?q" using assms(1,2) by simp
  from float64_error[OF this assms(3)] assms(5) lo hi
  have "of_int ?n < float64 ?q" "float64 ?q \<le> of_int ?n + 1" by linarith+
  then have "\<lceil>float64 ?q\<rceil> = ?n + 1" by (intro ceiling_unique) simp_all
  moreover have "of_int ?n < ?q" "?q \<le> of_int ?n + 1" using lo hi pos by linarith+
  then have "\<lceil>?q\<rceil> = ?n + 1" by (intro ceiling_unique) simp_all
  ultimately show ?thesis by simp
qed

lemma div_round_up:
  fixes b c :: int
  assumes "0 < c"
  shows "- ((- b) div c) = (b + c - 1) div c"
proof -
  have "b + c - 1 = (b mod c + (c - 1)) + (b div c) * c" by simp
  then have up: "(b + c - 1) div c = b div c + (b mod c + (c - 1)) div c"
    using div_mult_self1[of c "b mod c + (c - 1)" "b div c"] assms by (simp add: algebra_simps)
  show ?thesis
  proof (cases "b mod c = 0")
    case True
    with assms show ?thesis by (simp add: up zdiv_zminus1_eq_if div_pos_pos_trivial)
  next
    case False
    with assms pos_mod_bound[of c b] pos_mod_sign[of c b] have r: "0 < b mod c" "b mod c < c" by linarith+
    have "(b mod c + (c - 1)) div c = (b mod c - 1 + c) div c" by (simp add: algebra_simps)
    also have "\<dots> = (b mod c - 1) div c + 1" using assms by simp
    also have "(b mod c - 1) div c = 0" using r by (intro div_pos_pos_trivial) linarith+
    finally show ?thesis using False assms by (simp add: up zdiv_zminus1_eq_if)
  qed
qed

section \<open>Properties\<close>

text \<open>C38. The capacity label is the documented one: for every capacity of less than 8 PiB the label is
  500 times the number of begun 500 GiB, followed by G, although it is computed in floating point.\<close>

theorem capacity_label_exact:
  assumes "0 \<le> b" and "b < 2 ^ 53"
  shows "CapacityBreakDown b = dec_int (500 * ((b + 500 * GiB - 1) div (500 * GiB))) @ ''G''"
proof (cases "b = 0")
  case True
  then show ?thesis by (simp add: CapacityBreakDown_0 dec_int_def dec_nat.simps dec_digit_def)
next
  case False
  let ?c = "500 * GiB"
  have fb: "float64 (of_int b) = of_int b" using assms by (rule float64_of_int)
  have fc: "float64 (of_int ?c) = of_int ?c" by (rule float64_of_int) simp_all
  have "(of_int b :: rat) < of_int (2 ^ 53)" using assms(2) by (simp only: of_int_less_iff)
  then have k: "of_int b / of_int ?c < (2 :: rat) ^ 15" by simp
  have u: "2 powi (int 15 - 54) < 1 / (of_int ?c :: rat)" by (simp add: power_int_def power_one_over)
  have "\<lceil>float64 (of_int b / of_int ?c)\<rceil> = \<lceil>of_int b / (of_int ?c :: rat)\<rceil>"
    by (rule ceiling_float64_div[OF _ _ k _ u]) (use False assms(1) in simp_all)
  also have "\<dots> = - ((- b) div ?c)" by (rule ceiling_divide_eq_div)
  also have "\<dots> = (b + ?c - 1) div ?c" by (rule div_round_up) simp
  finally have n: "\<lceil>float64 (of_int b / of_int ?c)\<rceil> = (b + ?c - 1) div ?c" .
  show ?thesis unfolding CapacityBreakDown_def Let_def fb fc n by (simp only: mult.commute)
qed

theorem capacity_label_exact_witness: "CapacityBreakDown (1000 * GiB + 1) = dec_int 1500 @ ''G''"
  using capacity_label_exact[of "1000 * GiB + 1"] by simp

end
