(* ===== verification/Resync_Period.thy ===== *)
theory Resync_Period
  imports Capacity_Label Common
begin

text \<open>
  The resync period of the informers (\<open>StartLocalController\<close> in \<open>pkg/controller/controller.go\<close>): a random
  multiple of the configured minimum, computed in \<open>float64\<close> seconds and cut off to whole seconds.
  Shown: rounding never carries the period out of the documented interval when the minimum is a
  whole number of seconds, and by less than a second below it otherwise.
\<close>

section \<open>Durations\<close>

abbreviation Second :: int where "Second \<equiv> 1000000000"

definition Seconds :: "int \<Rightarrow> rat" where
  "Seconds d =
     (let sec = quot64 d Second; nsec = d - Second * sec
      in float64 (float64 (of_int sec) + float64 (float64 (of_int nsec) / of_int Second)))"

definition trunc :: "rat \<Rightarrow> int" where
  "trunc x = (if 0 \<le> x then \<lfloor>x\<rfloor> else \<lceil>x\<rceil>)"

text \<open>The second argument is the number \<open>rand.Float64()\<close> returns.\<close>

definition resyncPeriod :: "UserConfig \<Rightarrow> rat \<Rightarrow> int" where
  "resyncPeriod config random =
     wrap64 (trunc (float64 (Seconds (uc_MinResyncPeriod config) * float64 (1 + random))) * Second)"

section \<open>Rounding is monotone\<close>

lemma round_even_mono:
  assumes "x \<le> y"
  shows "round_even x \<le> round_even y"
proof (cases "\<lfloor>x\<rfloor> = \<lfloor>y\<rfloor>")
  case True
  with assms show ?thesis by (simp add: round_even_def Let_def)
next
  case False
  with assms have "\<lfloor>x\<rfloor> < \<lfloor>y\<rfloor>" using floor_mono[OF assms] by simp
  moreover have "round_even x \<le> \<lfloor>x\<rfloor> + 1" "\<lfloor>y\<rfloor> \<le> round_even y" by (simp_all add: round_even_def Let_def)
  ultimately show ?thesis by simp
qed

lemma binexp_upper:
  assumes "0 < x"
  shows "x < 2 powi (binexp x + 1)"
proof -
  obtain a b where q: "quotient_of x = (a, b)" by fastforce
  then have b: "0 < b" and x: "x = of_int a / of_int b" by (auto dest: quotient_of_denom_pos quotient_of_div)
  with assms have a: "0 < a" by (simp add: zero_less_divide_iff)
  show ?thesis
  proof (cases "(2 :: rat) powi (bitlen a - bitlen b) \<le> x")
    case False
    with q assms show ?thesis by (simp add: binexp_def Let_def)
  next
    case True
    have "(of_int a :: rat) < of_int (2 ^ nat (bitlen a))" using bitlen_bounds[OF a] by (simp only: of_int_less_iff)
    moreover have "of_int (2 ^ nat (bitlen b - 1)) \<le> (of_int b :: rat)" using bitlen_bounds[OF b] by (simp only: of_int_le_iff)
    ultimately have "x < (2 :: rat) ^ nat (bitlen a) / 2 ^ nat (bitlen b - 1)"
      unfolding x using a b by (intro frac_less) simp_all
    moreover have "(2 :: rat) ^ nat (bitlen a) = 2 powi bitlen a" "(2 :: rat) ^ nat (bitlen b - 1) = 2 powi (bitlen b - 1)"
      using a b by (simp_all add: power_int_def bitlen_def floorlog_eq_zero_iff flip: neq0_conv)
    ultimately have "x < (2 :: rat) powi (bitlen a - bitlen b + 1)"
      using powi_diff_rat[of "bitlen a" "bitlen b - 1"] by (simp add: algebra_simps)
    with True q assms show ?thesis by (simp add: binexp_def Let_def)
  qed
qed

lemma binexp_mono:
  assumes "0 < x" "x \<le> y"
  shows "binexp x \<le> binexp y"
proof -
  have "(2 :: rat) powi binexp x < 2 powi (binexp y + 1)"
    using binexp_le[OF assms(1)] binexp_upper[of y] assms by linarith
  then show ?thesis using powi_le_iff[of "binexp y + 1" "binexp x"] by linarith
qed

text \<open>A rounded number stays between the powers of two around it.\<close>

lemma float64_binade:
  assumes "0 < x"
  shows "2 powi binexp x \<le> float64 x" "float64 x \<le> 2 powi (binexp x + 1)"
proof -
  let ?u = "(2 :: rat) powi (binexp x - 52)"
  have u: "0 < ?u" by simp
  have p: "2 powi binexp x = of_int (2 ^ 52) * ?u" "2 powi (binexp x + 1) = of_int (2 ^ 53) * ?u"
    using powi_diff_rat[of "binexp x" 52] power_int_add_1[of "2 :: rat" "binexp x"] by simp_all
  have "of_int (2 ^ 52) \<le> x / ?u" "x / ?u \<le> of_int (2 ^ 53)"
    using binexp_le[OF assms] binexp_upper[OF assms] u unfolding p by (simp_all add: pos_le_divide_eq pos_divide_le_eq)
  then have "2 ^ 52 \<le> round_even (x / ?u)" "round_even (x / ?u) \<le> 2 ^ 53"
    using round_even_mono[of _ "x / ?u"] round_even_mono[of "x / ?u"] round_even_of_int by metis+
  then have "of_int (2 ^ 52) * ?u \<le> of_int (round_even (x / ?u)) * ?u" "of_int (round_even (x / ?u)) * ?u \<le> of_int (2 ^ 53) * ?u"
    using u by (simp_all only: mult_right_mono of_int_le_iff less_imp_le)
  then show "2 powi binexp x \<le> float64 x" "float64 x \<le> 2 powi (binexp x + 1)"
    unfolding p using assms by (simp_all add: float64_def Let_def)
qed

lemma float64_0: "float64 0 = 0"
  by (simp add: float64_def)

lemma float64_nonneg:
  assumes "0 \<le> x"
  shows "0 \<le> float64 x"
proof (cases "x = 0")
  case False
  with assms have "2 powi binexp x \<le> float64 x" by (intro float64_binade(1)) simp
  moreover have "(0 :: rat) \<le> 2 powi binexp x" by simp
  ultimately show ?thesis by (rule order_trans[rotated])
qed (simp add: float64_0)

lemma float64_mono:
  assumes "0 \<le> x" "x \<le> y"
  shows "float64 x \<le> float64 y"
proof (cases "x = 0")
  case True
  then show ?thesis using float64_nonneg[of y] assms by (simp add: float64_0)
next
  case False
  with assms have x: "0 < x" "0 < y" by auto
  show ?thesis
  proof (cases "binexp x = binexp y")
    case True
    have "x / 2 powi (binexp y - 52) \<le> y / 2 powi (binexp y - 52)" using assms(2) by (simp add: divide_right_mono)
    then show ?thesis using x by (simp add: float64_def Let_def True round_even_mono mult_right_mono)
  next
    case False
    with binexp_mono[OF x(1) assms(2)] have "(2 :: rat) powi (binexp x + 1) \<le> 2 powi binexp y" by (simp add: powi_le_iff)
    with float64_binade(2)[OF x(1)] float64_binade(1)[OF x(2)] show ?thesis by linarith
  qed
qed

text \<open>So rounding respects every bound that is a whole number below \<open>2 ^ 53\<close>.\<close>

lemma float64_int_bounds:
  assumes "0 \<le> i" "i < 2 ^ 53" "0 \<le> x"
  shows "of_int i \<le> x \<Longrightarrow> of_int i \<le> float64 x" "x \<le> of_int i \<Longrightarrow> float64 x \<le> of_int i"
proof -
  show "of_int i \<le> float64 x" if "of_int i \<le> x"
    using that float64_mono[of "of_int i" x] float64_of_int[OF assms(1,2)] assms(1) by simp
  show "float64 x \<le> of_int i" if "x \<le> of_int i"
    using that float64_mono[of x "of_int i"] float64_of_int[OF assms(1,2)] assms(3) by simp
qed

section \<open>The period\<close>

lemma Seconds_bounds:
  assumes "0 \<le> d" "d < 2 ^ 63"
  shows "of_int (d div Second) \<le> Seconds d" "Seconds d \<le> of_int (d div Second + 1)"
    "d mod Second = 0 \<Longrightarrow> Seconds d = of_int (d div Second)"
proof -
  let ?s = "d div Second" and ?n = "d mod Second"
  have s: "0 \<le> ?s" "?s + 1 < 2 ^ 53" "0 \<le> ?n" "?n < Second" using assms by simp_all
  have n: "d - Second * quot64 d Second = ?n" using assms by (simp add: quot64_nonneg minus_mult_div_eq_mod)
  have S: "Seconds d = float64 (of_int ?s + float64 (of_int ?n / of_int Second))"
    unfolding Seconds_def Let_def n using assms s by (simp add: quot64_nonneg float64_of_int)
  have f: "0 \<le> float64 (of_int ?n / of_int Second)" using s by (intro float64_nonneg) simp
  have "of_int ?n / of_int Second \<le> (of_int 1 :: rat)" using s(4) by simp
  then have f1: "float64 (of_int ?n / of_int Second) \<le> 1"
    using float64_int_bounds(2)[of 1 "of_int ?n / of_int Second"] s(3) by simp
  have s0: "0 \<le> (of_int ?s :: rat)" using s(1) by simp
  show "of_int ?s \<le> Seconds d" unfolding S using s s0 f by (intro float64_int_bounds(1)) simp_all
  show "Seconds d \<le> of_int (?s + 1)" unfolding S using s s0 f f1 by (intro float64_int_bounds(2)) simp_all
  show "Seconds d = of_int ?s" if "d mod Second = 0"
    unfolding S that using s by (simp add: float64_0 float64_of_int)
qed

text \<open>The whole number of seconds chosen lies between the bounds of the seconds it is computed from.\<close>

lemma scaled_bounds:
  assumes "0 \<le> a" "of_int a \<le> x" "x \<le> of_int b" "2 * b < 2 ^ 53" "0 \<le> r" "r < 1"
  shows "a \<le> trunc (float64 (x * float64 (1 + r)))" "trunc (float64 (x * float64 (1 + r))) \<le> 2 * b"
proof -
  have f: "1 \<le> float64 (1 + r)" "float64 (1 + r) \<le> 2"
    using float64_int_bounds[of 1 "1 + r"] float64_int_bounds[of 2 "1 + r"] assms(5,6) by simp_all
  have a0: "0 \<le> (of_int a :: rat)" using assms(1) by simp
  have x: "0 \<le> x" and b: "a \<le> b" using a0 assms(2,3) of_int_le_iff[where ?'a = rat, of a b] by linarith+
  have "of_int a * 1 \<le> x * float64 (1 + r)" using a0 x f assms(2) by (intro mult_mono) simp_all
  moreover have "x * float64 (1 + r) \<le> of_int b * 2" using x f assms(3) by (intro mult_mono) simp_all
  ultimately have p: "of_int a \<le> x * float64 (1 + r)" "x * float64 (1 + r) \<le> of_int (2 * b)" by (simp_all add: mult.commute)
  with a0 have p0: "0 \<le> x * float64 (1 + r)" by linarith
  have "of_int a \<le> float64 (x * float64 (1 + r))" "float64 (x * float64 (1 + r)) \<le> of_int (2 * b)"
    using p p0 b assms(1,4) by (intro float64_int_bounds; simp)+
  with a0 show "a \<le> trunc (float64 (x * float64 (1 + r)))" "trunc (float64 (x * float64 (1 + r))) \<le> 2 * b"
    by (auto simp: trunc_def le_floor_iff floor_le_iff)
qed

text \<open>C31. The resync period the informers get is a whole number of seconds. When the configured minimum
  is one too, the period lies between the minimum and twice the minimum, as documented, for every
  random number and despite the roundings of \<open>float64\<close>. Otherwise the seconds are cut off: the
  period can be less than the minimum, by less than a second, and exceed twice the minimum by at
  most two seconds. Nothing overflows for minimums up to a hundred years.\<close>

theorem resync_period_bounds:
  assumes "0 \<le> uc_MinResyncPeriod config" "uc_MinResyncPeriod config \<le> 100 * 366 * 86400 * Second"
    and "0 \<le> random" "random < 1"
  shows "Second dvd resyncPeriod config random
    \<and> uc_MinResyncPeriod config - Second < resyncPeriod config random
    \<and> resyncPeriod config random \<le> 2 * uc_MinResyncPeriod config + 2 * Second
    \<and> (Second dvd uc_MinResyncPeriod config \<longrightarrow>
         uc_MinResyncPeriod config \<le> resyncPeriod config random
         \<and> resyncPeriod config random \<le> 2 * uc_MinResyncPeriod config)"
proof -
  let ?d = "uc_MinResyncPeriod config"
  let ?t = "trunc (float64 (Seconds ?d * float64 (1 + random)))"
  have d: "0 \<le> ?d" "?d < 2 ^ 63" using assms(1,2) by simp_all
  have q: "0 \<le> ?d div Second" "?d div Second \<le> 100 * 366 * 86400" using assms(1,2) by simp_all
  have t: "?d div Second \<le> ?t" "?t \<le> 2 * (?d div Second + 1)"
    using q assms(3,4) by (intro scaled_bounds[OF q(1) Seconds_bounds(1,2)[OF d]]; simp)+
  have e: "?t \<le> 2 * (?d div Second)" if "Second dvd ?d"
  proof -
    from that have "Seconds ?d = of_int (?d div Second)" by (intro Seconds_bounds(3)[OF d]) simp
    with q assms(3,4) show ?thesis by (intro scaled_bounds(2)[where a = "?d div Second"]) simp_all
  qed
  have "resyncPeriod config random = ?t * Second"
    unfolding resyncPeriod_def using t q by (intro wrap64_int64) (simp add: int64_def)
  with t e show ?thesis by auto
qed

theorem resync_period_bounds_witness:
  "resyncPeriod (ex_user\<lparr>uc_MinResyncPeriod := 300 * Second\<rparr>) (1 / 4) = 375 * Second
   \<and> 300 * Second \<le> resyncPeriod (ex_user\<lparr>uc_MinResyncPeriod := 300 * Second\<rparr>) (9007199254740991 / 9007199254740992)
   \<and> resyncPeriod (ex_user\<lparr>uc_MinResyncPeriod := 300 * Second\<rparr>) (9007199254740991 / 9007199254740992) \<le> 600 * Second"
proof -
  have "resyncPeriod (ex_user\<lparr>uc_MinResyncPeriod := 300 * Second\<rparr>) (1 / 4) = 375 * Second" by code_simp
  with resync_period_bounds[of "ex_user\<lparr>uc_MinResyncPeriod := 300 * Second\<rparr>" "9007199254740991 / 9007199254740992"]
  show ?thesis by simp
qed

text \<open>The comment promises at least the minimum; below a second the period can even be zero, which
  turns the resync off.\<close>

lemma resync_period_below_minimum:
  "resyncPeriod (ex_user\<lparr>uc_MinResyncPeriod := 1900000000\<rparr>) 0 = Second"
  "resyncPeriod (ex_user\<lparr>uc_MinResyncPeriod := 500000000\<rparr>) (1 / 2) = 0"
  by code_simp+

end
