(* ===== verification/Config_Watcher.thy ===== *)
theory Config_Watcher
  imports Common
begin

text \<open>
  \<open>pkg/watcher/config.go\<close>: the watcher that reloads the configuration periodically and sends it to
  the controller when it differs from the one last applied. Here it matters that a Go struct holds
  its maps and slices by reference: the watcher loads into one structure over and over, and after
  an update the configuration it remembers and the one it loads into share those objects. A
  configuration is therefore a record of references into a store of maps and arrays.
\<close>

declare map_of_eq_Some_iff [simp del] Some_eq_map_of_iff [simp del]

section \<open>Configurations in memory\<close>

text \<open>The store: an address is an index. A nil map is \<open>None\<close>; a slice is an array and the length of
  the part in use, a nil slice is \<open>None\<close>.\<close>

record config_heap =
  hp_classes :: "(string, MountConfig) gomap list"
  hp_labels :: "(string, string) gomap list"
  hp_names :: "string list list"
  hp_tolerations :: "toleration list list"

record config_ref =
  cr_StorageClassConfig :: "nat option"
  cr_NodeLabelsForPV :: "(nat \<times> nat) option"
  cr_JobTolerations :: "(nat \<times> nat) option"
  cr_LabelsForPV :: "nat option"
  cr_UseAlphaAPI :: bool
  cr_UseJobForCleaning :: bool
  cr_MinResyncPeriod :: int
  cr_UseNodeNameOnly :: bool
  cr_SetPVOwnerRef :: bool
  cr_RemoveNodeNotReadyTaint :: bool
  cr_ProvisionerNotReadyNodeTaintKey :: string

definition map_at :: "('k, 'v) gomap list \<Rightarrow> nat option \<Rightarrow> ('k, 'v) gomap option" where
  "map_at ms r = map_option (\<lambda>a. ms ! a) r"

definition slice_at :: "'a list list \<Rightarrow> (nat \<times> nat) option \<Rightarrow> 'a list option" where
  "slice_at vs r = map_option (\<lambda>(a, n). take n (vs ! a)) r"

text \<open>The configuration value behind the references.\<close>

definition deref :: "config_heap \<Rightarrow> config_ref \<Rightarrow> ProvisionerConfiguration" where
  "deref h c =
     \<lparr>pc_StorageClassConfig = (case map_at (hp_classes h) (cr_StorageClassConfig c) of None \<Rightarrow> [] | Some m \<Rightarrow> m),
      pc_NodeLabelsForPV = (case slice_at (hp_names h) (cr_NodeLabelsForPV c) of None \<Rightarrow> [] | Some s \<Rightarrow> s),
      pc_UseAlphaAPI = cr_UseAlphaAPI c,
      pc_UseJobForCleaning = cr_UseJobForCleaning c,
      pc_JobTolerations = (case slice_at (hp_tolerations h) (cr_JobTolerations c) of None \<Rightarrow> [] | Some s \<Rightarrow> s),
      pc_MinResyncPeriod = cr_MinResyncPeriod c,
      pc_UseNodeNameOnly = cr_UseNodeNameOnly c,
      pc_LabelsForPV = (case map_at (hp_labels h) (cr_LabelsForPV c) of None \<Rightarrow> [] | Some m \<Rightarrow> m),
      pc_SetPVOwnerRef = cr_SetPVOwnerRef c,
      pc_RemoveNodeNotReadyTaint = cr_RemoveNodeNotReadyTaint c,
      pc_ProvisionerNotReadyNodeTaintKey = cr_ProvisionerNotReadyNodeTaintKey c\<rparr>"

text \<open>\<open>reflect.DeepEqual\<close>: maps are equal when both are nil or both are not and they hold the same
  entries, slices when both are nil or both are not and they hold the same elements. Inside a
  storage class, the model does not tell an absent selector from an empty one.\<close>

definition gm_equal :: "('k, 'v) gomap \<Rightarrow> ('k, 'v) gomap \<Rightarrow> bool" where
  "gm_equal m m' \<longleftrightarrow> (\<forall>k \<in> fst ` set (m @ m'). gm_get m k = gm_get m' k)"

definition equal_maps :: "('k, 'v) gomap option \<Rightarrow> ('k, 'v) gomap option \<Rightarrow> bool" where
  "equal_maps x y = (case (x, y) of (None, None) \<Rightarrow> True | (Some m, Some m') \<Rightarrow> gm_equal m m' | _ \<Rightarrow> False)"

definition DeepEqual :: "config_heap \<Rightarrow> config_ref \<Rightarrow> config_heap \<Rightarrow> config_ref \<Rightarrow> bool" where
  "DeepEqual h c h' c' \<longleftrightarrow>
     equal_maps (map_at (hp_classes h) (cr_StorageClassConfig c)) (map_at (hp_classes h') (cr_StorageClassConfig c'))
     \<and> slice_at (hp_names h) (cr_NodeLabelsForPV c) = slice_at (hp_names h') (cr_NodeLabelsForPV c')
     \<and> slice_at (hp_tolerations h) (cr_JobTolerations c) = slice_at (hp_tolerations h') (cr_JobTolerations c')
     \<and> equal_maps (map_at (hp_labels h) (cr_LabelsForPV c)) (map_at (hp_labels h') (cr_LabelsForPV c'))
     \<and> cr_UseAlphaAPI c = cr_UseAlphaAPI c' \<and> cr_UseJobForCleaning c = cr_UseJobForCleaning c'
     \<and> cr_MinResyncPeriod c = cr_MinResyncPeriod c' \<and> cr_UseNodeNameOnly c = cr_UseNodeNameOnly c'
     \<and> cr_SetPVOwnerRef c = cr_SetPVOwnerRef c' \<and> cr_RemoveNodeNotReadyTaint c = cr_RemoveNodeNotReadyTaint c'
     \<and> cr_ProvisionerNotReadyNodeTaintKey c = cr_ProvisionerNotReadyNodeTaintKey c'"

section \<open>Loading into a structure in memory\<close>

text \<open>The YAML decoder, a library, fills the structure it is given: it may write to the objects the
  structure refers to, allocate new ones and change the structure itself.\<close>

type_synonym decoder = "string \<Rightarrow> config_heap \<Rightarrow> config_ref \<Rightarrow> error option \<times> config_heap \<times> config_ref"

text \<open>The files of the configuration directory as one reload finds them.\<close>

type_synonym config_files = "(string \<Rightarrow> (string \<times> bool) list result) \<times> (string \<Rightarrow> string result)"

text \<open>\<open>LoadProvisionerConfigs\<close> with the structure passed by pointer: the defaults are written back
  into the map the structure refers to.\<close>

definition fill_defaults :: "string \<Rightarrow> config_heap \<Rightarrow> config_ref \<Rightarrow> error option \<times> config_heap" where
  "fill_defaults goos h pc =
     (case cr_StorageClassConfig pc of
        None \<Rightarrow> (None, h)
      | Some a \<Rightarrow>
          (case default_loop goos (hp_classes h ! a) (hp_classes h ! a) of
             (err, m) \<Rightarrow> (err, h\<lparr>hp_classes := (hp_classes h)[a := m]\<rparr>)))"

definition load_ref :: "decoder \<Rightarrow> string \<Rightarrow> string \<Rightarrow> config_files \<Rightarrow> config_heap \<Rightarrow> config_ref
    \<Rightarrow> error option \<times> config_heap \<times> config_ref" where
  "load_ref unmarshal goos configPath files h pc =
     (case fst files configPath of
        Inl err \<Rightarrow> (Some err, h, pc)
      | Inr fs \<Rightarrow>
          (case load_files (snd files) configPath fs [] of
             Inl err \<Rightarrow> (Some err, h, pc)
           | Inr data \<Rightarrow>
               (case unmarshal (raw_yaml data) h pc of
                  (Some err, h, pc) \<Rightarrow> (Some (Wrapf ''fail to Unmarshal yaml due to: %#v'' [] err), h, pc)
                | (None, h, pc) \<Rightarrow> (case fill_defaults goos h pc of (err, h) \<Rightarrow> (err, h, pc)))))"

section \<open>The watcher\<close>

record ConfigWatcher =
  cw_configPath :: string
  cw_resyncPeriod :: int
  cw_lastAppliedConfig :: config_ref

definition NewConfigWatcher :: "string \<Rightarrow> int \<Rightarrow> config_ref \<Rightarrow> ConfigWatcher" where
  "NewConfigWatcher configPath resyncPeriod config =
     \<lparr>cw_configPath = configPath, cw_resyncPeriod = resyncPeriod, cw_lastAppliedConfig = config\<rparr>"

record watch_state =
  ws_heap :: config_heap
  ws_watcher :: ConfigWatcher
  ws_config :: config_ref
  ws_sent :: "config_ref list"

text \<open>One turn of the loop: reload, compare and perhaps send. \<open>Inl\<close> is the end of the process.\<close>

definition watch_round :: "decoder \<Rightarrow> string \<Rightarrow> config_files \<Rightarrow> watch_state \<Rightarrow> watch_state result" where
  "watch_round unmarshal goos files s =
     (case load_ref unmarshal goos (cw_configPath (ws_watcher s)) files (ws_heap s) (ws_config s) of
        (Some err, h, pc) \<Rightarrow> Inl (Wrapf ''Error parsing Provisioner's configuration: %#v. Exiting...'' [] err)
      | (None, h, pc) \<Rightarrow>
          Inr (if \<not> DeepEqual h (cw_lastAppliedConfig (ws_watcher s)) h pc
               then s\<lparr>ws_heap := h, ws_config := pc, ws_sent := ws_sent s @ [pc],
                      ws_watcher := (ws_watcher s)\<lparr>cw_lastAppliedConfig := pc\<rparr>\<rparr>
               else s\<lparr>ws_heap := h, ws_config := pc\<rparr>))"

fun watch_rounds :: "decoder \<Rightarrow> string \<Rightarrow> config_files list \<Rightarrow> watch_state \<Rightarrow> watch_state result" where
  "watch_rounds unmarshal goos [] s = Inr s"
| "watch_rounds unmarshal goos (files # rest) s =
     (case watch_round unmarshal goos files s of
        Inl err \<Rightarrow> Inl err
      | Inr s \<Rightarrow> watch_rounds unmarshal goos rest s)"

text \<open>\<open>Run\<close> makes a new map and starts from the default resync period of five minutes.\<close>

definition default_ref :: "nat \<Rightarrow> config_ref" where
  "default_ref a =
     \<lparr>cr_StorageClassConfig = Some a, cr_NodeLabelsForPV = None, cr_JobTolerations = None, cr_LabelsForPV = None,
      cr_UseAlphaAPI = False, cr_UseJobForCleaning = False, cr_MinResyncPeriod = 5 * 60 * 1000000000,
      cr_UseNodeNameOnly = False, cr_SetPVOwnerRef = False, cr_RemoveNodeNotReadyTaint = False,
      cr_ProvisionerNotReadyNodeTaintKey = []\<rparr>"

definition ConfigWatcher_Run :: "decoder \<Rightarrow> string \<Rightarrow> config_files list \<Rightarrow> config_heap \<Rightarrow> ConfigWatcher
    \<Rightarrow> watch_state result" where
  "ConfigWatcher_Run unmarshal goos rounds h cw =
     watch_rounds unmarshal goos rounds
       \<lparr>ws_heap = h\<lparr>hp_classes := hp_classes h @ [[]]\<rparr>, ws_watcher = cw,
        ws_config = default_ref (length (hp_classes h)), ws_sent = []\<rparr>"

section \<open>Lemmas\<close>

lemma gm_equal_iff: "gm_equal m m' \<longleftrightarrow> gm_get m = gm_get m'"
proof
  assume a: "gm_equal m m'"
  have "gm_get m k = gm_get m' k" for k
  proof (cases "gm_get m k = None \<and> gm_get m' k = None")
    case False
    then have "k \<in> fst ` set (m @ m')" by (auto simp: map_of_eq_None_iff image_Un)
    with a show ?thesis unfolding gm_equal_def by blast
  qed simp
  then show "gm_get m = gm_get m'" by blast
qed (simp add: gm_equal_def)

lemma equal_maps_refl [simp]: "equal_maps x x"
  by (cases x) (simp_all add: equal_maps_def gm_equal_iff)

lemma equal_maps_sym: "equal_maps x y \<Longrightarrow> equal_maps y x"
  by (auto simp: equal_maps_def gm_equal_iff split: option.splits)

lemma equal_maps_trans: "equal_maps x y \<Longrightarrow> equal_maps y z \<Longrightarrow> equal_maps x z"
  by (auto simp: equal_maps_def gm_equal_iff split: option.splits)

lemma DeepEqual_refl [simp]: "DeepEqual h c h c"
  by (simp add: DeepEqual_def)

lemma DeepEqual_trans: "DeepEqual h c h' c' \<Longrightarrow> DeepEqual h' c' h'' c'' \<Longrightarrow> DeepEqual h c h'' c''"
  by (auto simp: DeepEqual_def intro: equal_maps_trans)

lemma DeepEqual_sym: "DeepEqual h c h' c' \<Longrightarrow> DeepEqual h' c' h c"
  by (auto simp: DeepEqual_def intro: equal_maps_sym)

lemma DeepEqual_deref:
  assumes "DeepEqual h c h' c'"
  shows "gm_get (pc_StorageClassConfig (deref h c)) = gm_get (pc_StorageClassConfig (deref h' c'))"
    and "gm_get (pc_LabelsForPV (deref h c)) = gm_get (pc_LabelsForPV (deref h' c'))"
    and "pc_NodeLabelsForPV (deref h c) = pc_NodeLabelsForPV (deref h' c')"
    and "pc_JobTolerations (deref h c) = pc_JobTolerations (deref h' c')"
  using assms by (auto simp: DeepEqual_def deref_def equal_maps_def gm_equal_iff split: option.splits)

text \<open>The loader is the one of the other components: where the decoder agrees with a decoder of
  values, loading in memory is \<^const>\<open>LoadProvisionerConfigs\<close> on the configuration behind the
  references.\<close>

lemma deref_classes: "cr_StorageClassConfig c = Some a \<Longrightarrow> pc_StorageClassConfig (deref h c) = hp_classes h ! a"
  by (simp add: deref_def map_at_def)

lemma deref_set_classes:
  assumes "cr_StorageClassConfig c = Some a" "a < length (hp_classes h)"
  shows "deref (h\<lparr>hp_classes := (hp_classes h)[a := m]\<rparr>) c = (deref h c)\<lparr>pc_StorageClassConfig := m\<rparr>"
  using assms by (simp add: deref_def map_at_def)

lemma fill_defaults_deref:
  assumes "fill_defaults goos h pc = (err, h')" "\<forall>a. cr_StorageClassConfig pc = Some a \<longrightarrow> a < length (hp_classes h)"
  shows "default_loop goos (pc_StorageClassConfig (deref h pc)) (pc_StorageClassConfig (deref h pc))
      = (err, pc_StorageClassConfig (deref h' pc))
    \<and> deref h' pc = (deref h pc)\<lparr>pc_StorageClassConfig := pc_StorageClassConfig (deref h' pc)\<rparr>"
proof (cases "cr_StorageClassConfig pc")
  case None
  with assms(1) show ?thesis by (auto simp: fill_defaults_def deref_def map_at_def)
next
  case (Some a)
  obtain m where m: "default_loop goos (hp_classes h ! a) (hp_classes h ! a) = (err, m)"
    and h': "h' = h\<lparr>hp_classes := (hp_classes h)[a := m]\<rparr>"
    using assms(1) Some by (auto simp: fill_defaults_def split: prod.splits)
  show ?thesis using Some assms(2) m by (simp add: h' deref_set_classes deref_classes)
qed

lemma load_ref_refines:
  assumes "\<And>doc. case u doc h pc of
      (Some err, h', pc') \<Rightarrow> fst (v doc (deref h pc)) = Some err
    | (None, h', pc') \<Rightarrow> v doc (deref h pc) = (None, deref h' pc')
         \<and> (\<forall>a. cr_StorageClassConfig pc' = Some a \<longrightarrow> a < length (hp_classes h'))"
    and "load_ref u goos path files h pc = (err, h', pc')"
  shows "fst (LoadProvisionerConfigs (fst files) (snd files) v goos path (deref h pc)) = err
    \<and> (err = None \<longrightarrow> snd (LoadProvisionerConfigs (fst files) (snd files) v goos path (deref h pc)) = deref h' pc')"
proof (cases "fst files path")
  case (Inl e)
  with assms(2) show ?thesis by (simp add: load_ref_def LoadProvisionerConfigs_def)
next
  case (Inr fs)
  show ?thesis
  proof (cases "load_files (snd files) path fs []")
    case (Inl e)
    with assms(2) Inr show ?thesis by (simp add: load_ref_def LoadProvisionerConfigs_def)
  next
    case (Inr data)
    note data = \<open>fst files path = Inr fs\<close> Inr
    obtain e h1 pc1 where u: "u (raw_yaml data) h pc = (e, h1, pc1)" by (metis prod_cases3)
    show ?thesis
    proof (cases e)
      case (Some x)
      with assms(1)[of "raw_yaml data"] u have "fst (v (raw_yaml data) (deref h pc)) = Some x" by simp
      with assms(2) data u Some show ?thesis
        by (cases "v (raw_yaml data) (deref h pc)") (auto simp: load_ref_def LoadProvisionerConfigs_def ConfigMapDataToVolumeConfig_def)
    next
      case None
      with assms(1)[of "raw_yaml data"] u have v: "v (raw_yaml data) (deref h pc) = (None, deref h1 pc1)"
        and ok: "\<forall>a. cr_StorageClassConfig pc1 = Some a \<longrightarrow> a < length (hp_classes h1)" by simp_all
      from assms(2) data u None have f: "fill_defaults goos h1 pc1 = (err, h')" and pc': "pc' = pc1"
        by (auto simp: load_ref_def split: prod.splits)
      from fill_defaults_deref[OF f ok] data v show ?thesis
        by (simp add: LoadProvisionerConfigs_def ConfigMapDataToVolumeConfig_def pc')
    qed
  qed
qed

subsection \<open>Configurations that share nothing\<close>

definition ok_ref :: "config_heap \<Rightarrow> config_ref \<Rightarrow> bool" where
  "ok_ref h c \<longleftrightarrow> (\<forall>a. cr_StorageClassConfig c = Some a \<longrightarrow> a < length (hp_classes h))
     \<and> (\<forall>a n. cr_NodeLabelsForPV c = Some (a, n) \<longrightarrow> a < length (hp_names h))
     \<and> (\<forall>a n. cr_JobTolerations c = Some (a, n) \<longrightarrow> a < length (hp_tolerations h))
     \<and> (\<forall>a. cr_LabelsForPV c = Some a \<longrightarrow> a < length (hp_labels h))"

definition apart :: "config_ref \<Rightarrow> config_ref \<Rightarrow> bool" where
  "apart c c' \<longleftrightarrow> (\<forall>a. cr_StorageClassConfig c = Some a \<longrightarrow> cr_StorageClassConfig c' \<noteq> Some a)
     \<and> (\<forall>a m n. cr_NodeLabelsForPV c = Some (a, m) \<longrightarrow> cr_NodeLabelsForPV c' \<noteq> Some (a, n))
     \<and> (\<forall>a m n. cr_JobTolerations c = Some (a, m) \<longrightarrow> cr_JobTolerations c' \<noteq> Some (a, n))
     \<and> (\<forall>a. cr_LabelsForPV c = Some a \<longrightarrow> cr_LabelsForPV c' \<noteq> Some a)"

text \<open>What a decoder promises: it writes to the objects of the structure it is given and to new ones,
  never to those of a configuration that shares nothing with it.\<close>

definition decoder_frame :: "decoder \<Rightarrow> bool" where
  "decoder_frame u \<longleftrightarrow> (\<forall>doc h pc err h' pc' c. u doc h pc = (err, h', pc') \<longrightarrow> ok_ref h pc \<longrightarrow> ok_ref h c \<longrightarrow> apart c pc
     \<longrightarrow> ok_ref h' pc' \<and> ok_ref h' c \<and> apart c pc' \<and> DeepEqual h c h' c)"

lemma write_classes_frame:
  assumes "ok_ref h pc" "ok_ref h c" "apart c pc" "cr_StorageClassConfig pc = Some a"
  shows "ok_ref (h\<lparr>hp_classes := (hp_classes h)[a := m]\<rparr>) pc \<and> ok_ref (h\<lparr>hp_classes := (hp_classes h)[a := m]\<rparr>) c
    \<and> DeepEqual h c (h\<lparr>hp_classes := (hp_classes h)[a := m]\<rparr>) c"
proof -
  from assms(3,4) have "cr_StorageClassConfig c \<noteq> Some a" by (auto simp: apart_def)
  then have "map_at ((hp_classes h)[a := m]) (cr_StorageClassConfig c) = map_at (hp_classes h) (cr_StorageClassConfig c)"
    by (cases "cr_StorageClassConfig c") (auto simp: map_at_def)
  with assms(1,2) show ?thesis by (simp add: ok_ref_def DeepEqual_def)
qed

lemma fill_defaults_frame:
  assumes "fill_defaults goos h pc = (err, h')" "ok_ref h pc" "ok_ref h c" "apart c pc"
  shows "ok_ref h' pc \<and> ok_ref h' c \<and> DeepEqual h c h' c"
proof -
  have "h' = h \<or> (\<exists>a m. cr_StorageClassConfig pc = Some a \<and> h' = h\<lparr>hp_classes := (hp_classes h)[a := m]\<rparr>)"
    using assms(1) by (auto simp: fill_defaults_def split: option.splits prod.splits)
  then show ?thesis using write_classes_frame[OF assms(2-4)] assms(2,3) by auto
qed

lemma load_ref_frame:
  assumes "decoder_frame u" "load_ref u goos path files h pc = (err, h', pc')" "ok_ref h pc" "ok_ref h c" "apart c pc"
  shows "ok_ref h' pc' \<and> ok_ref h' c \<and> apart c pc' \<and> DeepEqual h c h' c"
proof -
  consider "h' = h" "pc' = pc"
    | doc e h1 where "u doc h pc = (e, h1, pc')" "h1 = h' \<or> (\<exists>e'. fill_defaults goos h1 pc' = (e', h'))"
    using assms(2) by (auto simp: load_ref_def split: sum.splits option.splits prod.splits)
  then show ?thesis
  proof cases
    case 1
    with assms(3-5) show ?thesis by simp
  next
    case 2
    from assms(1,3-5) 2(1) have "ok_ref h1 pc' \<and> ok_ref h1 c \<and> apart c pc' \<and> DeepEqual h c h1 c"
      unfolding decoder_frame_def by blast
    then show ?thesis using 2(2) fill_defaults_frame[of goos h1 pc' _ h' c] DeepEqual_trans by blast
  qed
qed

text \<open>The configurations a watcher loads, one per round.\<close>

fun loads :: "decoder \<Rightarrow> string \<Rightarrow> string \<Rightarrow> config_files list \<Rightarrow> config_heap \<Rightarrow> config_ref
    \<Rightarrow> (config_heap \<times> config_ref) list" where
  "loads u goos path [] h pc = []"
| "loads u goos path (files # rest) h pc =
     (case load_ref u goos path files h pc of (err, h, pc) \<Rightarrow> (h, pc) # loads u goos path rest h pc)"

lemma watch_round_sent:
  assumes "watch_round u goos files s = Inr s'"
  obtains h pc where "load_ref u goos (cw_configPath (ws_watcher s)) files (ws_heap s) (ws_config s) = (None, h, pc)"
    "ws_heap s' = h" "ws_config s' = pc" "cw_configPath (ws_watcher s') = cw_configPath (ws_watcher s)"
    "if DeepEqual h (cw_lastAppliedConfig (ws_watcher s)) h pc then ws_sent s' = ws_sent s \<and> ws_watcher s' = ws_watcher s
     else ws_sent s' = ws_sent s @ [pc] \<and> cw_lastAppliedConfig (ws_watcher s') = pc"
proof -
  obtain e h pc where l: "load_ref u goos (cw_configPath (ws_watcher s)) files (ws_heap s) (ws_config s) = (e, h, pc)"
    by (metis prod_cases3)
  with assms have e: "e = None" by (auto simp: watch_round_def split: option.splits)
  show thesis
    by (rule that[of h pc]) (use assms l e in \<open>auto simp: watch_round_def\<close>)
qed

lemma watch_rounds_grow: "watch_rounds u goos rounds s = Inr s' \<Longrightarrow> \<exists>more. ws_sent s' = ws_sent s @ more"
proof (induction rounds arbitrary: s)
  case (Cons files rest)
  then obtain s1 where s1: "watch_round u goos files s = Inr s1" and r: "watch_rounds u goos rest s1 = Inr s'"
    by (auto split: sum.splits)
  from watch_round_sent[OF s1] have "\<exists>x. ws_sent s1 = ws_sent s @ x" by (metis append_Nil2)
  with Cons.IH[OF r] show ?case by force
qed simp

lemma watch_rounds_first:
  assumes "decoder_frame u" "watch_rounds u goos rounds s = Inr s'" "ok_ref (ws_heap s) (ws_config s)"
    "ok_ref (ws_heap s) lst" "apart lst (ws_config s)" "cw_lastAppliedConfig (ws_watcher s) = lst"
    "DeepEqual h0 lst (ws_heap s) lst"
  shows "case find (\<lambda>(h, pc). \<not> DeepEqual h0 lst h pc)
        (loads u goos (cw_configPath (ws_watcher s)) rounds (ws_heap s) (ws_config s)) of
      None \<Rightarrow> ws_sent s' = ws_sent s
    | Some (h, pc) \<Rightarrow> \<exists>later. ws_sent s' = ws_sent s @ pc # later"
  using assms(2-)
proof (induction rounds arbitrary: s)
  case (Cons files rest)
  from Cons.prems(1) obtain s1 where s1: "watch_round u goos files s = Inr s1" and r: "watch_rounds u goos rest s1 = Inr s'"
    by (auto split: sum.splits)
  from watch_round_sent[OF s1] obtain h pc where l: "load_ref u goos (cw_configPath (ws_watcher s)) files (ws_heap s) (ws_config s) = (None, h, pc)"
    and s1': "ws_heap s1 = h" "ws_config s1 = pc" "cw_configPath (ws_watcher s1) = cw_configPath (ws_watcher s)"
    and d: "if DeepEqual h lst h pc then ws_sent s1 = ws_sent s \<and> ws_watcher s1 = ws_watcher s
       else ws_sent s1 = ws_sent s @ [pc] \<and> cw_lastAppliedConfig (ws_watcher s1) = pc"
    using Cons.prems(5) by metis
  from load_ref_frame[OF assms(1) l Cons.prems(2-4)]
  have fr: "ok_ref h pc" "ok_ref h lst" "apart lst pc" "DeepEqual (ws_heap s) lst h lst" by blast+
  from DeepEqual_trans[OF Cons.prems(6) fr(4)] have h0: "DeepEqual h0 lst h lst" .
  have eq: "DeepEqual h0 lst h pc \<longleftrightarrow> DeepEqual h lst h pc"
    using h0 DeepEqual_trans DeepEqual_sym by blast
  show ?case
  proof (cases "DeepEqual h lst h pc")
    case True
    with d have keep: "ws_sent s1 = ws_sent s" "ws_watcher s1 = ws_watcher s" by simp_all
    have "cw_lastAppliedConfig (ws_watcher s1) = lst" using keep(2) Cons.prems(5) by simp
    from Cons.IH[OF r _ _ _ this] fr h0 have "case find (\<lambda>(h, pc). \<not> DeepEqual h0 lst h pc)
        (loads u goos (cw_configPath (ws_watcher s1)) rest (ws_heap s1) (ws_config s1)) of
      None \<Rightarrow> ws_sent s' = ws_sent s1
    | Some (h, pc) \<Rightarrow> \<exists>later. ws_sent s' = ws_sent s1 @ pc # later"
      by (simp add: s1')
    from this[unfolded keep(1)] True eq show ?thesis by (simp add: l s1')
  next
    case False
    with d have "ws_sent s1 = ws_sent s @ [pc]" by simp
    with watch_rounds_grow[OF r] obtain later where "ws_sent s' = ws_sent s @ pc # later" by auto
    with False eq show ?thesis by (simp add: l)
  qed
qed simp

lemma watch_rounds_shared:
  assumes "watch_rounds u goos rounds s = Inr s'" "cw_lastAppliedConfig (ws_watcher s) = ws_config s"
    "\<forall>(h, pc) \<in> set (loads u goos (cw_configPath (ws_watcher s)) rounds (ws_heap s) (ws_config s)). pc = ws_config s"
  shows "ws_sent s' = ws_sent s"
  using assms
proof (induction rounds arbitrary: s)
  case (Cons files rest)
  from Cons.prems(1) obtain s1 where s1: "watch_round u goos files s = Inr s1" and r: "watch_rounds u goos rest s1 = Inr s'"
    by (auto split: sum.splits)
  from watch_round_sent[OF s1] obtain h pc where l: "load_ref u goos (cw_configPath (ws_watcher s)) files (ws_heap s) (ws_config s) = (None, h, pc)"
    and s1': "ws_heap s1 = h" "ws_config s1 = pc" "cw_configPath (ws_watcher s1) = cw_configPath (ws_watcher s)"
    and d: "if DeepEqual h (ws_config s) h pc then ws_sent s1 = ws_sent s \<and> ws_watcher s1 = ws_watcher s
       else ws_sent s1 = ws_sent s @ [pc] \<and> cw_lastAppliedConfig (ws_watcher s1) = pc"
    using Cons.prems(2) by metis
  from Cons.prems(3) l have pc: "pc = ws_config s" by simp
  with d have k: "ws_sent s1 = ws_sent s" "ws_watcher s1 = ws_watcher s" by simp_all
  have "ws_sent s' = ws_sent s1"
    by (rule Cons.IH[OF r]) (use k Cons.prems(2,3) l s1' pc in simp_all)
  with k show ?case by simp
qed simp

section \<open>Properties\<close>

text \<open>C35. The first change of the configuration is detected: the watcher stays silent as long as every
  load gives the configuration the process started with, and the first update it sends is the first
  loaded configuration that differs from it.\<close>

theorem first_change_detected:
  assumes "decoder_frame unmarshal" and "ok_ref h config"
    and "ConfigWatcher_Run unmarshal goos rounds h (NewConfigWatcher path period config) = Inr s"
  shows "case find (\<lambda>(h', pc). \<not> DeepEqual h config h' pc)
        (loads unmarshal goos path rounds (h\<lparr>hp_classes := hp_classes h @ [[]]\<rparr>) (default_ref (length (hp_classes h)))) of
      None \<Rightarrow> ws_sent s = []
    | Some (h', pc) \<Rightarrow> \<exists>later. ws_sent s = pc # later"
proof -
  have "map_at (hp_classes h @ [[]]) (cr_StorageClassConfig config) = map_at (hp_classes h) (cr_StorageClassConfig config)"
    using assms(2) by (cases "cr_StorageClassConfig config") (auto simp: map_at_def ok_ref_def nth_append)
  then have "DeepEqual h config (h\<lparr>hp_classes := hp_classes h @ [[]]\<rparr>) config" by (simp add: DeepEqual_def)
  moreover have "apart config (default_ref (length (hp_classes h)))"
    using assms(2) by (auto simp: apart_def default_ref_def ok_ref_def)
  moreover have "ok_ref (h\<lparr>hp_classes := hp_classes h @ [[]]\<rparr>) config"
      "ok_ref (h\<lparr>hp_classes := hp_classes h @ [[]]\<rparr>) (default_ref (length (hp_classes h)))"
    using assms(2) by (auto simp: ok_ref_def default_ref_def less_SucI)
  ultimately show ?thesis
    using watch_rounds_first[OF assms(1) assms(3)[unfolded ConfigWatcher_Run_def NewConfigWatcher_def], of config h]
    by (auto split: option.splits)
qed

text \<open>A decoder for the witnesses: the document is the host directory of the one class it declares,
  which is written into the map the structure refers to.\<close>

definition ex_decoder :: decoder where
  "ex_decoder doc h pc =
     (case cr_StorageClassConfig pc of
        None \<Rightarrow> (Some (ErrOther ''no map''), h, pc)
      | Some a \<Rightarrow> (None, h\<lparr>hp_classes := (hp_classes h)[a := gm_put ''fast'' \<lparr>mc_HostDir = doc, mc_MountDir = ''/mnt'',
          mc_BlockCleanerCommand = None, mc_VolumeMode = [], mc_AccessMode = [], mc_FsType = [], mc_NamePattern = [],
          mc_Selector = []\<rparr> (hp_classes h ! a)]\<rparr>, pc))"

definition ex_files :: "string \<Rightarrow> config_files" where
  "ex_files text = ((\<lambda>_. Inr [(''m'', False)]), (\<lambda>_. Inr text))"

definition ex_heap :: config_heap where
  "ex_heap = \<lparr>hp_classes = [[]], hp_labels = [], hp_names = [], hp_tolerations = []\<rparr>"

lemma ex_decoder_frame: "decoder_frame ex_decoder"
proof -
  have "ok_ref h' pc' \<and> ok_ref h' c \<and> apart c pc' \<and> DeepEqual h c h' c"
    if "ex_decoder doc h pc = (err, h', pc')" "ok_ref h pc" "ok_ref h c" "apart c pc" for doc h pc err h' pc' c
  proof -
    have pc': "pc' = pc" using that(1) by (auto simp: ex_decoder_def split: option.splits)
    have "h' = h \<or> (\<exists>a m. cr_StorageClassConfig pc = Some a \<and> h' = h\<lparr>hp_classes := (hp_classes h)[a := m]\<rparr>)"
      using that(1) by (auto simp: ex_decoder_def split: option.splits)
    then show ?thesis
      using that(2-4) write_classes_frame[of h pc c] by (auto simp: pc')
  qed
  then show ?thesis unfolding decoder_frame_def by blast
qed

theorem first_change_detected_witness:
  "case find (\<lambda>(h', pc). \<not> DeepEqual ex_heap (default_ref 0) h' pc)
        (loads ex_decoder ''linux'' ''/etc'' [ex_files ''a'', ex_files ''b'']
          (ex_heap\<lparr>hp_classes := hp_classes ex_heap @ [[]]\<rparr>) (default_ref (length (hp_classes ex_heap)))) of
      None \<Rightarrow> ws_sent (projr (ConfigWatcher_Run ex_decoder ''linux'' [ex_files ''a'', ex_files ''b''] ex_heap
                (NewConfigWatcher ''/etc'' 5 (default_ref 0)))) = []
    | Some (h', pc) \<Rightarrow> \<exists>later. ws_sent (projr (ConfigWatcher_Run ex_decoder ''linux'' [ex_files ''a'', ex_files ''b''] ex_heap
                (NewConfigWatcher ''/etc'' 5 (default_ref 0)))) = pc # later"
proof (rule first_change_detected[OF ex_decoder_frame])
  show "ok_ref ex_heap (default_ref 0)" by (simp add: ok_ref_def ex_heap_def default_ref_def)
  have "isl (ConfigWatcher_Run ex_decoder ''linux'' [ex_files ''a'', ex_files ''b''] ex_heap
      (NewConfigWatcher ''/etc'' 5 (default_ref 0))) = False" by code_simp
  then show "ConfigWatcher_Run ex_decoder ''linux'' [ex_files ''a'', ex_files ''b''] ex_heap
      (NewConfigWatcher ''/etc'' 5 (default_ref 0))
    = Inr (projr (ConfigWatcher_Run ex_decoder ''linux'' [ex_files ''a'', ex_files ''b''] ex_heap
      (NewConfigWatcher ''/etc'' 5 (default_ref 0))))" by simp
qed

text \<open>C36. Later changes of the storage classes are missed: once an update was sent, the watcher
  remembers the very structure it loads into, so as long as a load only changes what the maps and
  arrays of that structure hold, and not its references and plain fields, no further update is
  ever sent, whatever the files say.\<close>

theorem later_changes_missed:
  assumes "watch_round unmarshal goos files s = Inr s1" and "ws_sent s1 \<noteq> ws_sent s"
    and "watch_rounds unmarshal goos rounds s1 = Inr s2"
    and "\<forall>(h, pc) \<in> set (loads unmarshal goos (cw_configPath (ws_watcher s1)) rounds (ws_heap s1) (ws_config s1)).
           pc = ws_config s1"
  shows "ws_sent s2 = ws_sent s1"
proof -
  from watch_round_sent[OF assms(1)] assms(2) have "cw_lastAppliedConfig (ws_watcher s1) = ws_config s1" by metis
  from watch_rounds_shared[OF assms(3) this assms(4)] show ?thesis .
qed

definition ex_watch :: watch_state where
  "ex_watch = \<lparr>ws_heap = ex_heap\<lparr>hp_classes := [[], []]\<rparr>, ws_watcher = NewConfigWatcher ''/etc'' 5 (default_ref 0),
     ws_config = default_ref 1, ws_sent = []\<rparr>"

definition ex_sent :: watch_state where
  "ex_sent = projr (watch_round ex_decoder ''linux'' (ex_files ''a'') ex_watch)"

definition ex_missed :: watch_state where
  "ex_missed = projr (watch_rounds ex_decoder ''linux'' [ex_files ''b''] ex_sent)"

theorem later_changes_missed_witness:
  "ws_sent ex_missed = ws_sent ex_sent \<and> \<not> DeepEqual (ws_heap ex_sent) (ws_config ex_sent) (ws_heap ex_missed) (ws_config ex_missed)"
proof
  have 1: "isl (watch_round ex_decoder ''linux'' (ex_files ''a'') ex_watch) = False" by code_simp
  have 2: "isl (watch_rounds ex_decoder ''linux'' [ex_files ''b''] ex_sent) = False" by code_simp
  show "ws_sent ex_missed = ws_sent ex_sent"
  proof (rule later_changes_missed)
    show "watch_round ex_decoder ''linux'' (ex_files ''a'') ex_watch = Inr ex_sent" using 1 by (simp add: ex_sent_def)
    show "watch_rounds ex_decoder ''linux'' [ex_files ''b''] ex_sent = Inr ex_missed" using 2 by (simp add: ex_missed_def)
    show "ws_sent ex_sent \<noteq> ws_sent ex_watch" by code_simp
    show "\<forall>(h, pc) \<in> set (loads ex_decoder ''linux'' (cw_configPath (ws_watcher ex_sent)) [ex_files ''b'']
        (ws_heap ex_sent) (ws_config ex_sent)). pc = ws_config ex_sent" by code_simp
  qed
  show "\<not> DeepEqual (ws_heap ex_sent) (ws_config ex_sent) (ws_heap ex_missed) (ws_config ex_missed)" by code_simp
qed

end
