(* ===== verification/Migrate_PV.thy ===== *)
theory Migrate_PV
  imports Discovery
begin

text \<open>
  \<open>cmd/utils/update-pv-to-beta\<close>: the program that moves the node affinity of local volumes from the
  alpha annotation into the spec. The API server is a function of the updates sent so far; the
  listing is given with its error, as the client returns both.
\<close>

declare map_of_eq_Some_iff [simp del] Some_eq_map_of_iff [simp del]

section \<open>The program\<close>

text \<open>\<open>json.Unmarshal\<close> into a \<open>NodeAffinity\<close> gives its required part, which may be nil. The
  annotation reads as the empty string when it is missing.\<close>

definition alpha_annotation :: "persistent_volume \<Rightarrow> string" where
  "alpha_annotation pv =
     (case label_get (om_Annotations (pv_Meta pv)) AlphaStorageNodeAffinityAnnotation of None \<Rightarrow> [] | Some s \<Rightarrow> s)"

definition cloneAndUpdatePV :: "(string \<Rightarrow> node_selector option result) \<Rightarrow> persistent_volume
    \<Rightarrow> persistent_volume result" where
  "cloneAndUpdatePV unmarshal pv =
     (case unmarshal (alpha_annotation pv) of
        Inl err \<Rightarrow> Inl err
      | Inr required \<Rightarrow>
          Inr (pv\<lparr>pv_Meta := (pv_Meta pv)\<lparr>om_Annotations :=
                     map_option (gm_del AlphaStorageNodeAffinityAnnotation) (om_Annotations (pv_Meta pv))\<rparr>,
                  pv_Spec := (pv_Spec pv)\<lparr>pvs_NodeAffinity := Some required\<rparr>\<rparr>))"

type_synonym updates = "(persistent_volume \<times> error option) list"

definition updateLocalPVAlphaAnn :: "(string \<Rightarrow> node_selector option result)
    \<Rightarrow> (updates \<Rightarrow> persistent_volume \<Rightarrow> error option) \<Rightarrow> persistent_volume \<Rightarrow> updates
    \<Rightarrow> error option \<times> updates" where
  "updateLocalPVAlphaAnn unmarshal api pv sent =
     (if pvs_Local (pv_Spec pv) = None then (None, sent)
      else if (case om_Annotations (pv_Meta pv) of None \<Rightarrow> False | Some anns \<Rightarrow> length anns > 0)
              \<and> alpha_annotation pv \<noteq> [] then
        (case cloneAndUpdatePV unmarshal pv of
           Inl err \<Rightarrow> (Some err, sent)
         | Inr pvClone \<Rightarrow>
             let err = api sent pvClone; sent = sent @ [(pvClone, err)] in
             (case err of
                Some e \<Rightarrow> if IsNotFound e then (None, sent) else (Some e, sent)
              | None \<Rightarrow> (None, sent)))
      else (None, sent))"

text \<open>The loop over the items: the error that ends it, whether an update failed, and the updates.\<close>

fun switch_loop :: "(string \<Rightarrow> node_selector option result) \<Rightarrow> (updates \<Rightarrow> persistent_volume \<Rightarrow> error option)
    \<Rightarrow> persistent_volume list \<Rightarrow> bool \<Rightarrow> updates \<Rightarrow> error option \<times> bool \<times> updates" where
  "switch_loop unmarshal api [] updateFailed sent = (None, updateFailed, sent)"
| "switch_loop unmarshal api (pv # pvs) updateFailed sent =
     (case updateLocalPVAlphaAnn unmarshal api pv sent of
        (Some err, sent) \<Rightarrow>
          if IsTooManyRequests err then (Some err, True, sent) else switch_loop unmarshal api pvs True sent
      | (None, sent) \<Rightarrow> switch_loop unmarshal api pvs updateFailed sent)"

definition startSwitchingLocalPVAlphaAnn :: "(string \<Rightarrow> node_selector option result)
    \<Rightarrow> (updates \<Rightarrow> persistent_volume \<Rightarrow> error option) \<Rightarrow> error option \<times> persistent_volume list
    \<Rightarrow> error option \<times> updates" where
  "startSwitchingLocalPVAlphaAnn unmarshal api listing =
     (case listing of (listErr, items) \<Rightarrow>
        if length items = 0 then (None, [])
        else case switch_loop unmarshal api items False [] of
          (Some err, updateFailed, sent) \<Rightarrow> (Some err, sent)
        | (None, updateFailed, sent) \<Rightarrow>
            (if updateFailed then Some (Errorf ''updating local PVs error'' []) else None, sent))"

text \<open>\<open>main\<close>: \<open>Some\<close> is the error the process exits with.\<close>

definition migrate_main :: "(string \<Rightarrow> node_selector option result)
    \<Rightarrow> (updates \<Rightarrow> persistent_volume \<Rightarrow> error option) \<Rightarrow> error option \<times> persistent_volume list
    \<Rightarrow> error option \<times> updates" where
  "migrate_main unmarshal api listing =
     (case startSwitchingLocalPVAlphaAnn unmarshal api listing of
        (Some err, sent) \<Rightarrow> (Some (Wrapf ''update local PVs alpha node affinity to beta error, %v'' [] err), sent)
      | (None, sent) \<Rightarrow> (None, sent))"

section \<open>Lemmas\<close>

text \<open>The volumes to migrate, and the update each of them gets.\<close>

definition alpha_volume :: "persistent_volume \<Rightarrow> bool" where
  "alpha_volume pv \<longleftrightarrow> pvs_Local (pv_Spec pv) \<noteq> None \<and> alpha_annotation pv \<noteq> []"

definition migrated :: "(string \<Rightarrow> node_selector option result) \<Rightarrow> persistent_volume list \<Rightarrow> persistent_volume list" where
  "migrated unmarshal pvs =
     concat (map (\<lambda>pv. case cloneAndUpdatePV unmarshal pv of Inl _ \<Rightarrow> [] | Inr pv' \<Rightarrow> [pv']) (filter alpha_volume pvs))"

lemma migrated_simps [simp]:
  "migrated u [] = []"
  "migrated u (pv # pvs) = (if alpha_volume pv then (case cloneAndUpdatePV u pv of Inl _ \<Rightarrow> [] | Inr pv' \<Rightarrow> [pv']) else [])
     @ migrated u pvs"
  by (simp_all add: migrated_def)

text \<open>An answer that does not count as a failure.\<close>

definition settled :: "error option \<Rightarrow> bool" where
  "settled x \<longleftrightarrow> x = None \<or> x = Some ErrNotFound"

lemma alpha_annotation_nonempty:
  "alpha_annotation pv \<noteq> [] \<Longrightarrow> (case om_Annotations (pv_Meta pv) of None \<Rightarrow> False | Some anns \<Rightarrow> length anns > 0)"
  by (cases "om_Annotations (pv_Meta pv)") (auto simp: alpha_annotation_def split: option.splits)

lemma updateLocalPVAlphaAnn_eq:
  "updateLocalPVAlphaAnn u api pv sent =
     (if \<not> alpha_volume pv then (None, sent)
      else case cloneAndUpdatePV u pv of
        Inl err \<Rightarrow> (Some err, sent)
      | Inr pv' \<Rightarrow> (if settled (api sent pv') then None else api sent pv', sent @ [(pv', api sent pv')]))"
  using alpha_annotation_nonempty[of pv]
  by (auto simp: updateLocalPVAlphaAnn_def alpha_volume_def settled_def Let_def split: sum.splits option.splits)

lemma switch_loop_spec:
  assumes "switch_loop u api pvs failed sent = (err, failed', sent')"
  shows "\<exists>new. sent' = sent @ new \<and> prefix (map fst new) (migrated u pvs)
    \<and> (err = None \<longrightarrow> map fst new = migrated u pvs
         \<and> (failed' \<longleftrightarrow> failed \<or> (\<exists>pv\<in>set pvs. alpha_volume pv \<and> (\<exists>e. cloneAndUpdatePV u pv = Inl e))
              \<or> (\<exists>x\<in>set (map snd new). \<not> settled x)))
    \<and> (\<forall>e. err = Some e \<longrightarrow> IsTooManyRequests e
         \<and> ((\<exists>pv\<in>set pvs. alpha_volume pv \<and> (\<exists>e. cloneAndUpdatePV u pv = Inl e)) \<or> (\<exists>x\<in>set (map snd new). \<not> settled x)))"
  using assms
proof (induction pvs arbitrary: failed sent)
  case (Cons pv pvs)
  obtain e sent1 where u: "updateLocalPVAlphaAnn u api pv sent = (e, sent1)" by fastforce
  show ?case
  proof (cases "alpha_volume pv")
    case False
    with u have "e = None" "sent1 = sent" by (simp_all add: updateLocalPVAlphaAnn_eq)
    with Cons.IH[of failed sent] Cons.prems u False show ?thesis by auto
  next
    case alpha: True
    show ?thesis
    proof (cases "cloneAndUpdatePV u pv")
      case (Inl x)
      with u alpha have e: "e = Some x" "sent1 = sent" by (simp_all add: updateLocalPVAlphaAnn_eq)
      show ?thesis
      proof (cases "IsTooManyRequests x")
        case True
        with Cons.prems u e alpha Inl show ?thesis by auto
      next
        case False
        with Cons.IH[of True sent] Cons.prems u e alpha Inl show ?thesis by auto
      qed
    next
      case (Inr pv')
      let ?x = "api sent pv'"
      from u alpha Inr have e: "e = (if settled ?x then None else ?x)" "sent1 = sent @ [(pv', ?x)]"
        by (simp_all add: updateLocalPVAlphaAnn_eq)
      show ?thesis
      proof (cases "\<exists>y. e = Some y \<and> IsTooManyRequests y")
        case True
        with Cons.prems u have "sent' = sent1" "err = e" by auto
        moreover have "\<not> settled ?x" using True e by (auto split: if_splits)
        ultimately show ?thesis using True e alpha Inr by (intro exI[of _ "[(pv', ?x)]"]) auto
      next
        case False
        let ?f = "failed \<or> e \<noteq> None"
        have "switch_loop u api pvs ?f sent1 = (err, failed', sent')"
          using Cons.prems u False by (cases e) (auto split: if_splits)
        from Cons.IH[OF this] obtain new where n: "sent' = sent1 @ new" "prefix (map fst new) (migrated u pvs)"
          "err = None \<longrightarrow> map fst new = migrated u pvs \<and> (failed' \<longleftrightarrow> ?f
             \<or> (\<exists>pv\<in>set pvs. alpha_volume pv \<and> (\<exists>e. cloneAndUpdatePV u pv = Inl e)) \<or> (\<exists>x\<in>set (map snd new). \<not> settled x))"
          "\<forall>e. err = Some e \<longrightarrow> IsTooManyRequests e
             \<and> ((\<exists>pv\<in>set pvs. alpha_volume pv \<and> (\<exists>e. cloneAndUpdatePV u pv = Inl e)) \<or> (\<exists>x\<in>set (map snd new). \<not> settled x))"
          by blast
        have "e \<noteq> None \<longleftrightarrow> \<not> settled ?x" using e by (auto simp: settled_def)
        with n alpha Inr e show ?thesis by (intro exI[of _ "(pv', ?x) # new"]) auto
      qed
    qed
  qed
qed simp

text \<open>What migrating a volume means: the annotation decodes, the decoded affinity stands in the spec,
  the annotation is gone, and nothing else of the object has changed.\<close>

definition decodes :: "(string \<Rightarrow> node_selector option result) \<Rightarrow> persistent_volume \<Rightarrow> bool" where
  "decodes unmarshal pv \<longleftrightarrow> (\<exists>required. unmarshal (alpha_annotation pv) = Inr required)"

definition migrated_to :: "(string \<Rightarrow> node_selector option result) \<Rightarrow> persistent_volume \<Rightarrow> persistent_volume \<Rightarrow> bool" where
  "migrated_to unmarshal pv pv' \<longleftrightarrow>
     (\<exists>required. unmarshal (alpha_annotation pv) = Inr required
        \<and> pv_Spec pv' = (pv_Spec pv)\<lparr>pvs_NodeAffinity := Some required\<rparr>)
     \<and> (\<forall>k. label_get (om_Annotations (pv_Meta pv')) k =
          (if k = AlphaStorageNodeAffinityAnnotation then None else label_get (om_Annotations (pv_Meta pv)) k))
     \<and> (pv_Meta pv')\<lparr>om_Annotations := om_Annotations (pv_Meta pv)\<rparr> = pv_Meta pv
     \<and> pv_Phase pv' = pv_Phase pv"

lemma clone_decodes: "(\<exists>e. cloneAndUpdatePV u pv = Inl e) \<longleftrightarrow> \<not> decodes u pv"
  by (auto simp: cloneAndUpdatePV_def decodes_def split: sum.splits)

lemma clone_migrated_to:
  assumes "cloneAndUpdatePV u pv = Inr pv'"
  shows "migrated_to u pv pv'"
proof -
  from assms obtain r where r: "u (alpha_annotation pv) = Inr r" and pv': "pv' = pv\<lparr>pv_Meta := (pv_Meta pv)\<lparr>om_Annotations :=
        map_option (gm_del AlphaStorageNodeAffinityAnnotation) (om_Annotations (pv_Meta pv))\<rparr>,
      pv_Spec := (pv_Spec pv)\<lparr>pvs_NodeAffinity := Some r\<rparr>\<rparr>"
    by (auto simp: cloneAndUpdatePV_def split: sum.splits)
  show ?thesis
    by (cases "om_Annotations (pv_Meta pv)") (use r in \<open>simp_all add: pv' migrated_to_def\<close>)
qed

lemma migrated_to_not_alpha: "migrated_to u pv pv' \<Longrightarrow> \<not> alpha_volume pv'"
  by (auto simp: migrated_to_def alpha_volume_def alpha_annotation_def)

lemma migrated_source: "list_all2 (migrated_to u) pvs pvs' \<Longrightarrow> \<forall>pv'\<in>set pvs'. \<exists>pv. migrated_to u pv pv'"
  by (metis in_set_conv_nth list_all2_conv_all_nth)

lemma migrated_all: "list_all2 (migrated_to u) (filter (\<lambda>pv. alpha_volume pv \<and> decodes u pv) pvs) (migrated u pvs)"
proof (induction pvs)
  case (Cons pv pvs)
  then show ?case
    using clone_migrated_to[of u pv] clone_decodes[of u pv] by (cases "cloneAndUpdatePV u pv") auto
qed simp

text \<open>The answers that were recorded are those the API server gave, each after the updates before it.\<close>

definition answered :: "(updates \<Rightarrow> persistent_volume \<Rightarrow> error option) \<Rightarrow> updates \<Rightarrow> bool" where
  "answered api sent \<longleftrightarrow> (\<forall>i<length sent. snd (sent ! i) = api (take i sent) (fst (sent ! i)))"

lemma answered_snoc: "answered api (sent @ [(pv, x)]) \<longleftrightarrow> answered api sent \<and> x = api sent pv"
  by (auto simp: answered_def nth_append less_Suc_eq)

lemma switch_loop_answered:
  "answered api sent \<Longrightarrow> switch_loop u api pvs failed sent = (err, failed', sent') \<Longrightarrow> answered api sent'"
proof (induction pvs arbitrary: failed sent)
  case (Cons pv pvs)
  obtain e sent1 where u: "updateLocalPVAlphaAnn u api pv sent = (e, sent1)" by fastforce
  have a: "answered api sent1"
    using u Cons.prems(1) by (auto simp: updateLocalPVAlphaAnn_eq answered_snoc split: if_splits sum.splits)
  show ?case using Cons.IH[OF a] Cons.prems(2) u a by (auto split: option.splits if_splits)
qed simp

section \<open>Properties\<close>

text \<open>C33. The migration is complete when it reports success, and harmless otherwise, for every listing,
  one that came with an error included, since that error is not looked at: the updates it
  sends are, in order, those of an initial part of the listed alpha volumes whose annotation decodes,
  each with the decoded affinity in its spec, without the annotation and otherwise unchanged, so no
  longer an alpha volume; only a rejection for too many requests leaves volumes out, and it reports
  success exactly if none was left out and every annotation decoded and every update was accepted or
  its volume was gone. A listing that failed and is empty is therefore a success with nothing sent.\<close>

theorem migration_complete:
  assumes "startSwitchingLocalPVAlphaAnn unmarshal api (listErr, items) = (res, sent)"
  shows "\<exists>before rest. filter (\<lambda>pv. alpha_volume pv \<and> decodes unmarshal pv) items = before @ rest
    \<and> list_all2 (migrated_to unmarshal) before (map fst sent)
    \<and> (\<forall>pv'\<in>set (map fst sent). \<not> alpha_volume pv')
    \<and> answered api sent
    \<and> (rest \<noteq> [] \<longrightarrow> (\<exists>e. res = Some e \<and> IsTooManyRequests e))
    \<and> (res = None \<longleftrightarrow> rest = [] \<and> (\<forall>pv\<in>set items. alpha_volume pv \<longrightarrow> decodes unmarshal pv)
         \<and> (\<forall>x\<in>set (map snd sent). settled x))"
proof -
  obtain err f sent' where l: "switch_loop unmarshal api items False [] = (err, f, sent')" by (metis prod_cases3)
  have sent: "sent = sent'" and res: "res = (if err = None then if f then Some (Errorf ''updating local PVs error'' []) else None else err)"
    using assms l by (auto simp: startSwitchingLocalPVAlphaAnn_def split: if_splits option.splits)
  from switch_loop_spec[OF l] have s: "prefix (map fst sent) (migrated unmarshal items)"
    "err = None \<longrightarrow> map fst sent = migrated unmarshal items
       \<and> (f \<longleftrightarrow> (\<exists>pv\<in>set items. alpha_volume pv \<and> \<not> decodes unmarshal pv) \<or> (\<exists>x\<in>set (map snd sent). \<not> settled x))"
    "\<forall>e. err = Some e \<longrightarrow> IsTooManyRequests e
       \<and> ((\<exists>pv\<in>set items. alpha_volume pv \<and> \<not> decodes unmarshal pv) \<or> (\<exists>x\<in>set (map snd sent). \<not> settled x))"
    by (auto simp: sent clone_decodes)
  from s(1) obtain more where m: "migrated unmarshal items = map fst sent @ more" by (elim prefixE)
  from migrated_all[of unmarshal items, unfolded m list_all2_append2] obtain before rest where
    d: "filter (\<lambda>pv. alpha_volume pv \<and> decodes unmarshal pv) items = before @ rest"
      "list_all2 (migrated_to unmarshal) before (map fst sent)" "list_all2 (migrated_to unmarshal) rest more" by blast
  have none: "err = None \<Longrightarrow> rest = []" using s(2) m d(3) by auto
  have na: "\<forall>pv'\<in>set (map fst sent). \<not> alpha_volume pv'"
    using migrated_source[OF d(2)] migrated_to_not_alpha by blast
  have a: "answered api sent" using switch_loop_answered[OF _ l] by (simp add: sent answered_def)
  have "rest \<noteq> [] \<longrightarrow> (\<exists>e. res = Some e \<and> IsTooManyRequests e)" using none s(3) res by (cases err) auto
  moreover have "res = None \<longleftrightarrow> rest = [] \<and> (\<forall>pv\<in>set items. alpha_volume pv \<longrightarrow> decodes unmarshal pv)
         \<and> (\<forall>x\<in>set (map snd sent). settled x)"
    using none s(2,3) res by (cases err) auto
  ultimately show ?thesis using d(1,2) na a by (intro exI[of _ before] exI[of _ rest] conjI)
qed

text \<open>One alpha volume and one other; the affinity it gets is the one its annotation decodes to.\<close>

theorem migration_complete_witness:
  "let pv = (ex_pv ''p'')\<lparr>pv_Meta := empty_meta\<lparr>om_Name := ''p'', om_Annotations := Some [(AlphaStorageNodeAffinityAnnotation, ''{}'')]\<rparr>\<rparr>;
       r = startSwitchingLocalPVAlphaAnn (\<lambda>_. Inr (Some [])) (\<lambda>_ _. None) (None, [pv, ex_pv ''q''])
   in fst r = None \<and> length (snd r) = 1
      \<and> (\<forall>pv'\<in>set (map fst (snd r)). pvs_NodeAffinity (pv_Spec pv') = Some (Some []) \<and> alpha_annotation pv' = [])"
proof -
  let ?u = "\<lambda>_ :: string. Inr (Some []) :: node_selector option result"
  let ?pv = "(ex_pv ''p'')\<lparr>pv_Meta := empty_meta\<lparr>om_Name := ''p'', om_Annotations := Some [(AlphaStorageNodeAffinityAnnotation, ''{}'')]\<rparr>\<rparr>"
  let ?r = "startSwitchingLocalPVAlphaAnn ?u (\<lambda>_ _. None) (None, [?pv, ex_pv ''q''])"
  have 1: "fst ?r = None" "length (snd ?r) = 1" by code_simp+
  obtain before where "list_all2 (migrated_to ?u) before (map fst (snd ?r))"
    using migration_complete[OF prod.collapse[symmetric], where unmarshal = ?u and api = "\<lambda>_ _. None" and listErr = None
        and items = "[?pv, ex_pv ''q'']"] by (elim exE conjE)
  then have "\<forall>pv'\<in>set (map fst (snd ?r)). \<exists>pv. migrated_to ?u pv pv'"
    by (rule migrated_source)
  then have "\<forall>pv'\<in>set (map fst (snd ?r)). pvs_NodeAffinity (pv_Spec pv') = Some (Some []) \<and> alpha_annotation pv' = []"
    by (fastforce simp: migrated_to_def alpha_annotation_def)
  with 1 show ?thesis by (simp only: Let_def)
qed

text \<open>A listing that failed comes with an empty list, and the program takes that for success.\<close>

lemma failed_listing_reported_as_success: "migrate_main unmarshal api (Some err, []) = (None, [])"
  by (simp add: migrate_main_def startSwitchingLocalPVAlphaAnn_def)

text \<open>The object \<open>CreateLocalPVSpec\<close> builds, field by field.\<close>

lemma CreateLocalPVSpec_eq:
  "CreateLocalPVSpec c =
     (if lp_SetPVOwnerRef c \<and> lp_OwnerReference c = None then None
      else Some \<lparr>pv_Meta = \<lparr>om_Name = lp_Name c, om_Namespace = [], om_UID = [], om_Labels = Some (lp_Labels c),
             om_Annotations = Some ((AnnProvisionedBy, lp_ProvisionerName c) #
               (if lp_UseAlphaAPI c then [(AlphaStorageNodeAffinityAnnotation, lp_AffinityAnn c)] else [])),
             om_OwnerReferences = (if lp_SetPVOwnerRef c then [the (lp_OwnerReference c)] else []), om_DeletionTimestamp = None\<rparr>,
           pv_Spec = \<lparr>pvs_Capacity = [(ResourceStorage, lp_Capacity c)],
             pvs_Local = Some \<lparr>lvs_Path = lp_HostPath c, lvs_FSType = lp_FsType c\<rparr>,
             pvs_AccessModes = [if lp_AccessMode c = [] then ReadWriteOnce else lp_AccessMode c], pvs_ClaimRef = None,
             pvs_ReclaimPolicy = lp_ReclaimPolicy c, pvs_StorageClassName = lp_StorageClass c,
             pvs_MountOptions = lp_MountOptions c, pvs_VolumeMode = Some (lp_VolumeMode c),
             pvs_NodeAffinity = (if lp_UseAlphaAPI c then None else lp_NodeAffinity c)\<rparr>,
           pv_Phase = []\<rparr>)"
  by (cases "lp_SetPVOwnerRef c"; cases "lp_OwnerReference c"; cases "lp_UseAlphaAPI c"; cases "lp_AccessMode c = []")
    (simp_all add: CreateLocalPVSpec_def Let_def empty_meta_def)
text \<open>C34. Migrating an alpha volume gives the beta volume: when the discoverer publishes a volume with
  the alpha API and its annotation decodes to the affinity that was encoded, the migration turns the
  object into the one the discoverer would have published without the alpha API.\<close>

theorem alpha_volume_migrates:
  assumes "with_affinity env d config lp = Inr alpha" and "uc_UseAlphaAPI (ds_User d)"
    and "with_affinity env d' config lp = Inr beta" and "\<not> uc_UseAlphaAPI (ds_User d')"
    and "ds_nodeSelector d' = ds_nodeSelector d" and "\<not> lp_UseAlphaAPI lp"
    and "e_MarshalAffinity env (ds_nodeSelector d @ mc_Selector config) = Inr s"
    and "s \<noteq> []" and "unmarshal s = Inr (Some (ds_nodeSelector d @ mc_Selector config))"
    and "CreateLocalPVSpec (with_fstype config alpha) = Some pv"
  shows "alpha_volume pv \<and> (\<exists>pv'. cloneAndUpdatePV unmarshal pv = Inr pv'
    \<and> CreateLocalPVSpec (with_fstype config beta) = Some pv')"
proof -
  let ?sel = "ds_nodeSelector d @ mc_Selector config"
  have alpha: "alpha = lp\<lparr>lp_UseAlphaAPI := True, lp_AffinityAnn := s\<rparr>"
    using assms(1,2,7) by (auto simp: with_affinity_def StorageNodeAffinityToAlphaAnnotation_def Let_def)
  have beta: "beta = lp\<lparr>lp_NodeAffinity := Some (Some ?sel)\<rparr>"
    using assms(3-5) by (auto simp: with_affinity_def Let_def)
  have "alpha_volume pv \<and> cloneAndUpdatePV unmarshal pv = Inr (the (CreateLocalPVSpec (with_fstype config beta)))
    \<and> CreateLocalPVSpec (with_fstype config beta) \<noteq> None"
    using assms(6,8-10)
    by (auto simp: alpha beta CreateLocalPVSpec_eq with_fstype_def alpha_volume_def alpha_annotation_def cloneAndUpdatePV_def
        split: if_splits)
  then show ?thesis by auto
qed

definition ex_alpha_disc :: Discoverer where
  "ex_alpha_disc = ex_disc []\<lparr>ds_RuntimeConfig := ex_rc\<lparr>rc_UserConfig := ex_user\<lparr>uc_UseAlphaAPI := True\<rparr>\<rparr>\<rparr>"

definition ex_lp :: LocalPVConfig where
  "ex_lp = \<lparr>lp_Name = ''local-pv-1'', lp_HostPath = ''/mnt/disks/vol1'', lp_Capacity = 1, lp_StorageClass = ''fast'',
     lp_ReclaimPolicy = PersistentVolumeReclaimDelete, lp_ProvisionerName = ''p'', lp_UseAlphaAPI = False, lp_AffinityAnn = [],
     lp_NodeAffinity = None, lp_VolumeMode = PersistentVolumeBlock, lp_AccessMode = ReadWriteOnce, lp_MountOptions = [],
     lp_FsType = None, lp_Labels = [], lp_SetPVOwnerRef = False, lp_OwnerReference = None\<rparr>"

theorem alpha_volume_migrates_witness:
  "\<exists>pv pv'. alpha_volume pv
     \<and> cloneAndUpdatePV (\<lambda>_. Inr (Some (ds_nodeSelector ex_alpha_disc @ mc_Selector ex_mount))) pv = Inr pv'
     \<and> CreateLocalPVSpec (with_fstype ex_mount (ex_lp\<lparr>lp_UseAlphaAPI := True, lp_AffinityAnn := ''{}''\<rparr>)) = Some pv"
proof -
  have a: "with_affinity ex_env ex_alpha_disc ex_mount ex_lp = Inr (ex_lp\<lparr>lp_UseAlphaAPI := True, lp_AffinityAnn := ''{}''\<rparr>)"
    by (simp add: with_affinity_def StorageNodeAffinityToAlphaAnnotation_def ex_alpha_disc_def ex_env_def)
  have b: "with_affinity ex_env (ex_disc []) ex_mount ex_lp
      = Inr (ex_lp\<lparr>lp_NodeAffinity := Some (Some (ds_nodeSelector (ex_disc []) @ mc_Selector ex_mount))\<rparr>)"
    by (simp add: with_affinity_def ex_disc_def ex_disc_rc_def ex_rc_def ex_user_def Let_def)
  obtain pv where pv: "CreateLocalPVSpec (with_fstype ex_mount (ex_lp\<lparr>lp_UseAlphaAPI := True, lp_AffinityAnn := ''{}''\<rparr>)) = Some pv"
    by (simp add: CreateLocalPVSpec_eq with_fstype_def ex_mount_def ex_lp_def)
  have lp1: "\<not> lp_UseAlphaAPI ex_lp" by (simp add: ex_lp_def)
  have u: "uc_UseAlphaAPI (ds_User ex_alpha_disc)" by (simp add: ex_alpha_disc_def)
  have n: "\<not> uc_UseAlphaAPI (ds_User (ex_disc []))" by (simp add: ex_disc_def ex_disc_rc_def ex_rc_def ex_user_def)
  have sel: "ds_nodeSelector (ex_disc []) = ds_nodeSelector ex_alpha_disc" by (simp add: ex_alpha_disc_def)
  have m: "e_MarshalAffinity ex_env (ds_nodeSelector ex_alpha_disc @ mc_Selector ex_mount) = Inr ''{}''" by (simp add: ex_env_def)
  let ?u = "\<lambda>_. Inr (Some (ds_nodeSelector ex_alpha_disc @ mc_Selector ex_mount))"
  have "alpha_volume pv \<and> (\<exists>pv'. cloneAndUpdatePV ?u pv = Inr pv' \<and> CreateLocalPVSpec (with_fstype ex_mount
      (ex_lp\<lparr>lp_NodeAffinity := Some (Some (ds_nodeSelector (ex_disc []) @ mc_Selector ex_mount))\<rparr>)) = Some pv')"
    by (rule alpha_volume_migrates[OF a u b n sel lp1 m _ _ pv]) simp_all
  then obtain pv' where "alpha_volume pv" "cloneAndUpdatePV ?u pv = Inr pv'" by (elim conjE exE)
  with pv show ?thesis by (intro exI[of _ pv] exI[of _ pv'] conjI)
qed

end
