(* ===== verification/Helm_Values.thy ===== *)
theory Helm_Values
  imports Prelude
begin

text \<open>
  \<open>cmd/utils/update-helm-values-pre-v2.2.0\<close>: the program that rewrites the values file of an old Helm
  chart, with its copy of \<open>chartutil\<close>. A value is what the YAML decoder puts into an \<open>interface{}\<close>, and
  the two types the program adds itself: \<open>chartutil.Values\<close>, which is not a \<open>map[string]interface{}\<close>
  for a type assertion, and a slice of them. The program changes one map in place, so the
  functions pass the current map on.
\<close>

declare map_of_eq_Some_iff [simp del] Some_eq_map_of_iff [simp del]

section \<open>Values\<close>

datatype yaml =
    YNull
  | YBool bool
  | YNumber string
  | YString string
  | YList "yaml list"
  | YTable "(string \<times> yaml) list"
  | YValues "(string \<times> yaml) list"
  | YClasses "(string \<times> yaml) list list"

type_synonym Values = "(string, yaml) gomap"

text \<open>\<open>v.(map[string]interface{})\<close> succeeds.\<close>

fun istable :: "yaml \<Rightarrow> bool" where
  "istable (YTable _) = True"
| "istable _ = False"

text \<open>\<open>AsMap\<close> turns a nil map into an empty one.\<close>

definition AsMap :: "Values \<Rightarrow> Values" where
  "AsMap v = (if v = [] then [] else v)"

text \<open>The error of a missing table also prints the whole map, which is left out.\<close>

definition tableLookup :: "Values \<Rightarrow> string \<Rightarrow> Values \<times> error option" where
  "tableLookup v simple =
     (case gm_get v simple of
        None \<Rightarrow> (v, Some (Errorf ''no table named %q (%v)'' [simple]))
      | Some (YTable vv) \<Rightarrow> (vv, None)
      | Some (YValues vv) \<Rightarrow> (vv, None)
      | Some _ \<Rightarrow> ([], Some (Errorf ''no table named %q'' [simple])))"

fun table_loop :: "string list \<Rightarrow> Values \<Rightarrow> Values \<times> error option" where
  "table_loop [] table = (table, None)"
| "table_loop (n # names) table =
     (case tableLookup table n of
        (table, Some err) \<Rightarrow> (table, Some err)
      | (table, None) \<Rightarrow> table_loop names table)"

definition Table :: "Values \<Rightarrow> string \<Rightarrow> Values \<times> error option" where
  "Table v name = table_loop (Split name (CHR ''.'')) v"

definition PathValue :: "Values \<Rightarrow> string \<Rightarrow> yaml result" where
  "PathValue v ypath =
     (if length ypath = 0 then Inl (Errorf ''YAML path string cannot be zero length'' [])
      else
        let yps = Split ypath (CHR ''.'') in
        if length yps = 1 then
          let vals = AsMap v; k = hd yps in
          (case gm_get vals k of
             Some x \<Rightarrow> if \<not> istable x then Inr x else Inl (Errorf ''%v is not a value'' [k])
           | None \<Rightarrow> Inl (Errorf ''%v is not a value'' [k]))
        else
          let st = Join_with ''.'' (butlast yps); sk = last yps in
          (case Table v st of
             (t, Some err) \<Rightarrow> Inl (Errorf ''%v is not a value'' [sk])
           | (t, None) \<Rightarrow>
               (case gm_get t sk of
                  Some k \<Rightarrow> if \<not> istable k then Inr k else Inl (Errorf ''key not found: %s'' [sk])
                | None \<Rightarrow> Inl (Errorf ''key not found: %s'' [sk]))))"

text \<open>The YAML codec is an argument: it returns an error and the decoded map, \<open>[]\<close> for a nil one.\<close>

definition ReadValues :: "(string \<Rightarrow> Values \<times> error option) \<Rightarrow> string \<Rightarrow> Values \<times> error option" where
  "ReadValues unmarshal data =
     (case unmarshal data of (vals, err) \<Rightarrow> (if length vals = 0 then [] else vals, err))"

definition ReadValuesFile :: "(string \<Rightarrow> Values \<times> error option) \<Rightarrow> (string \<Rightarrow> string result) \<Rightarrow> string
    \<Rightarrow> Values \<times> error option" where
  "ReadValuesFile unmarshal readFile filename =
     (case readFile filename of
        Inl err \<Rightarrow> ([], Some err)
      | Inr data \<Rightarrow> ReadValues unmarshal data)"

definition YAML :: "(Values \<Rightarrow> string \<times> error option) \<Rightarrow> Values \<Rightarrow> string \<times> error option" where
  "YAML marshal v = marshal v"

section \<open>The upgrade\<close>

text \<open>\<open>ErrNoValue\<close> and \<open>ErrNoTable\<close> are declared as interface types with the methods of \<open>error\<close>, so the
  type assertions succeed for every error that is not nil.\<close>

definition isNoValueError :: "error option \<Rightarrow> bool" where
  "isNoValueError err \<longleftrightarrow> err \<noteq> None"

definition isNoTableError :: "error option \<Rightarrow> bool" where
  "isNoTableError err \<longleftrightarrow> err \<noteq> None"

text \<open>Writing to a table in place: the table keeps its type, and a new one is a \<open>Values\<close>.\<close>

definition put_table :: "string \<Rightarrow> Values \<Rightarrow> Values \<Rightarrow> Values" where
  "put_table name table out =
     gm_put name (case gm_get out name of Some (YTable _) \<Rightarrow> YTable table | _ \<Rightarrow> YValues table) out"

text \<open>Find or make the table, then set the key.\<close>

definition set_in_table :: "string \<Rightarrow> string \<Rightarrow> yaml \<Rightarrow> Values \<Rightarrow> Values \<times> error option" where
  "set_in_table name key value out =
     (case Table out name of (table, err) \<Rightarrow>
        if err \<noteq> None \<and> \<not> isNoTableError err then (out, err)
        else (put_table name (gm_put key value (if isNoTableError err then [] else table)) out, None))"

definition move_name :: "Values \<Rightarrow> Values \<times> error option" where
  "move_name out =
     (case PathValue out ''configmap.configMapName'' of
        Inl err \<Rightarrow> if \<not> isNoValueError (Some err) then (out, Some err) else (out, None)
      | Inr configMapName \<Rightarrow> set_in_table ''common'' ''configMapName'' configMapName out)"

definition class_value :: "string \<times> yaml \<Rightarrow> Values" where
  "class_value = (\<lambda>(name, val).
     (case val of
        YTable kvs \<Rightarrow> foldl (\<lambda>m (k, v). gm_put k v m) [(''name'', YString name)] kvs
      | _ \<Rightarrow> [(''name'', YString name)]))"

fun collect_classes :: "yaml list \<Rightarrow> Values list \<Rightarrow> Values list result" where
  "collect_classes [] classes = Inr classes"
| "collect_classes (YTable classMap # rest) classes = collect_classes rest (classes @ map class_value classMap)"
| "collect_classes (_ # rest) classes = Inl (Errorf ''invalid values'' [])"

definition set_pull_policy :: "Values \<Rightarrow> Values \<times> error option" where
  "set_pull_policy out =
     (let r = PathValue out ''daemonset.imagePullPolicy'';
          err = (case r of Inl err \<Rightarrow> Some err | Inr _ \<Rightarrow> None) in
      if err \<noteq> None \<and> \<not> isNoValueError err then (out, err)
      else if r = Inr (YString []) \<or> isNoValueError err then
        set_in_table ''daemonset'' ''imagePullPolicy'' (YString ''Always'') out
      else (out, None))"

definition upgrade :: "Values \<Rightarrow> string \<Rightarrow> Values \<times> error option" where
  "upgrade val engine =
     (case move_name val of
        (out, Some err) \<Rightarrow> (out, Some err)
      | (out, None) \<Rightarrow>
          (case PathValue out (''configmap.'' @ engine @ ''.storageClass'') of
             Inl err \<Rightarrow> (out, Some err)
           | Inr (YList storageClassList) \<Rightarrow>
               (case collect_classes storageClassList [] of
                  Inl err \<Rightarrow> (out, Some err)
                | Inr classes \<Rightarrow> set_pull_policy (gm_del ''configmap'' (gm_put ''classes'' (YClasses classes) out)))
           | Inr _ \<Rightarrow> (out, Some (Errorf ''invalid values'' []))))"

section \<open>The program\<close>

definition supportedEngines :: "string list" where
  "supportedEngines = [''baremetal'', ''gcePre19'', ''gcePost19'', ''gke'']"

text \<open>How the process ends: with the usage text, with a message about the engine, with a fatal error,
  or after writing.\<close>

datatype helm_exit = Usage | BadEngine | Fatal error | Done

record helm_io =
  h_files :: "(string, string) gomap"
  h_stdout :: string

text \<open>The file system: reading a missing file fails, opening the output may fail and otherwise empties
  the file. The result of \<open>WriteString\<close> is not looked at.\<close>

definition helm_read :: "helm_io \<Rightarrow> string \<Rightarrow> string result" where
  "helm_read io name =
     (case gm_get (h_files io) name of None \<Rightarrow> Inl (ErrOther ''no such file or directory'') | Some s \<Rightarrow> Inr s)"

definition helm_write :: "string \<Rightarrow> string \<Rightarrow> helm_io \<Rightarrow> helm_io" where
  "helm_write out text io =
     (if out = ''-'' then io\<lparr>h_stdout := h_stdout io @ text\<rparr> else io\<lparr>h_files := gm_put out text (h_files io)\<rparr>)"

definition helm_main :: "(string \<Rightarrow> Values \<times> error option) \<Rightarrow> (Values \<Rightarrow> string \<times> error option)
    \<Rightarrow> (string \<Rightarrow> error option) \<Rightarrow> string \<Rightarrow> string \<Rightarrow> string \<Rightarrow> helm_io \<Rightarrow> helm_exit \<times> helm_io" where
  "helm_main unmarshal marshal openErr optInput optOutput optEngine io =
     (if optInput = [] \<or> optOutput = [] then (Usage, io)
      else if optEngine \<notin> set supportedEngines then (BadEngine, io)
      else
        case (if optOutput = ''-'' then None else openErr optOutput) of
          Some err \<Rightarrow> (Fatal err, io)
        | None \<Rightarrow>
            let io = (if optOutput = ''-'' then io else helm_write optOutput [] io) in
            (case ReadValuesFile unmarshal (helm_read io) optInput of
               (inVal, Some err) \<Rightarrow> (Fatal err, io)
             | (inVal, None) \<Rightarrow>
                 (case upgrade inVal optEngine of
                    (outVal, Some err) \<Rightarrow> (Fatal err, io)
                  | (outVal, None) \<Rightarrow>
                      (case YAML marshal outVal of
                         (outStr, Some err) \<Rightarrow> (Fatal err, io)
                       | (outStr, None) \<Rightarrow> (Done, helm_write optOutput outStr io)))))"

section \<open>Lemmas\<close>

lemma tableLookup_cong: "gm_get v n = gm_get v' n \<Longrightarrow> snd (tableLookup v n) = snd (tableLookup v' n)
    \<and> (snd (tableLookup v n) = None \<longrightarrow> tableLookup v n = tableLookup v' n)"
  by (auto simp: tableLookup_def split: option.splits yaml.splits)

text \<open>A path is looked up below its first component.\<close>

definition leaf_value :: "Values \<Rightarrow> string \<Rightarrow> yaml result" where
  "leaf_value t sk =
     (case gm_get t sk of
        Some k \<Rightarrow> if \<not> istable k then Inr k else Inl (Errorf ''key not found: %s'' [sk])
      | None \<Rightarrow> Inl (Errorf ''key not found: %s'' [sk]))"

definition below_table :: "string list \<Rightarrow> Values \<Rightarrow> yaml result" where
  "below_table path t =
     (case table_loop (butlast path) t of
        (t, Some err) \<Rightarrow> Inl (Errorf ''%v is not a value'' [last path])
      | (t, None) \<Rightarrow> leaf_value t (last path))"

lemma PathValue_sub:
  assumes "CHR ''.'' \<notin> set n"
  shows "PathValue v (n @ CHR ''.'' # p) =
    (case tableLookup v n of
       (t, Some err) \<Rightarrow> Inl (Errorf ''%v is not a value'' [last (Split p (CHR ''.''))])
     | (t, None) \<Rightarrow> below_table (Split p (CHR ''.'')) t)"
proof -
  let ?ps = "Split p (CHR ''.'')"
  have s: "Split (n @ CHR ''.'' # p) (CHR ''.'') = n # ?ps" using assms by (rule Split_append_sep)
  have "\<forall>q\<in>set (n # butlast ?ps). CHR ''.'' \<notin> set q"
    using assms Split_no_sep[of _ p "CHR ''.''"] by (auto dest: in_set_butlastD)
  then have "Split (Join_with ''.'' (n # butlast ?ps)) (CHR ''.'') = n # butlast ?ps"
    by (intro Split_Join) simp_all
  then have t: "Table v (Join_with ''.'' (n # butlast ?ps)) = table_loop (n # butlast ?ps) v"
    by (simp only: Table_def)
  have "PathValue v (n @ CHR ''.'' # p) = (case Table v (Join_with ''.'' (n # butlast ?ps)) of
       (t, Some err) \<Rightarrow> Inl (Errorf ''%v is not a value'' [last ?ps])
     | (t, None) \<Rightarrow> leaf_value t (last ?ps))"
    unfolding PathValue_def s Let_def leaf_value_def by (simp cong: option.case_cong prod.case_cong if_cong)
  then show ?thesis
    unfolding t below_table_def by (auto split: prod.splits option.splits)
qed

lemma PathValue_cong:
  assumes "CHR ''.'' \<notin> set n" "gm_get v n = gm_get v' n"
  shows "PathValue v (n @ CHR ''.'' # p) = PathValue v' (n @ CHR ''.'' # p)"
  using tableLookup_cong[OF assms(2)] unfolding PathValue_sub[OF assms(1)]
  by (cases "tableLookup v n"; cases "tableLookup v' n") (auto split: option.splits)

lemma Table_single: "CHR ''.'' \<notin> set n \<Longrightarrow> Table v n = tableLookup v n"
  by (cases "tableLookup v n") (auto simp: Table_def Split_single split: option.splits)

text \<open>The table under a key, and a table in which one key has been set.\<close>

definition table_of :: "Values \<Rightarrow> string \<Rightarrow> Values option" where
  "table_of v n = (case gm_get v n of Some (YTable t) \<Rightarrow> Some t | Some (YValues t) \<Rightarrow> Some t | _ \<Rightarrow> None)"

definition table_with :: "Values option \<Rightarrow> string \<Rightarrow> yaml \<Rightarrow> Values option \<Rightarrow> bool" where
  "table_with old k x new \<longleftrightarrow> (\<exists>t. new = Some t
     \<and> (\<forall>j. gm_get t j = (if j = k then Some x else case old of None \<Rightarrow> None | Some t\<^sub>0 \<Rightarrow> gm_get t\<^sub>0 j)))"

lemma table_of_cong: "gm_get v n = gm_get v' n \<Longrightarrow> table_of v n = table_of v' n"
  by (simp add: table_of_def)

lemma tableLookup_table: "table_of v n = (case tableLookup v n of (t, None) \<Rightarrow> Some t | (t, Some err) \<Rightarrow> None)"
  by (auto simp: tableLookup_def table_of_def split: option.splits yaml.splits)

lemma set_in_table_spec:
  assumes "CHR ''.'' \<notin> set n"
  shows "\<exists>out'. set_in_table n k x out = (out', None) \<and> table_with (table_of out n) k x (table_of out' n)
    \<and> (\<forall>m. m \<noteq> n \<longrightarrow> gm_get out' m = gm_get out m)"
proof -
  obtain t e where l: "tableLookup out n = (t, e)" by fastforce
  let ?t = "gm_put k x (if e = None then t else [])"
  have s: "set_in_table n k x out = (put_table n ?t out, None)"
    using l by (auto simp: set_in_table_def Table_single[OF assms(1)] isNoTableError_def)
  have n: "table_of (put_table n ?t out) n = Some ?t"
    by (auto simp: table_of_def put_table_def split: option.splits yaml.splits)
  have o: "table_of out n = (if e = None then Some t else None)" using l by (auto simp: tableLookup_table split: option.splits)
  have "table_with (table_of out n) k x (table_of (put_table n ?t out) n)" unfolding n o by (cases e) (simp_all add: table_with_def)
  then show ?thesis unfolding s by (simp add: put_table_def)
qed

text \<open>The content of \<open>common\<close> after the name was moved, and of \<open>daemonset\<close> after the policy was set.\<close>

definition name_moved :: "Values \<Rightarrow> Values \<Rightarrow> bool" where
  "name_moved val out \<longleftrightarrow>
     (case PathValue val ''configmap.configMapName'' of
        Inl _ \<Rightarrow> gm_get out ''common'' = gm_get val ''common''
      | Inr x \<Rightarrow> table_with (table_of val ''common'') ''configMapName'' x (table_of out ''common''))"

definition policy_set :: "Values \<Rightarrow> Values \<Rightarrow> bool" where
  "policy_set val out \<longleftrightarrow>
     (if \<exists>x. PathValue val ''daemonset.imagePullPolicy'' = Inr x \<and> x \<noteq> YString []
      then gm_get out ''daemonset'' = gm_get val ''daemonset''
      else table_with (table_of val ''daemonset'') ''imagePullPolicy'' (YString ''Always'') (table_of out ''daemonset''))"

lemma move_name_spec:
  "\<exists>out. move_name val = (out, None) \<and> (\<forall>m. m \<noteq> ''common'' \<longrightarrow> gm_get out m = gm_get val m) \<and> name_moved val out"
proof (cases "PathValue val ''configmap.configMapName''")
  case (Inl e)
  then show ?thesis by (simp add: move_name_def isNoValueError_def name_moved_def)
next
  case (Inr x)
  from set_in_table_spec[of "''common''" "''configMapName''" x val]
  obtain out where "set_in_table ''common'' ''configMapName'' x val = (out, None)"
    "table_with (table_of val ''common'') ''configMapName'' x (table_of out ''common'')"
    "\<forall>m. m \<noteq> ''common'' \<longrightarrow> gm_get out m = gm_get val m" by auto
  with Inr show ?thesis unfolding move_name_def name_moved_def by (simp only: sum.case) blast
qed

lemma set_pull_policy_spec:
  "\<exists>out'. set_pull_policy out = (out', None) \<and> (\<forall>m. m \<noteq> ''daemonset'' \<longrightarrow> gm_get out' m = gm_get out m) \<and> policy_set out out'"
proof (cases "\<exists>x. PathValue out ''daemonset.imagePullPolicy'' = Inr x \<and> x \<noteq> YString []")
  case True
  then have "set_pull_policy out = (out, None)" by (auto simp: set_pull_policy_def isNoValueError_def Let_def)
  moreover from True have "policy_set out out" unfolding policy_set_def by (simp only: if_True)
  ultimately show ?thesis by blast
next
  case False
  then have "set_pull_policy out = set_in_table ''daemonset'' ''imagePullPolicy'' (YString ''Always'') out"
    by (cases "PathValue out ''daemonset.imagePullPolicy''") (auto simp: set_pull_policy_def isNoValueError_def Let_def)
  with set_in_table_spec[of "''daemonset''" "''imagePullPolicy''" "YString ''Always''" out]
  show ?thesis unfolding policy_set_def if_not_P[OF False] by auto
qed

text \<open>What an entry of a class table becomes: its settings together with its name. The keys of a Go
  map are distinct.\<close>

definition class_of :: "string \<times> yaml \<Rightarrow> Values \<Rightarrow> bool" where
  "class_of entry m \<longleftrightarrow>
     (case snd entry of
        YTable kvs \<Rightarrow> gm_inv kvs \<longrightarrow>
          (\<forall>k. gm_get m k = (case gm_get kvs k of
             Some v \<Rightarrow> Some v | None \<Rightarrow> if k = ''name'' then Some (YString (fst entry)) else None))
      | _ \<Rightarrow> m = [(''name'', YString (fst entry))])"

lemma foldl_gm_put:
  "gm_inv kvs \<Longrightarrow> gm_get (foldl (\<lambda>m (k, v). gm_put k v m) m kvs) j = (case gm_get kvs j of Some v \<Rightarrow> Some v | None \<Rightarrow> gm_get m j)"
proof (induction kvs arbitrary: m)
  case (Cons kv kvs)
  obtain k v where kv: "kv = (k, v)" by fastforce
  have "gm_get kvs k = None" using Cons.prems kv by (simp add: map_of_eq_None_iff)
  with Cons kv show ?case by (simp split: option.splits)
qed simp

lemma class_value_spec: "class_of entry (class_value entry)"
  by (cases entry; cases "snd entry") (auto simp: class_of_def class_value_def foldl_gm_put split: option.splits)

lemma collect_classes_tables: "collect_classes (map YTable ms) classes = Inr (classes @ map class_value (concat ms))"
  by (induction ms arbitrary: classes) simp_all

lemma collect_classes_only: "collect_classes cs classes = Inr classes' \<Longrightarrow> \<exists>ms. cs = map YTable ms"
proof (induction cs arbitrary: classes)
  case (Cons c cs)
  then obtain m where "c = YTable m" by (cases c) simp_all
  with Cons obtain ms where "c # cs = map YTable (m # ms)" by fastforce
  then show ?case by (rule exI)
qed simp

text \<open>The whole upgrade, by what the path of the storage classes holds.\<close>

abbreviation class_path :: "string \<Rightarrow> string" where
  "class_path engine \<equiv> ''configmap.'' @ engine @ ''.storageClass''"

lemma upgrade_eq:
  "\<exists>out. (\<forall>m. m \<noteq> ''common'' \<longrightarrow> gm_get out m = gm_get val m) \<and> name_moved val out
    \<and> upgrade val engine =
        (case PathValue val (class_path engine) of
           Inl err \<Rightarrow> (out, Some err)
         | Inr (YList cs) \<Rightarrow>
             (case collect_classes cs [] of
                Inl err \<Rightarrow> (out, Some err)
              | Inr classes \<Rightarrow> set_pull_policy (gm_del ''configmap'' (gm_put ''classes'' (YClasses classes) out)))
         | Inr _ \<Rightarrow> (out, Some (Errorf ''invalid values'' [])))"
proof -
  obtain out where m: "move_name val = (out, None)" "\<forall>m. m \<noteq> ''common'' \<longrightarrow> gm_get out m = gm_get val m"
    "name_moved val out"
    using move_name_spec by blast
  have "PathValue out (class_path engine) = PathValue val (class_path engine)"
    using PathValue_cong[of "''configmap''" out val "engine @ ''.storageClass''"] m(2) by simp
  then have "upgrade val engine =
        (case PathValue val (class_path engine) of
           Inl err \<Rightarrow> (out, Some err)
         | Inr (YList cs) \<Rightarrow>
             (case collect_classes cs [] of
                Inl err \<Rightarrow> (out, Some err)
              | Inr classes \<Rightarrow> set_pull_policy (gm_del ''configmap'' (gm_put ''classes'' (YClasses classes) out)))
         | Inr _ \<Rightarrow> (out, Some (Errorf ''invalid values'' [])))"
    by (simp only: upgrade_def m(1) prod.case option.case)
  with m(2,3) show ?thesis by blast
qed

text \<open>What a successful upgrade makes of the values and of the entries of the class tables.\<close>

definition upgraded :: "Values \<Rightarrow> (string \<times> yaml) list \<Rightarrow> Values \<Rightarrow> bool" where
  "upgraded val entries out \<longleftrightarrow>
     gm_get out ''configmap'' = None
     \<and> (\<exists>classes. gm_get out ''classes'' = Some (YClasses classes) \<and> list_all2 class_of entries classes)
     \<and> name_moved val out \<and> policy_set val out
     \<and> (\<forall>m. m \<notin> {''configmap'', ''classes'', ''common'', ''daemonset''} \<longrightarrow> gm_get out m = gm_get val m)"

lemma upgrade_ok:
  assumes "PathValue val (class_path engine) = Inr (YList (map YTable ms))"
  shows "\<exists>out. upgrade val engine = (out, None) \<and> upgraded val (concat ms) out"
proof -
  let ?classes = "map class_value (concat ms)"
  from upgrade_eq[of val engine] obtain out where m: "\<forall>m. m \<noteq> ''common'' \<longrightarrow> gm_get out m = gm_get val m"
    and name: "name_moved val out"
    and u: "upgrade val engine = set_pull_policy (gm_del ''configmap'' (gm_put ''classes'' (YClasses ?classes) out))"
    by (simp only: assms sum.case yaml.case collect_classes_tables self_append_conv2 append_Nil) (elim exE conjE)
  let ?o = "gm_del ''configmap'' (gm_put ''classes'' (YClasses ?classes) out)"
  obtain out' where p: "set_pull_policy ?o = (out', None)" "\<forall>m. m \<noteq> ''daemonset'' \<longrightarrow> gm_get out' m = gm_get ?o m"
    and policy: "policy_set ?o out'"
    using set_pull_policy_spec[of ?o] by (elim exE conjE)
  have c: "gm_get out' ''common'' = gm_get out ''common''" and d: "gm_get ?o ''daemonset'' = gm_get val ''daemonset''"
    using p(2) m by simp_all
  have "upgraded val (concat ms) out'"
    unfolding upgraded_def
  proof (intro conjI)
    show "gm_get out' ''configmap'' = None" using p(2) by simp
    show "\<exists>classes. gm_get out' ''classes'' = Some (YClasses classes) \<and> list_all2 class_of (concat ms) classes"
      using p(2) class_value_spec by (intro exI[of _ ?classes]) (simp add: list_all2_conv_all_nth)
    show "name_moved val out'"
      using name table_of_cong[OF c] c unfolding name_moved_def by (auto split: sum.splits)
    have "PathValue ?o ''daemonset.imagePullPolicy'' = PathValue val ''daemonset.imagePullPolicy''"
      using PathValue_cong[OF _ d, of "''imagePullPolicy''"] by simp
    with policy show "policy_set val out'" by (simp only: policy_set_def d table_of_cong[OF d])
    show "\<forall>m. m \<notin> {''configmap'', ''classes'', ''common'', ''daemonset''} \<longrightarrow> gm_get out' m = gm_get val m"
      using p(2) m by simp
  qed
  with u p(1) show ?thesis by (intro exI[of _ out'] conjI) (simp_all only:)
qed

lemma upgrade_fails:
  assumes "\<nexists>ms. PathValue val (class_path engine) = Inr (YList (map YTable ms))"
  shows "snd (upgrade val engine) \<noteq> None"
proof -
  from upgrade_eq[of val engine] obtain out where u: "upgrade val engine =
        (case PathValue val (class_path engine) of
           Inl err \<Rightarrow> (out, Some err)
         | Inr (YList cs) \<Rightarrow>
             (case collect_classes cs [] of
                Inl err \<Rightarrow> (out, Some err)
              | Inr classes \<Rightarrow> set_pull_policy (gm_del ''configmap'' (gm_put ''classes'' (YClasses classes) out)))
         | Inr _ \<Rightarrow> (out, Some (Errorf ''invalid values'' [])))" by blast
  have "\<exists>err. collect_classes cs [] = Inl err" if "PathValue val (class_path engine) = Inr (YList cs)" for cs
    using assms that collect_classes_only[of cs "[]"] by (cases "collect_classes cs []") (auto simp del: append.simps)
  then show ?thesis
    unfolding u by (cases "PathValue val (class_path engine)"; cases "projr (PathValue val (class_path engine))")
      (auto split: sum.splits simp del: append.simps)
qed

lemma PathValue_missing:
  "CHR ''.'' \<notin> set n \<Longrightarrow> gm_get v n = None \<Longrightarrow> PathValue v (n @ CHR ''.'' # p) = Inl (Errorf ''%v is not a value'' [last (Split p (CHR ''.''))])"
  by (simp add: PathValue_sub tableLookup_def)

lemma upgrade_without_configmap:
  assumes "gm_get val ''configmap'' = None"
  shows "snd (upgrade val engine) \<noteq> None"
proof (rule upgrade_fails)
  have "class_path engine = ''configmap'' @ CHR ''.'' # engine @ ''.storageClass''" by simp
  with PathValue_missing[OF _ assms, of "engine @ ''.storageClass''"]
  have "\<exists>e. PathValue val (class_path engine) = Inl e" by simp
  then show "\<nexists>ms. PathValue val (class_path engine) = Inr (YList (map YTable ms))" by auto
qed

section \<open>Properties\<close>

text \<open>C37. The upgrade of a values file: it fails exactly if the storage classes of the engine are missing
  or are not a list of tables, whatever else is wrong with the file; otherwise the section
  \<open>configmap\<close> is gone and \<open>classes\<close> holds, in their order, one class per entry of those tables with the
  entry's settings and its name; the table \<open>common\<close> is the old one with the name of the config map
  set in it, or is left alone when there was no name; the section \<open>daemonset\<close> is left alone when it has a pull policy
  that is not empty and is otherwise the old table with \<open>Always\<close> set in it; and every other section is as it was.\<close>

theorem helm_upgrade_spec:
  "if \<exists>ms. PathValue val (class_path engine) = Inr (YList (map YTable ms))
   then \<exists>ms out. PathValue val (class_path engine) = Inr (YList (map YTable ms))
     \<and> upgrade val engine = (out, None) \<and> upgraded val (concat ms) out
   else snd (upgrade val engine) \<noteq> None"
proof (cases "\<exists>ms. PathValue val (class_path engine) = Inr (YList (map YTable ms))")
  case True
  then obtain ms where c: "PathValue val (class_path engine) = Inr (YList (map YTable ms))"
    by (elim exE)
  from upgrade_ok[OF c] c show ?thesis unfolding if_P[OF True] by (elim exE conjE) (intro exI conjI)
next
  case False
  show ?thesis unfolding if_not_P[OF False] using False by (rule upgrade_fails)
qed

text \<open>The first case of the repository's own test: the other key of \<open>common\<close> stays.\<close>

definition ex_values :: Values where
  "ex_values =
     [(''common'', YTable [(''useAlphaAPI'', YBool True)]),
      (''configmap'', YTable [(''baremetal'', YTable [(''storageClass'', YList [YTable [(''fast-disks'',
          YTable [(''hostDir'', YString ''/mnt/fast-disks'')])]])]), (''configMapName'', YString ''local-provisioner-test'')])]"

theorem helm_upgrade_spec_witness:
  "\<exists>out c t. upgrade ex_values ''baremetal'' = (out, None)
     \<and> gm_get out ''classes'' = Some (YClasses [c])
     \<and> gm_get c ''name'' = Some (YString ''fast-disks'') \<and> gm_get c ''hostDir'' = Some (YString ''/mnt/fast-disks'')
     \<and> table_of out ''common'' = Some t
     \<and> gm_get t ''useAlphaAPI'' = Some (YBool True) \<and> gm_get t ''configMapName'' = Some (YString ''local-provisioner-test'')"
proof -
  let ?ms = "[[(''fast-disks'', YTable [(''hostDir'', YString ''/mnt/fast-disks'')])]]"
  have c: "PathValue ex_values (class_path ''baremetal'') = Inr (YList (map YTable ?ms))"
    and n: "PathValue ex_values ''configmap.configMapName'' = Inr (YString ''local-provisioner-test'')"
    and o: "table_of ex_values ''common'' = Some [(''useAlphaAPI'', YBool True)]"
    by code_simp+
  have inj: "map YTable ms = map YTable ms' \<Longrightarrow> ms = ms'" for ms ms' by (rule map_injective) (auto simp: inj_def)
  from c have "\<exists>ms. PathValue ex_values (class_path ''baremetal'') = Inr (YList (map YTable ms))" by (rule exI)
  from helm_upgrade_spec[of ex_values "''baremetal''", unfolded if_P[OF this]] obtain ms out where
    m: "PathValue ex_values (class_path ''baremetal'') = Inr (YList (map YTable ms))"
    and u: "upgrade ex_values ''baremetal'' = (out, None)" "upgraded ex_values (concat ms) out" by (elim exE conjE)
  have ms: "ms = ?ms" using m c inj by (simp only: sum.inject yaml.inject)
  from u(2) obtain classes where cl: "gm_get out ''classes'' = Some (YClasses classes)" "list_all2 class_of (concat ms) classes"
    and nm: "name_moved ex_values out" unfolding upgraded_def by (elim conjE exE)
  from cl(2) obtain k where k: "classes = [k]" "class_of (''fast-disks'', YTable [(''hostDir'', YString ''/mnt/fast-disks'')]) k"
    unfolding ms by (auto simp: list_all2_Cons1)
  from nm obtain t where t: "table_of out ''common'' = Some t" "\<forall>j. gm_get t j = (if j = ''configMapName''
      then Some (YString ''local-provisioner-test'') else gm_get [(''useAlphaAPI'', YBool True)] j)"
    unfolding name_moved_def n o by (auto simp: table_with_def)
  show ?thesis
    using u(1) cl(1) k t by (intro exI[of _ out] exI[of _ k] exI[of _ t] conjI) (auto simp: class_of_def)
qed

text \<open>An upgraded file cannot be upgraded again.\<close>

lemma upgrade_once:
  assumes "upgrade val engine = (out, None)"
  shows "snd (upgrade out engine') \<noteq> None"
proof (rule upgrade_without_configmap)
  from assms upgrade_fails[of val engine] obtain ms
    where "PathValue val (class_path engine) = Inr (YList (map YTable ms))" by auto
  from upgrade_ok[OF this] assms have "upgraded val (concat ms) out" by simp
  then show "gm_get out ''configmap'' = None" by (simp only: upgraded_def)
qed

text \<open>Writing the result over the input destroys it: the output is emptied before the input is read.\<close>

lemma in_place_upgrade_destroys:
  assumes "f \<noteq> []" "f \<noteq> ''-''" "engine \<in> set supportedEngines" "openErr f = None" "unmarshal [] = ([], None)"
  shows "\<exists>err io'. helm_main unmarshal marshal openErr f f engine io = (Fatal err, io') \<and> gm_get (h_files io') f = Some []"
proof -
  obtain out err where u: "upgrade [] engine = (out, Some err)"
    using upgrade_without_configmap[of "[]" engine] by (cases "upgrade [] engine") auto
  show ?thesis
    using assms u by (simp add: helm_main_def ReadValuesFile_def ReadValues_def helm_read_def helm_write_def)
qed

end
