(* ===== verification/CSI_Proxy.thy ===== *)
theory CSI_Proxy
  imports Common
begin

text \<open>
  \<open>pkg/util/csi_proxy_v1_windows.go\<close> and \<open>csi_proxy_v1beta_windows.go\<close>: the two clients of the CSI
  proxy that the Windows volume utility can use, over the generated gRPC clients, which are records
  of functions here, and the constructor of the Windows volume utility. What the utility needs of a
  client is a locale that both clients interpret.
\<close>

section \<open>The v1 client\<close>

record v1_stats =
  v1_TotalBytes :: int
  v1_UsedBytes :: int

record v1_volume_client =
  v1_GetVolumeIDFromTargetPath :: "string \<Rightarrow> string result"
  v1_GetVolumeStats :: "string \<Rightarrow> v1_stats result"
  v1_FormatVolume :: "string \<Rightarrow> error option"

record v1_filesystem_client =
  v1_IsSymlink :: "string \<Rightarrow> bool result"

record CSIProxyV1 =
  v1_VolumeClient :: v1_volume_client
  v1_FilesystemClient :: v1_filesystem_client

definition NewCSIProxyV1 :: "v1_volume_client result \<Rightarrow> v1_filesystem_client result \<Rightarrow> CSIProxyV1 result" where
  "NewCSIProxyV1 volumeClient filesystemClient =
     (case volumeClient of
        Inl err \<Rightarrow> Inl err
      | Inr vc \<Rightarrow>
          (case filesystemClient of
             Inl err \<Rightarrow> Inl err
           | Inr fc \<Rightarrow> Inr \<lparr>v1_VolumeClient = vc, v1_FilesystemClient = fc\<rparr>))"

definition V1_GetAPIVersions :: "string \<Rightarrow> string" where
  "V1_GetAPIVersions version = ''API Versions Volume: '' @ version"

definition V1_GetVolumeId :: "CSIProxyV1 \<Rightarrow> string \<Rightarrow> string result" where
  "V1_GetVolumeId proxy mountPath =
     (case v1_GetVolumeIDFromTargetPath (v1_VolumeClient proxy) mountPath of Inl err \<Rightarrow> Inl err | Inr volumeId \<Rightarrow> Inr volumeId)"

definition V1_GetVolumeStats :: "CSIProxyV1 \<Rightarrow> string \<Rightarrow> (int \<times> int) result" where
  "V1_GetVolumeStats proxy volumeId =
     (case v1_GetVolumeStats (v1_VolumeClient proxy) volumeId of
        Inl err \<Rightarrow> Inl err
      | Inr response \<Rightarrow> Inr (v1_TotalBytes response, v1_UsedBytes response))"

definition V1_FormatVolume :: "CSIProxyV1 \<Rightarrow> string \<Rightarrow> error option" where
  "V1_FormatVolume proxy volumeId =
     (case v1_FormatVolume (v1_VolumeClient proxy) volumeId of Some err \<Rightarrow> Some err | None \<Rightarrow> None)"

definition V1_IsSymlink :: "CSIProxyV1 \<Rightarrow> string \<Rightarrow> bool result" where
  "V1_IsSymlink proxy mountPath =
     (case v1_IsSymlink (v1_FilesystemClient proxy) mountPath of Inl err \<Rightarrow> Inl err | Inr isSymlink \<Rightarrow> Inr isSymlink)"

text \<open>The client as a \<open>CSIProxy\<close>.\<close>

definition as_CSIProxyV1 :: "CSIProxyV1 \<Rightarrow> CSIProxy" where
  "as_CSIProxyV1 proxy =
     \<lparr>csi_GetVolumeId = V1_GetVolumeId proxy, csi_GetVolumeStats = V1_GetVolumeStats proxy,
      csi_FormatVolume = V1_FormatVolume proxy, csi_IsSymlink = V1_IsSymlink proxy\<rparr>"

section \<open>The v1beta client\<close>

record v1beta_stats =
  v1beta_VolumeSize :: int
  v1beta_VolumeUsedSize :: int

record v1beta_volume_client =
  v1beta_GetVolumeIDFromMount :: "string \<Rightarrow> string result"
  v1beta_VolumeStats :: "string \<Rightarrow> v1beta_stats result"
  v1beta_FormatVolume :: "string \<Rightarrow> error option"

record v1beta_filesystem_client =
  v1beta_IsSymlink :: "string \<Rightarrow> bool result"

record CSIProxyV1Beta =
  v1beta_VolumeClient :: v1beta_volume_client
  v1beta_FilesystemClient :: v1beta_filesystem_client

definition NewCSIProxyV1Beta :: "v1beta_volume_client result \<Rightarrow> v1beta_filesystem_client result \<Rightarrow> CSIProxyV1Beta result" where
  "NewCSIProxyV1Beta volumeClient filesystemClient =
     (case volumeClient of
        Inl err \<Rightarrow> Inl err
      | Inr vc \<Rightarrow>
          (case filesystemClient of
             Inl err \<Rightarrow> Inl err
           | Inr fc \<Rightarrow> Inr \<lparr>v1beta_VolumeClient = vc, v1beta_FilesystemClient = fc\<rparr>))"

definition V1Beta_GetAPIVersions :: "string \<Rightarrow> string" where
  "V1Beta_GetAPIVersions version = ''API Versions Volume: '' @ version"

definition V1Beta_GetVolumeId :: "CSIProxyV1Beta \<Rightarrow> string \<Rightarrow> string result" where
  "V1Beta_GetVolumeId proxy mountPath =
     (case v1beta_GetVolumeIDFromMount (v1beta_VolumeClient proxy) mountPath of Inl err \<Rightarrow> Inl err | Inr volumeId \<Rightarrow> Inr volumeId)"

definition V1Beta_GetVolumeStats :: "CSIProxyV1Beta \<Rightarrow> string \<Rightarrow> (int \<times> int) result" where
  "V1Beta_GetVolumeStats proxy volumeId =
     (case v1beta_VolumeStats (v1beta_VolumeClient proxy) volumeId of
        Inl err \<Rightarrow> Inl err
      | Inr response \<Rightarrow> Inr (v1beta_VolumeSize response, v1beta_VolumeUsedSize response))"

definition V1Beta_FormatVolume :: "CSIProxyV1Beta \<Rightarrow> string \<Rightarrow> error option" where
  "V1Beta_FormatVolume proxy volumeId =
     (case v1beta_FormatVolume (v1beta_VolumeClient proxy) volumeId of Some err \<Rightarrow> Some err | None \<Rightarrow> None)"

definition V1Beta_IsSymlink :: "CSIProxyV1Beta \<Rightarrow> string \<Rightarrow> bool result" where
  "V1Beta_IsSymlink proxy mountPath =
     (case v1beta_IsSymlink (v1beta_FilesystemClient proxy) mountPath of Inl err \<Rightarrow> Inl err | Inr isSymlink \<Rightarrow> Inr isSymlink)"

text \<open>The client as a \<open>CSIProxy\<close>.\<close>

definition as_CSIProxyV1Beta :: "CSIProxyV1Beta \<Rightarrow> CSIProxy" where
  "as_CSIProxyV1Beta proxy =
     \<lparr>csi_GetVolumeId = V1Beta_GetVolumeId proxy, csi_GetVolumeStats = V1Beta_GetVolumeStats proxy,
      csi_FormatVolume = V1Beta_FormatVolume proxy, csi_IsSymlink = V1Beta_IsSymlink proxy\<rparr>"

section \<open>The Windows volume utility\<close>

definition Win_NewVolumeUtil :: "os \<Rightarrow> CSIProxyV1 result \<Rightarrow> CSIProxyV1Beta result \<Rightarrow> VolumeUtil result" where
  "Win_NewVolumeUtil os v1 v1beta =
     (case NewCSIProxy (map_sum id as_CSIProxyV1 v1) (map_sum id as_CSIProxyV1Beta v1beta) of
        Inl err \<Rightarrow> Inl err
      | Inr csiProxy \<Rightarrow> Inr (windows_VolumeUtil os csiProxy))"

section \<open>What the utility needs of a client\<close>

text \<open>A client answers from a volume service: the volume behind a host path, the size of a volume,
  formatting a volume, and whether a host path is a link.\<close>

locale csi_client =
  fixes proxy :: "'c \<Rightarrow> CSIProxy"
    and volume_at :: "'c \<Rightarrow> string \<Rightarrow> string result"
    and size_of :: "'c \<Rightarrow> string \<Rightarrow> int result"
    and format_volume :: "'c \<Rightarrow> string \<Rightarrow> error option"
    and is_link :: "'c \<Rightarrow> string \<Rightarrow> bool result"
  assumes get_id: "csi_GetVolumeId (proxy c) p = volume_at c p"
    and get_stats: "map_sum id fst (csi_GetVolumeStats (proxy c) v) = size_of c v"
    and format_law: "csi_FormatVolume (proxy c) v = format_volume c v"
    and link_law: "csi_IsSymlink (proxy c) p = is_link c p"
begin

lemma capacity:
  "Win_GetFsCapacityByte (proxy c) hostPath mountPath = (case volume_at c hostPath of Inl e \<Rightarrow> Inl e | Inr v \<Rightarrow> size_of c v)"
  by (auto simp: Win_GetFsCapacityByte_def get_id get_stats[symmetric] split: sum.splits)

lemma cleaning:
  "Win_DeleteContents (proxy c) hostPath mountPath = (case volume_at c hostPath of Inl e \<Rightarrow> Some e | Inr v \<Rightarrow> format_volume c v)"
  by (auto simp: Win_DeleteContents_def get_id format_law split: sum.splits option.splits)

lemma mount_point:
  "Win_IsLikelyMountPoint (proxy c) hostPath mountPath m = (True, None) \<longleftrightarrow> is_link c hostPath = Inr True"
  by (auto simp: Win_IsLikelyMountPoint_def link_law split: sum.splits)

text \<open>The utility sees nothing of the client but these four answers.\<close>

lemma same_utility:
  assumes "volume_at c = volume_at c'" "size_of c = size_of c'" "is_link c = is_link c'"
  shows "windows_VolumeUtil os (proxy c) = windows_VolumeUtil os (proxy c')"
  using assms capacity[of c] capacity[of c']
  by (auto simp: windows_VolumeUtil_def Win_IsLikelyMountPoint_def link_law fun_eq_iff split: sum.splits)

end

interpretation v1: csi_client as_CSIProxyV1
    "\<lambda>c. v1_GetVolumeIDFromTargetPath (v1_VolumeClient c)"
    "\<lambda>c v. map_sum id v1_TotalBytes (v1_GetVolumeStats (v1_VolumeClient c) v)"
    "\<lambda>c. v1_FormatVolume (v1_VolumeClient c)" "\<lambda>c. v1_IsSymlink (v1_FilesystemClient c)"
  by unfold_locales
    (auto simp: as_CSIProxyV1_def V1_GetVolumeId_def V1_GetVolumeStats_def V1_FormatVolume_def V1_IsSymlink_def
      split: sum.splits option.splits)

interpretation v1beta: csi_client as_CSIProxyV1Beta
    "\<lambda>c. v1beta_GetVolumeIDFromMount (v1beta_VolumeClient c)"
    "\<lambda>c v. map_sum id v1beta_VolumeSize (v1beta_VolumeStats (v1beta_VolumeClient c) v)"
    "\<lambda>c. v1beta_FormatVolume (v1beta_VolumeClient c)" "\<lambda>c. v1beta_IsSymlink (v1beta_FilesystemClient c)"
  by unfold_locales
    (auto simp: as_CSIProxyV1Beta_def V1Beta_GetVolumeId_def V1Beta_GetVolumeStats_def V1Beta_FormatVolume_def
      V1Beta_IsSymlink_def split: sum.splits option.splits)

text \<open>Falling back to v1beta changes nothing: when only the older client connects and the service gives
  the answers the newer one would have given, the volume utility behaves the same.\<close>

lemma csi_fallback_equivalent:
  assumes "\<And>p. v1beta_GetVolumeIDFromMount (v1beta_VolumeClient b) p = v1_GetVolumeIDFromTargetPath (v1_VolumeClient a) p"
    and "\<And>v. map_sum id v1beta_VolumeSize (v1beta_VolumeStats (v1beta_VolumeClient b) v)
           = map_sum id v1_TotalBytes (v1_GetVolumeStats (v1_VolumeClient a) v)"
    and "\<And>v. v1beta_FormatVolume (v1beta_VolumeClient b) v = v1_FormatVolume (v1_VolumeClient a) v"
    and "\<And>p. v1beta_IsSymlink (v1beta_FilesystemClient b) p = v1_IsSymlink (v1_FilesystemClient a) p"
  shows "Win_NewVolumeUtil os (Inl e) (Inr b) = Win_NewVolumeUtil os (Inr a) r"
    and "Win_DeleteContents (as_CSIProxyV1Beta b) h m = Win_DeleteContents (as_CSIProxyV1 a) h m"
proof -
  have "windows_VolumeUtil os (as_CSIProxyV1Beta b) = windows_VolumeUtil os (as_CSIProxyV1 a)"
    using assms by (auto simp: windows_VolumeUtil_def Win_IsLikelyMountPoint_def v1.link_law v1beta.link_law
        v1.capacity v1beta.capacity fun_eq_iff split: sum.splits)
  then show "Win_NewVolumeUtil os (Inl e) (Inr b) = Win_NewVolumeUtil os (Inr a) r"
    by (simp add: Win_NewVolumeUtil_def NewCSIProxy_def)
  show "Win_DeleteContents (as_CSIProxyV1Beta b) h m = Win_DeleteContents (as_CSIProxyV1 a) h m"
    using assms by (auto simp: v1.cleaning v1beta.cleaning split: sum.splits)
qed

end
