(* ===== verification/Node_Cleanup_System.thy ===== *)
theory Node_Cleanup_System
  imports Node_Cleanup
begin

text \<open>
  The node-cleanup program as a whole: \<open>CleanupController.Run\<close> with its workers, the handler for deleted
  nodes, the timers of the queue and the deleter's scans, interleaved in any order. A worker is
  either waiting for a key or holds the one it is handling; the handling of a key, whose only request
  comes last, is one step.
\<close>

declare map_of_eq_Some_iff [simp del] Some_eq_map_of_iff [simp del]

section \<open>The system\<close>

record nc_sys =
  nc_state :: nc_state
  nc_workers :: "string option list"

text \<open>The workers, all waiting for a key.\<close>

definition start_workers :: "nat \<Rightarrow> nc_state \<Rightarrow> nc_sys" where
  "start_workers workers s = \<lparr>nc_state = s, nc_workers = replicate workers None\<rparr>"

text \<open>\<open>Run\<close>. \<open>WaitForCacheSync\<close> gives up only when the context is done; otherwise \<open>Run\<close> starts the workers and
  the timers of the volumes that are stale already, and waits until the context is done, \<open>others\<close>
  being what the workers and the other goroutines do in the meantime. When it returns it shuts the
  queue down; the result is \<open>None\<close> while it has not returned.\<close>

definition nc_ShutDown :: "nc_sys \<Rightarrow> nc_sys" where
  "nc_ShutDown y = y\<lparr>nc_state := (nc_state y)\<lparr>ns_queue := wq_ShutDown (ns_queue (nc_state y))\<rparr>\<rparr>"

definition CleanupController_Run :: "nc_env \<Rightarrow> CleanupController \<Rightarrow> bool \<Rightarrow> bool \<Rightarrow> nat \<Rightarrow> (nc_sys \<Rightarrow> nc_sys) \<Rightarrow> nc_state
    \<Rightarrow> error option option \<times> nc_sys" where
  "CleanupController_Run env c synced ctxDone workers others s =
     (if \<not> synced then
        if ctxDone then (Some (Some (Errorf ''failed to wait for caches to sync'' [])), nc_ShutDown (start_workers 0 s))
        else (None, start_workers 0 s)
      else
        let y = start_workers workers s;
            y = y\<lparr>nc_state := startCleanupTimersIfNeeded env c (nc_state y)\<rparr>;
            y = others y in
        if ctxDone then (Some None, nc_ShutDown y) else (None, y))"

text \<open>The second half of \<open>processNextWorkItem\<close>, for a key a worker has taken.\<close>

definition handle_key :: "nc_env \<Rightarrow> string \<Rightarrow> nc_state \<Rightarrow> nc_state" where
  "handle_key env pvName s =
     (case syncHandler env pvName s of
        (Some err, s) \<Rightarrow>
          s\<lparr>ns_queue := wq_Done pvName
              (wq_AddRateLimited (ne_now env (ns_trace s)) (ne_bucket env (ns_trace s)) pvName (ns_queue s))\<rparr>
      | (None, s) \<Rightarrow> s\<lparr>ns_queue := wq_Done pvName (wq_Forget pvName (ns_queue s))\<rparr>)"

lemma processNextWorkItem_split:
  "wq_Get (ns_queue s) = (Item k, q) \<Longrightarrow> processNextWorkItem env s = (Some True, handle_key env k (s\<lparr>ns_queue := q\<rparr>))"
  by (auto simp: processNextWorkItem_def handle_key_def Let_def split: option.splits prod.splits)

inductive nc_step :: "nc_env \<Rightarrow> CleanupController \<Rightarrow> NC_Deleter \<Rightarrow> nc_sys \<Rightarrow> nc_sys \<Rightarrow> bool"
  for env c d where
  take_key: "wq_Get (ns_queue s) = (Item k, q) \<Longrightarrow>
     nc_step env c d \<lparr>nc_state = s, nc_workers = xs @ None # ys\<rparr>
                     \<lparr>nc_state = s\<lparr>ns_queue := q\<rparr>, nc_workers = xs @ Some k # ys\<rparr>"
| handled: "nc_step env c d \<lparr>nc_state = s, nc_workers = xs @ Some k # ys\<rparr>
                            \<lparr>nc_state = handle_key env k s, nc_workers = xs @ None # ys\<rparr>"
| timers: "nc_step env c d \<lparr>nc_state = s, nc_workers = ws\<rparr>
                           \<lparr>nc_state = s\<lparr>ns_queue := wq_tick (ne_now env (ns_trace s)) (ns_queue s)\<rparr>, nc_workers = ws\<rparr>"
| deleted_node: "nc_step env c d \<lparr>nc_state = s, nc_workers = ws\<rparr> \<lparr>nc_state = nodeDeleted env c s, nc_workers = ws\<rparr>"
| scan: "nc_step env c d \<lparr>nc_state = s, nc_workers = ws\<rparr> \<lparr>nc_state = NC_DeletePVs env d s, nc_workers = ws\<rparr>"
| stop: "nc_step env c d \<lparr>nc_state = s, nc_workers = ws\<rparr>
                         \<lparr>nc_state = s\<lparr>ns_queue := wq_ShutDown (ns_queue s)\<rparr>, nc_workers = ws\<rparr>"

inductive nc_reachable :: "nc_env \<Rightarrow> CleanupController \<Rightarrow> NC_Deleter \<Rightarrow> nat \<Rightarrow> nc_sys \<Rightarrow> bool"
  for env c d n where
  nc_start: "nc_reachable env c d n (start_workers n \<lparr>ns_queue = wq_New, ns_trace = []\<rparr>)"
| nc_next: "nc_reachable env c d n s \<Longrightarrow> nc_step env c d s s' \<Longrightarrow> nc_reachable env c d n s'"

lemma nc_reachable_steps:
  "(nc_step env c d)\<^sup>*\<^sup>* s s' \<Longrightarrow> nc_reachable env c d n s \<Longrightarrow> nc_reachable env c d n s'"
  by (induction rule: rtranclp_induct) (auto intro: nc_next)

text \<open>\<open>Run\<close> is a run of this system, so what holds in every reachable state holds when it returns.\<close>

lemma Run_reachable:
  assumes "nc_reachable env c d n (start_workers n s)" "\<And>y. (nc_step env c d)\<^sup>*\<^sup>* y (others y)"
  shows "nc_reachable env c d n (snd (CleanupController_Run env c True ctxDone n others s))"
proof -
  let ?y = "\<lparr>nc_state = nodeDeleted env c s, nc_workers = replicate n None\<rparr>"
  have "nc_step env c d (start_workers n s) ?y" unfolding start_workers_def by (rule deleted_node)
  with assms(1) have "nc_reachable env c d n ?y" by (rule nc_next)
  from nc_reachable_steps[OF assms(2) this] have o: "nc_reachable env c d n (others ?y)" .
  have "nc_step env c d y (nc_ShutDown y)" for y :: nc_sys
    unfolding nc_ShutDown_def by (cases y) (simp add: nc_step.stop)
  from nc_next[OF o this] o show ?thesis
    by (simp add: CleanupController_Run_def Let_def start_workers_def nodeDeleted_def)
qed

text \<open>What happens while there are no workers yet can also happen beside idle ones.\<close>

lemma nc_step_no_workers:
  assumes "nc_step env c d y y'" "nc_workers y = []"
  shows "nc_workers y' = [] \<and> nc_step env c d (start_workers n (nc_state y)) (start_workers n (nc_state y'))"
  using assms by cases (auto simp: start_workers_def intro: nc_step.intros)

lemma early_reachable:
  assumes "(nc_step env c d)\<^sup>*\<^sup>* (start_workers 0 \<lparr>ns_queue = wq_New, ns_trace = []\<rparr>) y"
  shows "nc_workers y = [] \<and> nc_reachable env c d n (start_workers n (nc_state y))"
  using assms
proof (induction rule: rtranclp_induct)
  case base
  show ?case using nc_start by (simp add: start_workers_def)
next
  case (step y z)
  with nc_step_no_workers[of env c d y z n] show ?case by (blast intro: nc_next)
qed

section \<open>What the log may hold\<close>

text \<open>The keys the workers hold.\<close>

definition held :: "nc_sys \<Rightarrow> string list" where
  "held s = concat (map (\<lambda>w. case w of None \<Rightarrow> [] | Some k \<Rightarrow> [k]) (nc_workers s))"

lemma held_simps [simp]:
  "held \<lparr>nc_state = s, nc_workers = xs @ None # ys\<rparr> = held \<lparr>nc_state = s, nc_workers = xs\<rparr> @ held \<lparr>nc_state = s, nc_workers = ys\<rparr>"
  "held \<lparr>nc_state = s, nc_workers = xs @ Some k # ys\<rparr>
     = held \<lparr>nc_state = s, nc_workers = xs\<rparr> @ k # held \<lparr>nc_state = s, nc_workers = ys\<rparr>"
  "held \<lparr>nc_state = s, nc_workers = replicate n None\<rparr> = []"
  by (simp_all add: held_def)

lemma held_state: "held \<lparr>nc_state = s, nc_workers = ws\<rparr> = held \<lparr>nc_state = s', nc_workers = ws\<rparr>"
  by (simp add: held_def)

text \<open>A claim may be deleted when it is orphaned at that moment, a volume when it was listed before and
  is stale at that moment; \<open>nodes\<close> is the index of the nodes as a function of the log.\<close>

definition nc_allowed :: "nc_env \<Rightarrow> (trace \<Rightarrow> (string, node) gomap) \<Rightarrow> string list \<Rightarrow> trace \<Rightarrow> effect \<Rightarrow> bool" where
  "nc_allowed env nodes classes tr e \<longleftrightarrow>
     (\<forall>ns n uid x. e = Call (ReqDeletePVC ns n uid) x \<longrightarrow>
        (\<exists>k pv pvc. l_Get (ne_pvs env tr) k = Inr pv \<and> node_gone (nodes tr) pv \<and> bound_claim env tr pv pvc
           \<and> pvc_request pvc = ReqDeletePVC ns n uid))
     \<and> (\<forall>n x. e = Call (ReqDeletePV n) x \<longrightarrow>
        (\<exists>pv tr' pvs. prefix tr' tr \<and> l_List (ne_pvs env tr') (\<lambda>_. True) = Inr pvs \<and> pv \<in> set pvs \<and> pv_Name pv = n
           \<and> stale (nodes tr) classes pv))"

definition nc_trace_ok :: "nc_env \<Rightarrow> (trace \<Rightarrow> (string, node) gomap) \<Rightarrow> string list \<Rightarrow> trace \<Rightarrow> bool" where
  "nc_trace_ok env nodes classes tr \<longleftrightarrow> (\<forall>xs e ys. tr = xs @ e # ys \<longrightarrow> nc_allowed env nodes classes xs e)"

lemma nc_trace_ok_Nil [simp]: "nc_trace_ok env nodes classes []"
  by (simp add: nc_trace_ok_def)

lemma nc_trace_ok_snoc:
  "nc_trace_ok env nodes classes (tr @ [e]) \<longleftrightarrow> nc_trace_ok env nodes classes tr \<and> nc_allowed env nodes classes tr e"
proof
  assume a: "nc_trace_ok env nodes classes (tr @ [e])"
  have "nc_allowed env nodes classes xs f" if "tr = xs @ f # ys" for xs f ys
    using a that unfolding nc_trace_ok_def by (metis append_Cons append_assoc)
  with a show "nc_trace_ok env nodes classes tr \<and> nc_allowed env nodes classes tr e"
    unfolding nc_trace_ok_def by blast
next
  assume a: "nc_trace_ok env nodes classes tr \<and> nc_allowed env nodes classes tr e"
  have "nc_allowed env nodes classes xs f" if t: "tr @ [e] = xs @ f # ys" for xs f ys
  proof (cases ys rule: rev_cases)
    case Nil
    with t a show ?thesis by simp
  next
    case (snoc zs z)
    with t have "tr = xs @ f # zs" by simp
    with a show ?thesis unfolding nc_trace_ok_def by blast
  qed
  then show "nc_trace_ok env nodes classes (tr @ [e])" unfolding nc_trace_ok_def by blast
qed

lemma nc_allowed_quiet: "(\<And>r x. e \<noteq> Call r x) \<Longrightarrow> nc_allowed env nodes classes tr e"
  by (simp add: nc_allowed_def)

lemma nc_trace_ok_quiet:
  "nc_trace_ok env nodes classes tr \<Longrightarrow> requests es = [] \<Longrightarrow> nc_trace_ok env nodes classes (tr @ es)"
proof (induction es rule: rev_induct)
  case (snoc e es)
  then have "requests es = []" "requests [e] = []" by simp_all
  then have "nc_allowed env nodes classes (tr @ es) e" by (intro nc_allowed_quiet) auto
  with snoc.IH[OF snoc.prems(1) \<open>requests es = []\<close>] show ?case
    using nc_trace_ok_snoc[of env nodes classes "tr @ es" e] by simp
qed simp

lemma nc_trace_ok_call:
  assumes "nc_trace_ok env nodes classes tr" "nc_allowed env nodes classes tr e" "requests es = []"
  shows "nc_trace_ok env nodes classes (tr @ e # es)"
  using nc_trace_ok_quiet[of env nodes classes "tr @ [e]" es] assms by (simp add: nc_trace_ok_snoc)

section \<open>The steps\<close>

lemma handle_key_queue:
  assumes "wq_inv (ns_queue s)" "k \<in> wq_processing (ns_queue s)"
  shows "wq_inv (ns_queue (handle_key env k s))" "wq_processing (ns_queue (handle_key env k s)) = wq_processing (ns_queue s) - {k}"
    "ns_trace (handle_key env k s) = ns_trace (snd (syncHandler env k s))"
proof -
  obtain err s' where h: "syncHandler env k s = (err, s')" by fastforce
  then have q: "ns_queue s' = ns_queue s" using syncHandler_grows(2)[of env k s] by simp
  show "wq_inv (ns_queue (handle_key env k s))" "wq_processing (ns_queue (handle_key env k s)) = wq_processing (ns_queue s) - {k}"
    "ns_trace (handle_key env k s) = ns_trace (snd (syncHandler env k s))"
    using assms h q by (auto simp: handle_key_def wq_Done_inv split: option.splits)
qed

lemma start_timer_grows:
  "\<exists>es. ns_trace (start_timer env c pv s) = ns_trace s @ es \<and> requests es = []
     \<and> (ns_queue (start_timer env c pv s) = ns_queue s
        \<or> (\<exists>now. ns_queue (start_timer env c pv s) = wq_AddAfter now (pv_Name pv) (cc_pvcDeletionDelay c) (ns_queue s)))"
  by (auto simp: start_timer_def Let_def split: option.splits)

lemma start_timers_grows:
  "\<exists>es. ns_trace (start_timers env c pvs s) = ns_trace s @ es \<and> requests es = []
     \<and> wq_processing (ns_queue (start_timers env c pvs s)) = wq_processing (ns_queue s)
     \<and> (wq_inv (ns_queue s) \<longrightarrow> wq_inv (ns_queue (start_timers env c pvs s)))"
proof (induction pvs arbitrary: s)
  case (Cons pv pvs)
  obtain es where es: "ns_trace (start_timer env c pv s) = ns_trace s @ es" "requests es = []"
    "wq_processing (ns_queue (start_timer env c pv s)) = wq_processing (ns_queue s)"
    "wq_inv (ns_queue s) \<longrightarrow> wq_inv (ns_queue (start_timer env c pv s))"
    using start_timer_grows[of env c pv s] by auto
  with Cons[of "start_timer env c pv s"] obtain es2
    where "ns_trace (start_timers env c pvs (start_timer env c pv s)) = ns_trace s @ (es @ es2)" "requests es2 = []"
      "wq_processing (ns_queue (start_timers env c pvs (start_timer env c pv s))) = wq_processing (ns_queue s)"
      "wq_inv (ns_queue s) \<longrightarrow> wq_inv (ns_queue (start_timers env c pvs (start_timer env c pv s)))"
    by auto
  with es(2) show ?case by (intro exI[of _ "es @ es2"]) simp
qed auto

lemma nodeDeleted_grows:
  "\<exists>es. ns_trace (nodeDeleted env c s) = ns_trace s @ es \<and> requests es = []
     \<and> wq_processing (ns_queue (nodeDeleted env c s)) = wq_processing (ns_queue s)
     \<and> (wq_inv (ns_queue s) \<longrightarrow> wq_inv (ns_queue (nodeDeleted env c s)))"
  using start_timers_grows by (auto simp: nodeDeleted_def startCleanupTimersIfNeeded_def split: sum.splits)

lemma delete_stale_queue [simp]: "ns_queue (delete_stale env d pv s) = ns_queue s"
  by (auto simp: delete_stale_def NC_deletePV_def ns_call_def Let_def split: option.splits)

lemma delete_stale_ok:
  assumes "index_ok node_Name (nodes (ns_trace s))" "ne_nodes env (ns_trace s) = indexer_lister (nodes (ns_trace s))"
    and "nc_trace_ok env nodes (nd_storageClassNames d) (ns_trace s)"
    and "prefix tr (ns_trace s)" "l_List (ne_pvs env tr) (\<lambda>_. True) = Inr pvs" "pv \<in> set pvs"
  shows "nc_trace_ok env nodes (nd_storageClassNames d) (ns_trace (delete_stale env d pv s)) \<and> prefix tr (ns_trace (delete_stale env d pv s))"
proof (cases "stale (nodes (ns_trace s)) (nd_storageClassNames d) pv")
  case True
  then have "delete_stale env d pv s =
      (case NC_deletePV env (pv_Name pv) s of
         (Some err, s) \<Rightarrow> ns_emit (Inc NC_PersistentVolumeDeleteFailedTotal [pv_Phase pv]) s
       | (None, s) \<Rightarrow> ns_emit (Inc NC_PersistentVolumeDeleteTotal [pv_Phase pv]) s)"
    by (auto simp: delete_stale_def stale_def IsLocalPVWithStorageClass_def references_iff[OF assms(1,2)] Let_def)
  moreover obtain err s' where n: "NC_deletePV env (pv_Name pv) s = (err, s')" by fastforce
  ultimately obtain x es where t: "ns_trace (delete_stale env d pv s) = ns_trace s @ Call (ReqDeletePV (pv_Name pv)) x # es"
    "requests es = []"
    using NC_deletePV_spec[OF n] by (auto split: option.splits)
  have "nc_allowed env nodes (nd_storageClassNames d) (ns_trace s) (Call (ReqDeletePV (pv_Name pv)) x)"
    using True assms(4-6) by (auto simp: nc_allowed_def)
  from nc_trace_ok_call[OF assms(3) this t(2)] t(1) assms(4) show ?thesis by simp
next
  case False
  then have "delete_stale env d pv s = s"
    by (auto simp: delete_stale_def stale_def IsLocalPVWithStorageClass_def references_iff[OF assms(1,2)] Let_def)
  with assms(3,4) show ?thesis by simp
qed

lemma NC_DeletePVs_ok:
  assumes idx: "\<And>tr. index_ok node_Name (nodes tr) \<and> ne_nodes env tr = indexer_lister (nodes tr)"
    and "nc_trace_ok env nodes (nd_storageClassNames d) (ns_trace s)"
  shows "nc_trace_ok env nodes (nd_storageClassNames d) (ns_trace (NC_DeletePVs env d s)) \<and> ns_queue (NC_DeletePVs env d s) = ns_queue s"
proof (cases "l_List (ne_pvs env (ns_trace s)) (\<lambda>_. True)")
  case (Inl e)
  with assms(2) show ?thesis by (simp add: NC_DeletePVs_def)
next
  case (Inr pvs)
  have "nc_trace_ok env nodes (nd_storageClassNames d) (ns_trace (delete_stale_all env d vs t)) \<and> ns_queue (delete_stale_all env d vs t) = ns_queue t"
    if "set vs \<subseteq> set pvs" "nc_trace_ok env nodes (nd_storageClassNames d) (ns_trace t)" "prefix (ns_trace s) (ns_trace t)" for vs t
    using that
  proof (induction vs arbitrary: t)
    case (Cons v vs)
    from delete_stale_ok[OF _ _ Cons.prems(2,3) Inr, of v] idx Cons.prems(1)
    have "nc_trace_ok env nodes (nd_storageClassNames d) (ns_trace (delete_stale env d v t))"
      "prefix (ns_trace s) (ns_trace (delete_stale env d v t))" by auto
    from Cons.IH[OF _ this] Cons.prems(1) show ?case by simp
  qed simp
  from this[of pvs s] assms(2) Inr show ?thesis by (simp add: NC_DeletePVs_def)
qed

lemma syncHandler_ok:
  assumes idx: "\<And>tr. index_ok node_Name (nodes tr) \<and> ne_nodes env tr = indexer_lister (nodes tr)"
    and "nc_trace_ok env nodes classes (ns_trace s)"
  shows "nc_trace_ok env nodes classes (ns_trace (snd (syncHandler env k s)))"
proof (cases "\<exists>pv pvc. l_Get (ne_pvs env (ns_trace s)) k = Inr pv \<and> node_gone (nodes (ns_trace s)) pv \<and> bound_claim env (ns_trace s) pv pvc")
  case True
  then obtain pv pvc where o: "l_Get (ne_pvs env (ns_trace s)) k = Inr pv" "node_gone (nodes (ns_trace s)) pv"
    "bound_claim env (ns_trace s) pv pvc" by blast
  from syncHandler_orphan[OF _ _ o] idx obtain x es
    where t: "ns_trace (snd (syncHandler env k s)) = ns_trace s @ Call (pvc_request pvc) x # es" "requests es = []" by fastforce
  have "nc_allowed env nodes classes (ns_trace s) (Call (pvc_request pvc) x)"
    using o by (auto simp: nc_allowed_def pvc_request_def)
  from nc_trace_ok_call[OF assms(2) this t(2)] t(1) show ?thesis by simp
next
  case False
  from syncHandler_no_orphan[OF _ _ False] idx assms(2) show ?thesis by simp
qed

section \<open>Properties\<close>

definition nc_inv :: "nc_env \<Rightarrow> (trace \<Rightarrow> (string, node) gomap) \<Rightarrow> string list \<Rightarrow> nc_sys \<Rightarrow> bool" where
  "nc_inv env nodes classes s \<longleftrightarrow> wq_inv (ns_queue (nc_state s)) \<and> distinct (held s)
     \<and> wq_processing (ns_queue (nc_state s)) = set (held s) \<and> nc_trace_ok env nodes classes (ns_trace (nc_state s))"

lemma nc_step_inv:
  assumes "nc_step env c d s s'" "\<And>tr. index_ok node_Name (nodes tr) \<and> ne_nodes env tr = indexer_lister (nodes tr)"
    "nc_inv env nodes (nd_storageClassNames d) s"
  shows "nc_inv env nodes (nd_storageClassNames d) s'"
  using assms(1,3)
proof (cases rule: nc_step.cases)
  case (take_key t k q xs ys)
  with assms(3) have "wq_inv (ns_queue t)" by (simp add: nc_inv_def)
  from wq_Get_item[OF this take_key(3)] wq_Get_inv[OF this take_key(3)] take_key assms(3) show ?thesis
    by (auto simp: nc_inv_def held_state[of "t\<lparr>ns_queue := q\<rparr>" _ t])
next
  case (handled t xs k ys)
  with assms(3) have i: "wq_inv (ns_queue t)" "k \<in> wq_processing (ns_queue t)" by (auto simp: nc_inv_def)
  from syncHandler_ok[OF assms(2), of "nd_storageClassNames d" t k] handle_key_queue[OF i, of env] handled assms(3)
  show ?thesis by (auto simp: nc_inv_def held_state[of "handle_key env k t" _ t])
next
  case (timers t ws)
  with assms(3) show ?thesis by (simp add: nc_inv_def held_def)
next
  case (deleted_node t ws)
  with assms(3) nodeDeleted_grows[of env c t] show ?thesis
    by (auto simp: nc_inv_def held_def intro: nc_trace_ok_quiet)
next
  case (scan t ws)
  with assms(3) NC_DeletePVs_ok[OF assms(2), of d t] show ?thesis by (simp add: nc_inv_def held_def)
next
  case (stop t ws)
  with assms(3) show ?thesis by (simp add: nc_inv_def held_def wq_ShutDown_def wq_inv_def)
qed

lemma nc_reachable_inv:
  assumes "nc_reachable env c d n s" "\<And>tr. index_ok node_Name (nodes tr) \<and> ne_nodes env tr = indexer_lister (nodes tr)"
  shows "nc_inv env nodes (nd_storageClassNames d) s"
  using assms(1)
proof induction
  case nc_start
  show ?case by (simp add: nc_inv_def start_workers_def) (simp add: wq_New_def)
next
  case (nc_next s s')
  then show ?case using nc_step_inv assms(2) by blast
qed

lemma ex_scan: "requests (ns_trace (NC_DeletePVs ex_nc_env (NC_NewDeleter [''fast'']) ex_nc_state)) = [ReqDeletePV ''p'']"
proof -
  let ?nodes = "[(''n1'', ex_node ''n1'')]"
  have "stale ?nodes [''fast''] (ex_affine ''p'' ''n2'')" "\<not> stale ?nodes [''fast''] (ex_affine ''q'' ''n1'')"
    by (simp_all add: stale_def ex_gone ex_label) (simp add: ex_affine_def ex_spec_def ex_pv_def)
  moreover have "pv_Name (ex_affine ''p'' ''n2'') = ''p''" by (simp add: ex_affine_def ex_pv_def)
  moreover have "ne_nodes ex_nc_env tr = indexer_lister ?nodes" for tr by (simp add: ex_nc_env_def)
  note delete_stale_all_requests[OF ex_nodes_ok this, of "NC_NewDeleter [''fast'']"
    "[ex_affine ''p'' ''n2'', ex_affine ''q'' ''n1'']" ex_nc_state]
  ultimately show ?thesis
    by (auto simp: NC_DeletePVs_def NC_NewDeleter_def ex_nc_env_def indexer_lister_def indexer_List_def ex_nc_state_def)
qed

text \<open>C17. The node-cleanup program in every interleaving of its workers, timers, node deletions, scans
  and shutdown: no two workers ever hold the same volume and what they hold is what the queue has
  handed out; every claim it deletes was orphaned at that moment, deleted under its own UID, and
  every volume it deletes was listed before and lies, at that moment, on deleted nodes only.\<close>

theorem node_cleanup_interleaved:
  assumes "nc_reachable env c d n s" and "\<And>tr. index_ok node_Name (nodes tr) \<and> ne_nodes env tr = indexer_lister (nodes tr)"
  shows "distinct (held s) \<and> wq_processing (ns_queue (nc_state s)) = set (held s)
    \<and> (\<forall>xs e ys. ns_trace (nc_state s) = xs @ e # ys \<longrightarrow> nc_allowed env nodes (nd_storageClassNames d) xs e)"
  using nc_reachable_inv[OF assms] by (simp add: nc_inv_def nc_trace_ok_def)

theorem node_cleanup_interleaved_witness:
  "\<exists>s. nc_reachable ex_nc_env (fst (NewCleanupController [''fast''] 60 10)) (NC_NewDeleter [''fast'']) 2 s
     \<and> ns_trace (nc_state s) \<noteq> [] \<and> distinct (held s)
     \<and> (\<forall>xs e ys. ns_trace (nc_state s) = xs @ e # ys \<longrightarrow>
          nc_allowed ex_nc_env (\<lambda>_. [(''n1'', ex_node ''n1'')]) [''fast''] xs e)"
proof -
  let ?init = "\<lparr>nc_state = \<lparr>ns_queue = wq_New, ns_trace = []\<rparr>, nc_workers = replicate 2 None\<rparr>"
  let ?d = "NC_NewDeleter [''fast'']" and ?c = "fst (NewCleanupController [''fast''] 60 10)"
  let ?s = "\<lparr>nc_state = NC_DeletePVs ex_nc_env ?d \<lparr>ns_queue = wq_New, ns_trace = []\<rparr>, nc_workers = replicate 2 None\<rparr>"
  have "nc_reachable ex_nc_env ?c ?d 2 ?init" 
    using nc_start[of ex_nc_env ?c ?d 2] by (simp only: start_workers_def)
  moreover have "nc_step ex_nc_env ?c ?d ?init ?s" by (rule nc_step.scan)
  ultimately have r: "nc_reachable ex_nc_env ?c ?d 2 ?s" by (rule nc_next)
  have idx: "index_ok node_Name [(''n1'', ex_node ''n1'')] \<and> ne_nodes ex_nc_env tr = indexer_lister [(''n1'', ex_node ''n1'')]" for tr
    using ex_nodes_ok by (simp add: ex_nc_env_def)
  have "requests (ns_trace (nc_state ?s)) = [ReqDeletePV ''p'']"
    using ex_scan by (simp add: ex_nc_state_def)
  then have "ns_trace (nc_state ?s) \<noteq> []" by auto
  with node_cleanup_interleaved[OF r idx] r show ?thesis by (auto simp: NC_NewDeleter_def)
qed

end
