(* ===== verification/Programs.thy ===== *)
theory Programs
  imports System Metric_Labels Config_Watcher Node_Cleanup_System
begin

text \<open>
  The two programs, \<open>cmd/local-volume-provisioner/main.go\<close> and \<open>cmd/node-cleanup/main.go\<close>, with
  \<open>SetupClient\<close> and \<open>GetVolumeConfigFromConfigMap\<close> of \<open>pkg/common/common.go\<close>: how they build the
  components of the other theories, and the processes that result. Values of the client libraries
  (the connection settings \<open>'cfg\<close> and the client \<open>'cs\<close>) are abstract. Logging, the seed of the random
  numbers and flags of the logger are left out.
\<close>

declare map_of_eq_Some_iff [simp del] Some_eq_map_of_iff [simp del]

section \<open>Clients\<close>

abbreviation KubeConfigEnv :: string where "KubeConfigEnv \<equiv> ''KUBECONFIG''"
abbreviation ProvisionerConfigPath :: string where "ProvisionerConfigPath \<equiv> ''/etc/provisioner/config/''"

text \<open>What the client libraries return.\<close>

record ('cfg, 'cs) client_lib =
  cl_BuildConfigFromFlags :: "string \<Rightarrow> string \<Rightarrow> 'cfg result"
  cl_InClusterConfig :: "'cfg result"
  cl_NewForConfig :: "'cfg \<Rightarrow> 'cs result"

text \<open>\<open>klog.Fatalf\<close> ends the process: \<^const>\<open>Inl\<close>.\<close>

definition SetupClient :: "(string \<Rightarrow> string) \<Rightarrow> ('cfg, 'cs) client_lib \<Rightarrow> 'cs result" where
  "SetupClient getenv lib =
     (let kubeconfigFile = getenv KubeConfigEnv in
      case (if kubeconfigFile \<noteq> [] then
              (case cl_BuildConfigFromFlags lib [] kubeconfigFile of
                 Inl err \<Rightarrow> Inl (Wrapf ''Error creating config from %s specified file: %s %v'' [KubeConfigEnv, kubeconfigFile] err)
               | Inr config \<Rightarrow> Inr config)
            else
              (case cl_InClusterConfig lib of
                 Inl err \<Rightarrow> Inl (Wrapf ''Error creating InCluster config: %v'' [] err)
               | Inr config \<Rightarrow> Inr config)) of
        Inl err \<Rightarrow> Inl err
      | Inr config \<Rightarrow>
          (case cl_NewForConfig lib config of
             Inl err \<Rightarrow> Inl (Wrapf ''Error creating clientset: %v'' [] err)
           | Inr clientset \<Rightarrow> Inr clientset))"

text \<open>Reading the configuration from a config map of the API server; \<open>get\<close> returns its data.\<close>

definition GetVolumeConfigFromConfigMap ::
    "(string \<Rightarrow> string \<Rightarrow> (string, string) gomap result)
     \<Rightarrow> (string \<Rightarrow> ProvisionerConfiguration \<Rightarrow> error option \<times> ProvisionerConfiguration) \<Rightarrow> string \<Rightarrow> string \<Rightarrow> string
     \<Rightarrow> ProvisionerConfiguration \<Rightarrow> error option \<times> ProvisionerConfiguration" where
  "GetVolumeConfigFromConfigMap get unmarshal goos namespace name provisionerConfig =
     (case get namespace name of
        Inl err \<Rightarrow> (Some err, provisionerConfig)
      | Inr data \<Rightarrow> ConfigMapDataToVolumeConfig unmarshal goos data provisionerConfig)"

section \<open>The provisioner\<close>

text \<open>Flags, in nanoseconds where they are durations.\<close>

record prov_flags =
  optListenAddress :: string
  optMetricsPath :: string
  discoveryPeriod :: time
  configSyncPeriod :: time

definition prov_default_flags :: prov_flags where
  "prov_default_flags =
     \<lparr>optListenAddress = '':8080'', optMetricsPath = ''/metrics'', discoveryPeriod = 10 * 1000000000,
      configSyncPeriod = 5 * 1000000000\<rparr>"

text \<open>The process: the running loop, the watcher, the handlers of the HTTP multiplexer, the node with
  the namespace and image the loop is started with, and the system of loop, informer and cleanup
  goroutines.\<close>

record provisioner =
  pr_controller :: local_controller
  pr_watch :: watch_state
  pr_mux :: "string list"
  pr_node :: node
  pr_namespace :: string
  pr_jobImage :: string
  pr_sys :: sys

abbreviation start_heap :: config_heap where
  "start_heap \<equiv> \<lparr>hp_classes = [[]], hp_labels = [], hp_names = [], hp_tolerations = []\<rparr>"

text \<open>The state with which \<open>ConfigWatcher.Run\<close> enters its loop.\<close>

definition watch_start :: "config_heap \<Rightarrow> ConfigWatcher \<Rightarrow> watch_state" where
  "watch_start h cw =
     \<lparr>ws_heap = h\<lparr>hp_classes := hp_classes h @ [[]]\<rparr>, ws_watcher = cw, ws_config = default_ref (length (hp_classes h)), ws_sent = []\<rparr>"

lemma ConfigWatcher_Run_start:
  "ConfigWatcher_Run unmarshal goos rounds h cw = watch_rounds unmarshal goos rounds (watch_start h cw)"
  by (simp add: ConfigWatcher_Run_def watch_start_def)

text \<open>\<open>main\<close> until the loop, the watcher and the metrics server run. The metrics and their path are
  registered here before the goroutine of the controller installs its handler; by
  \<open>mux_order_irrelevant\<close> below the other order panics in the same cases.\<close>

definition provisioner_main :: "(string \<Rightarrow> string) \<Rightarrow> ('cfg, 'cs) client_lib \<Rightarrow> env \<Rightarrow> decoder \<Rightarrow> prov_flags
    \<Rightarrow> config_files \<Rightarrow> startup \<Rightarrow> provisioner run" where
  "provisioner_main getenv lib env unmarshal flags files st =
     (case load_ref unmarshal (e_goos env) ProvisionerConfigPath files start_heap (default_ref 0) of
        (Some err, _, _) \<Rightarrow> Exited (Wrapf ''Error parsing Provisioner's configuration: %#v. Exiting...'' [] err)
      | (None, h, provisionerConfig) \<Rightarrow>
          let nodeName = getenv ''MY_NODE_NAME'' in
          if nodeName = [] then Exited (Errorf ''MY_NODE_NAME environment variable not set'' [])
          else
            let namespace = (if getenv ''MY_NAMESPACE'' = [] then ''default'' else getenv ''MY_NAMESPACE'');
                jobImage = getenv ''JOB_CONTAINER_IMAGE'' in
            case SetupClient getenv lib of
              Inl err \<Rightarrow> Exited err
            | Inr client \<Rightarrow>
                (case GetNode env nodeName \<lparr>w_Cache = NewVolumeCache, w_ProcTable = NewProcTable, w_trace = []\<rparr> of
                   (Inl err, w) \<Rightarrow> Exited (Wrapf ''Could not get node information: %v'' [] err)
                 | (Inr nd, w) \<Rightarrow>
                     let configWatcher = NewConfigWatcher ProvisionerConfigPath (configSyncPeriod flags) provisionerConfig in
                     (case MustRegister provisioner_metrics [] of
                        None \<Rightarrow> Panicked
                      | Some _ \<Rightarrow>
                          (case mux_Handle (optMetricsPath flags) (Some []) of
                             None \<Rightarrow> Panicked
                           | Some mux \<Rightarrow>
                               (case start_controller st
                                       (UserConfigFromProvisionerConfig nd namespace jobImage (deref h provisionerConfig)) mux w of
                                  (Exited err, _, _) \<Rightarrow> Exited err
                                | (Panicked, _, _) \<Rightarrow> Panicked
                                | (Up c, mux, w) \<Rightarrow>
                                    Up \<lparr>pr_controller = c, pr_watch = watch_start h configWatcher, pr_mux = mux, pr_node = nd,
                                        pr_namespace = namespace, pr_jobImage = jobImage,
                                        pr_sys = \<lparr>sy_world = w, sy_tasks = []\<rparr>\<rparr>)))))"

text \<open>A new configuration: the loop is told to stop, and one is started with what the watcher sent. The
  cleanup goroutines and the process table go on. The hand-over is one step here. In the code the
  old loop may still finish the round it is in between the update and the new start; that
  interval, with every interleaving in it, is the subject of \<open>Stop_Signal\<close>, and the old loop works
  with the old configuration until its end in both.\<close>

definition restart :: "startup \<Rightarrow> watch_state \<Rightarrow> provisioner \<Rightarrow> provisioner run" where
  "restart st watch p =
     (case start_controller st
             (UserConfigFromProvisionerConfig (pr_node p) (pr_namespace p) (pr_jobImage p) (deref (ws_heap watch) (last (ws_sent watch))))
             (pr_mux p) (sy_world (pr_sys p)) of
        (Exited err, _, _) \<Rightarrow> Exited err
      | (Panicked, _, _) \<Rightarrow> Panicked
      | (Up c, mux, w) \<Rightarrow>
          Up (p\<lparr>pr_controller := c, pr_watch := watch, pr_mux := mux, pr_sys := (pr_sys p)\<lparr>sy_world := w\<rparr>\<rparr>))"

text \<open>One step of the process: a step of loop, informer or goroutines; a reload by the watcher that
  finds nothing new, finds a change or fails; a volume on which the loop panics; the end of the
  metrics server, which \<open>log.Fatal\<close> turns into the end of the process.\<close>

inductive prov_step :: "env \<Rightarrow> decoder \<Rightarrow> provisioner \<Rightarrow> provisioner run \<Rightarrow> bool" for env unmarshal where
  running: "sys_step env (lc_Deleter (pr_controller p)) (lc_Discoverer (pr_controller p)) (pr_sys p) s \<Longrightarrow>
     prov_step env unmarshal p (Up (p\<lparr>pr_sys := s\<rparr>))"
| unchanged: "watch_round unmarshal (e_goos env) files (pr_watch p) = Inr watch \<Longrightarrow> ws_sent watch = ws_sent (pr_watch p) \<Longrightarrow>
     prov_step env unmarshal p (Up (p\<lparr>pr_watch := watch\<rparr>))"
| changed: "watch_round unmarshal (e_goos env) files (pr_watch p) = Inr watch \<Longrightarrow> ws_sent watch \<noteq> ws_sent (pr_watch p) \<Longrightarrow>
     prov_step env unmarshal p (restart st watch p)"
| bad_config: "watch_round unmarshal (e_goos env) files (pr_watch p) = Inl err \<Longrightarrow> prov_step env unmarshal p (Exited err)"
| loop_panics: "reclaim env (lc_Deleter (pr_controller p)) pv (sy_world (pr_sys p)) = None \<Longrightarrow>
     prov_step env unmarshal p Panicked"
| server_ends: "prov_step env unmarshal p (Exited err)"

inductive prov_reachable :: "env \<Rightarrow> decoder \<Rightarrow> provisioner \<Rightarrow> provisioner run \<Rightarrow> bool" for env unmarshal start where
  prov_start: "prov_reachable env unmarshal start (Up start)"
| prov_next: "prov_reachable env unmarshal start (Up p) \<Longrightarrow> prov_step env unmarshal p r \<Longrightarrow> prov_reachable env unmarshal start r"

section \<open>The node-cleanup program\<close>

record nc_flags =
  nf_kubeconfig :: string
  nf_kubeAPIEndpoint :: string
  nf_resync :: time
  nf_storageClassNames :: "string list"
  nf_workerThreads :: nat
  nf_pvcDeletionDelay :: time
  nf_stalePVDiscoveryInterval :: time
  nf_listenAddress :: string
  nf_metricsPath :: string

definition nc_default_flags :: nc_flags where
  "nc_default_flags =
     \<lparr>nf_kubeconfig = [], nf_kubeAPIEndpoint = [], nf_resync = 10 * 60 * 1000000000, nf_storageClassNames = [], nf_workerThreads = 10,
      nf_pvcDeletionDelay = 60 * 1000000000, nf_stalePVDiscoveryInterval = 10 * 1000000000, nf_listenAddress = '':8080'',
      nf_metricsPath = ''/metrics''\<rparr>"

definition buildConfig :: "('cfg, 'cs) client_lib \<Rightarrow> string \<Rightarrow> string \<Rightarrow> 'cfg result" where
  "buildConfig lib kubeconfig kubeAPIEndpoint =
     (if kubeconfig \<noteq> [] then cl_BuildConfigFromFlags lib kubeAPIEndpoint kubeconfig
      else cl_InClusterConfig lib)"

text \<open>\<open>main\<close>. The informers and the deleter start before the controller runs: \<open>early\<close> is what they do until
  the informers have synced, \<open>others\<close> what all goroutines do after that. The context is the background
  context, which is never done.\<close>

definition node_cleanup_main :: "('cfg, 'cs) client_lib \<Rightarrow> nc_env \<Rightarrow> nc_flags \<Rightarrow> bool \<Rightarrow> (nc_state \<Rightarrow> nc_state)
    \<Rightarrow> (nc_sys \<Rightarrow> nc_sys) \<Rightarrow> nc_sys run" where
  "node_cleanup_main lib env flags synced early others =
     (case buildConfig lib (nf_kubeconfig flags) (nf_kubeAPIEndpoint flags) of
        Inl err \<Rightarrow> Exited err
      | Inr config \<Rightarrow>
          (case cl_NewForConfig lib config of
             Inl err \<Rightarrow> Exited err
           | Inr clientset \<Rightarrow>
               case NewCleanupController (nf_storageClassNames flags) (nf_pvcDeletionDelay flags) (nf_stalePVDiscoveryInterval flags) of
                 (cleanupController, pvQueue) \<Rightarrow>
               case (if nf_listenAddress flags \<noteq> [] then
                       (case MustRegister node_cleanup_metrics [] of
                          None \<Rightarrow> None
                        | Some _ \<Rightarrow> mux_Handle (nf_metricsPath flags) (Some []))
                     else Some []) of
                 None \<Rightarrow> Panicked
               | Some mux \<Rightarrow>
                   (case CleanupController_Run env cleanupController synced False (nf_workerThreads flags) others
                           (early \<lparr>ns_queue = pvQueue, ns_trace = []\<rparr>) of
                      (Some (Some err), y) \<Rightarrow> Exited err
                    | (_, y) \<Rightarrow> Up y)))"

section \<open>Lemmas\<close>

text \<open>Starting the process: only pauses have been logged, and nothing is being cleaned.\<close>

lemma get_node_loop_quiet:
  "get_node_loop env name k w = (r, w') \<Longrightarrow> \<exists>es. w' = w\<lparr>w_trace := w_trace w @ es\<rparr> \<and> list_all quiet es"
proof (induction env name k w arbitrary: r w' rule: get_node_loop.induct)
  case (1 env name k w)
  show ?case
  proof (cases "e_nodes env (w_trace w) name")
    case (Inr nd)
    with 1(2) have "w' = w" by (simp add: get_node_loop.simps[of env name k w])
    then show ?thesis by (intro exI[of _ "[]"]) simp
  next
    case (Inl err)
    show ?thesis
    proof (cases "k + 1 \<ge> maxGetNodesRetries")
      case True
      with Inl 1(2) have "w' = w" by (simp add: get_node_loop.simps[of env name k w])
      then show ?thesis by (intro exI[of _ "[]"]) simp
    next
      case False
      with Inl 1(2) have "get_node_loop env name (k + 1) (emit (Sleep 1000000000) w) = (r, w')"
        by (simp add: get_node_loop.simps[of env name k w])
      from 1(1)[OF Inl False this] obtain es
        where "w' = (emit (Sleep 1000000000) w)\<lparr>w_trace := w_trace (emit (Sleep 1000000000) w) @ es\<rparr>" "list_all quiet es" by blast
      then show ?thesis by (intro exI[of _ "Sleep 1000000000 # es"]) (simp add: emit_def)
    qed
  qed
qed

lemma quiet_reachable:
  "list_all quiet es \<Longrightarrow> reachable env d p \<lparr>sy_world = \<lparr>w_Cache = c, w_ProcTable = NewProcTable, w_trace = es\<rparr>, sy_tasks = []\<rparr>"
proof (induction es rule: rev_induct)
  case Nil
  show ?case using reachable.init[of env d p "\<lparr>w_Cache = c, w_ProcTable = NewProcTable, w_trace = []\<rparr>"] by (simp add: sys_init_def)
next
  case (snoc e es)
  then have "quiet e" "list_all quiet es" by simp_all
  from reachable.step[OF snoc.IH[OF this(2)] sys_step.quiet_step[OF this(1)]] show ?case by (simp add: emit_def)
qed

lemma main_started:
  assumes "provisioner_main getenv lib env unmarshal flags files st = Up p"
  shows "\<exists>h pc w. load_ref unmarshal (e_goos env) ProvisionerConfigPath files start_heap (default_ref 0) = (None, h, pc)
    \<and> start_controller st (UserConfigFromProvisionerConfig (pr_node p) (pr_namespace p) (pr_jobImage p) (deref h pc)) [optMetricsPath flags] w
        = (Up (pr_controller p), pr_mux p, sy_world (pr_sys p))
    \<and> sy_tasks (pr_sys p) = [] \<and> w_ProcTable w = NewProcTable \<and> list_all quiet (w_trace w)
    \<and> pr_watch p = watch_start h (NewConfigWatcher ProvisionerConfigPath (configSyncPeriod flags) pc)
    \<and> pr_namespace p \<noteq> []"
proof -
  let ?w = "\<lparr>w_Cache = NewVolumeCache, w_ProcTable = NewProcTable, w_trace = []\<rparr>"
  from assms obtain h pc where l: "load_ref unmarshal (e_goos env) ProvisionerConfigPath files start_heap (default_ref 0) = (None, h, pc)"
    by (auto simp: provisioner_main_def split: prod.splits option.splits)
  from assms l obtain nd w where g: "GetNode env (getenv ''MY_NODE_NAME'') ?w = (Inr nd, w)"
    by (auto simp: provisioner_main_def Let_def split: if_splits sum.splits prod.splits)
  obtain es where w: "w = ?w\<lparr>w_trace := es\<rparr>" "list_all quiet es"
    using get_node_loop_quiet[OF g[unfolded GetNode_def]] by auto
  from assms l g show ?thesis
    by (intro exI[of _ h] exI[of _ pc] exI[of _ w])
      (auto simp: provisioner_main_def Let_def w split: if_splits sum.splits prod.splits run.splits option.splits)
qed

lemma restart_not_Up: "''/ready'' \<in> set (pr_mux p) \<Longrightarrow> restart st watch p \<noteq> Up q"
  using registered_not_Up by (auto simp: restart_def split: prod.splits run.splits)

text \<open>What stays the same while the process is up.\<close>

definition prov_inv :: "env \<Rightarrow> provisioner \<Rightarrow> provisioner \<Rightarrow> bool" where
  "prov_inv env start p \<longleftrightarrow> pr_controller p = pr_controller start \<and> pr_mux p = pr_mux start \<and> ws_sent (pr_watch p) = []
     \<and> reachable env (lc_Deleter (pr_controller start)) (lc_Discoverer (pr_controller start)) (pr_sys p)"

lemma prov_step_inv:
  assumes "prov_step env unmarshal p (Up q)" "prov_inv env start p" "''/ready'' \<in> set (pr_mux start)"
  shows "prov_inv env start q"
  using assms(1)
proof cases
  case (running s)
  with assms(2) show ?thesis by (auto simp: prov_inv_def intro: reachable.step)
next
  case (unchanged files watch)
  with assms(2) show ?thesis by (simp add: prov_inv_def)
next
  case (changed files watch st)
  with assms(2,3) restart_not_Up[of p st watch q] show ?thesis by (simp add: prov_inv_def)
qed

lemma prov_reachable_inv:
  assumes "prov_reachable env unmarshal start r" "prov_inv env start start" "''/ready'' \<in> set (pr_mux start)"
  shows "r = Up p \<Longrightarrow> prov_inv env start p"
  using assms(1)
proof (induction arbitrary: p)
  case (prov_next p0 r)
  then show ?case using prov_step_inv assms(3) by blast
qed (use assms(2) in simp)

lemma main_inv:
  assumes "provisioner_main getenv lib env unmarshal flags files st = Up p"
  shows "prov_inv env p p" "''/ready'' \<in> set (pr_mux p)"
proof -
  from main_started[OF assms] obtain h pc w where
    s: "start_controller st (UserConfigFromProvisionerConfig (pr_node p) (pr_namespace p) (pr_jobImage p) (deref h pc)) [optMetricsPath flags] w
        = (Up (pr_controller p), pr_mux p, sy_world (pr_sys p))"
    and t: "sy_tasks (pr_sys p) = []" "w_ProcTable w = NewProcTable" "list_all quiet (w_trace w)"
    and watch: "pr_watch p = watch_start h (NewConfigWatcher ProvisionerConfigPath (configSyncPeriod flags) pc)" by blast
  have "pr_sys p = \<lparr>sy_world = \<lparr>w_Cache = w_Cache (sy_world (pr_sys p)), w_ProcTable = NewProcTable, w_trace = w_trace w\<rparr>, sy_tasks = []\<rparr>"
    using t start_controller_Up(11,12)[OF s] by (cases "pr_sys p", cases "sy_world (pr_sys p)") simp
  then have "reachable env d q (pr_sys p)" for d q using quiet_reachable[OF t(3)] by metis
  then show "prov_inv env p p" by (simp add: prov_inv_def watch watch_start_def)
  show "''/ready'' \<in> set (pr_mux p)" by (rule start_controller_Up(13)[OF s])
qed

section \<open>Properties\<close>

text \<open>C4. The provisioner process as a whole runs one configuration: as long as it is up, in every
  interleaving of reloads, loop, informer and cleanup goroutines, the deleter and the discoverer
  work with the configuration loaded at the start and no update was sent; any reload that detects a
  change ends the process, where the hand-over to a new loop counts as one step; and every volume object whose deletion was requested had been cleaned
  successfully before, without jobs since it was last published.\<close>

theorem provisioner_process:
  assumes "provisioner_main getenv lib env unmarshal flags files st = Up start"
    and "prov_reachable env unmarshal start (Up p)" and "jobs_named env"
  shows "\<exists>h pc. load_ref unmarshal (e_goos env) ProvisionerConfigPath files start_heap (default_ref 0) = (None, h, pc)
    \<and> dl_User (lc_Deleter (pr_controller p)) = UserConfigFromProvisionerConfig (pr_node start) (pr_namespace start) (pr_jobImage start) (deref h pc)
    \<and> ds_User (lc_Discoverer (pr_controller p)) = dl_User (lc_Deleter (pr_controller p))
    \<and> ws_sent (pr_watch p) = [] \<and> (\<forall>st' watch q. restart st' watch p \<noteq> Up q)
    \<and> (\<forall>xs n x ys. w_trace (sy_world (pr_sys p)) = xs @ Call (ReqDeletePV n) x # ys \<longrightarrow>
          (if pc_UseJobForCleaning (deref h pc) then status n xs = Some CSSucceeded \<or> job_removed n xs else clean_since n xs))"
proof -
  note inv = main_inv[OF assms(1)]
  from prov_reachable_inv[OF assms(2) inv] have p: "prov_inv env start p" by simp
  from main_started[OF assms(1)] obtain h pc w where l: "load_ref unmarshal (e_goos env) ProvisionerConfigPath files start_heap (default_ref 0) = (None, h, pc)"
    and s: "start_controller st (UserConfigFromProvisionerConfig (pr_node start) (pr_namespace start) (pr_jobImage start) (deref h pc)) [optMetricsPath flags] w
        = (Up (pr_controller start), pr_mux start, sy_world (pr_sys start))" by blast
  let ?j = "uses_jobs (lc_Deleter (pr_controller start)) (lc_Discoverer (pr_controller start))"
  have j: "?j \<longleftrightarrow> pc_UseJobForCleaning (deref h pc)"
    using start_controller_Up(1,2)[OF s] by (simp add: UserConfigFromProvisionerConfig_def)
  have "sys_inv ?j (pr_sys p)" using p by (intro reachable_inv[OF _ assms(3)]) (auto simp: prov_inv_def)
  then have "trace_ok ?j (w_trace (sy_world (pr_sys p)))" by (simp add: sys_inv_def good_def)
  then have del: "\<forall>xs n x ys. w_trace (sy_world (pr_sys p)) = xs @ Call (ReqDeletePV n) x # ys \<longrightarrow>
      (if pc_UseJobForCleaning (deref h pc) then status n xs = Some CSSucceeded \<or> job_removed n xs else clean_since n xs)"
    unfolding j by (fastforce simp: trace_ok_def)
  have "dl_User (lc_Deleter (pr_controller p)) = UserConfigFromProvisionerConfig (pr_node start) (pr_namespace start) (pr_jobImage start) (deref h pc)"
    "ds_User (lc_Discoverer (pr_controller p)) = dl_User (lc_Deleter (pr_controller p))" "ws_sent (pr_watch p) = []"
    "\<forall>st' watch q. restart st' watch p \<noteq> Up q"
    using start_controller_Up(1,2)[OF s] p inv(2) restart_not_Up[of p] by (simp_all add: prov_inv_def)
  with l del show ?thesis by blast
qed

definition ex_lib :: "(unit, unit) client_lib" where
  "ex_lib = \<lparr>cl_BuildConfigFromFlags = (\<lambda>_ _. Inr ()), cl_InClusterConfig = Inr (), cl_NewForConfig = Inr\<rparr>"

definition ex_main :: "provisioner run" where
  "ex_main = provisioner_main (\<lambda>k. if k = ''MY_NODE_NAME'' then ''n1'' else []) ex_lib (ex_env\<lparr>e_nodes := \<lambda>_ _. Inr (ex_node ''n1'')\<rparr>)
     ex_decoder prov_default_flags (ex_files ''a'') ex_startup"

theorem provisioner_process_witness:
  "\<exists>start p. ex_main = Up start \<and> prov_reachable (ex_env\<lparr>e_nodes := \<lambda>_ _. Inr (ex_node ''n1'')\<rparr>) ex_decoder start (Up p)
     \<and> w_trace (sy_world (pr_sys p)) = [Sleep 10] \<and> (\<forall>st' watch q. restart st' watch p \<noteq> Up q)"
proof -
  let ?env = "ex_env\<lparr>e_nodes := \<lambda>_ _. Inr (ex_node ''n1'')\<rparr>"
  have "(case ex_main of Up p \<Rightarrow> w_trace (sy_world (pr_sys p)) = [] | _ \<Rightarrow> False)" by code_simp
  then obtain start where m: "ex_main = Up start" and t: "w_trace (sy_world (pr_sys start)) = []"
    by (auto split: run.splits)
  let ?s = "(pr_sys start)\<lparr>sy_world := emit (Sleep 10) (sy_world (pr_sys start))\<rparr>"
  have "sys_step ?env (lc_Deleter (pr_controller start)) (lc_Discoverer (pr_controller start)) (pr_sys start) ?s"
    by (cases "pr_sys start") (simp add: sys_step.quiet_step)
  from prov_next[OF prov_start prov_step.running[OF this]]
  have r: "prov_reachable ?env ex_decoder start (Up (start\<lparr>pr_sys := ?s\<rparr>))" .
  have "jobs_named ?env" by (simp add: jobs_named_def ex_env_def)
  from provisioner_process[OF m[unfolded ex_main_def] r this]
  have "\<forall>st' watch q. restart st' watch (start\<lparr>pr_sys := ?s\<rparr>) \<noteq> Up q" by blast
  moreover have "w_trace (sy_world (pr_sys (start\<lparr>pr_sys := ?s\<rparr>))) = [Sleep 10]" using t by (simp add: emit_def)
  ultimately show ?thesis using r m by blast
qed

section \<open>The node-cleanup process\<close>

text \<open>Every state of the program is one of the interleaved system, before the informers have synced as
  well as after.\<close>

lemma node_cleanup_main_reachable:
  assumes "node_cleanup_main lib env flags synced early others = Up y"
    and "(nc_step env c d)\<^sup>*\<^sup>* (start_workers 0 \<lparr>ns_queue = wq_New, ns_trace = []\<rparr>) (start_workers 0 (early \<lparr>ns_queue = wq_New, ns_trace = []\<rparr>))"
    and "\<And>y. (nc_step env c d)\<^sup>*\<^sup>* y (others y)"
    and "c = fst (NewCleanupController (nf_storageClassNames flags) (nf_pvcDeletionDelay flags) (nf_stalePVDiscoveryInterval flags))"
  shows "nc_reachable env c d (if synced then nf_workerThreads flags else 0) y"
proof -
  let ?s = "early \<lparr>ns_queue = wq_New, ns_trace = []\<rparr>"
  have y: "y = snd (CleanupController_Run env c synced False (nf_workerThreads flags) others ?s)"
    using assms(1) by (auto simp: node_cleanup_main_def NewCleanupController_def assms(4) split: sum.splits option.splits prod.splits if_splits)
  have e: "nc_reachable env c d n (start_workers n ?s)" for n
    using early_reachable[OF assms(2), of n] by (simp add: start_workers_def)
  show ?thesis
  proof (cases synced)
    case True
    with Run_reachable[OF e assms(3)] show ?thesis by (simp add: y)
  next
    case False
    with e[of 0] show ?thesis by (simp add: y CleanupController_Run_def)
  qed
qed

text \<open>Nothing makes the deleter wait for the informers: a scan while the index of the nodes is still empty
  takes every node for deleted, and requests the deletion of available and released volumes of nodes
  that exist.\<close>

lemma scan_before_sync:
  assumes "\<And>tr. ne_nodes env tr = indexer_lister []" and "ne_pvs env (ns_trace s) = indexer_lister pvs"
  shows "\<exists>es. ns_trace (NC_DeletePVs env d s) = ns_trace s @ es
    \<and> requests es = map (\<lambda>pv. ReqDeletePV (pv_Name pv)) (filter (stale [] (nd_storageClassNames d)) (map snd pvs))"
  using delete_stale_all_requests[OF _ assms(1), of d "map snd pvs" s]
  by (simp add: NC_DeletePVs_def assms(2) indexer_lister_def indexer_List_def index_ok_def)

lemma live_volume_taken_for_stale:
  "stale [] [''fast''] (ex_affine ''q'' ''n1'') \<and> \<not> stale [(''n1'', ex_node ''n1'')] [''fast''] (ex_affine ''q'' ''n1'')"
  by (simp add: stale_def ex_gone)
    (simp add: node_gone_def ex_affine_def term_names_def hostname_req_def host_req_def ex_spec_def ex_pv_def IsValidLabelValue_def alnum_def)

end
