(* ===== verification/Kubetest.thy ===== *)
theory Kubetest
  imports Paths
begin

text \<open>
  \<open>hack/e2e.go\<close>: the driver of the end-to-end tests, which finds, installs or updates the test program
  \<open>kubetest\<close> and runs it. The commands it has run are a log; what the file system and the commands
  answer depends on the log. The parser of the \<open>flag\<close> package is an argument of \<open>parse\<close>.
\<close>

section \<open>Flags\<close>

record e2e_flags =
  fl_get :: bool
  fl_old :: int
  fl_args :: "string list"

abbreviation getDefault :: bool where "getDefault \<equiv> True"
abbreviation oldDefault :: int where "oldDefault \<equiv> 24 * 60 * 60 * 1000000000"

text \<open>What \<open>FlagSet.Parse\<close> leaves behind: its error, the values of the three flags and the arguments that
  are left.\<close>

datatype parse_error = ErrHelp | BadFlag error

record parsed =
  ps_err :: "parse_error option"
  ps_get :: bool
  ps_old :: int
  ps_verbose :: bool
  ps_Args :: "string list"

definition parse :: "(string list \<Rightarrow> parsed) \<Rightarrow> string list \<Rightarrow> (parse_error + e2e_flags)" where
  "parse Parse args =
     (let fs = Parse (tl args) in
      case ps_err fs of
        Some ErrHelp \<Rightarrow> Inl ErrHelp
      | Some (BadFlag _) \<Rightarrow>
          Inr \<lparr>fl_get = ps_get fs, fl_old = ps_old fs, fl_args = drop (length args - length (ps_Args fs) - 1) args\<rparr>
      | None \<Rightarrow>
          Inr \<lparr>fl_get = ps_get fs, fl_old = ps_old fs,
               fl_args = (''--verbose-commands='' @ (if ps_verbose fs then ''true'' else ''false'')) # ps_Args fs\<rparr>)"

section \<open>Finding and updating the test program\<close>

type_synonym command = "string list"

text \<open>The functions of a \<open>tester\<close>, by what was run before; \<open>stat\<close> returns the time of the last change.\<close>

record tester =
  t_stat :: "command list \<Rightarrow> string \<Rightarrow> int result"
  t_lookPath :: "command list \<Rightarrow> string \<Rightarrow> string result"
  t_goPath :: string
  t_wait :: "command list \<Rightarrow> command \<Rightarrow> error option"
  t_now :: "command list \<Rightarrow> int"

definition lookKubetest :: "tester \<Rightarrow> command list \<Rightarrow> string result" where
  "lookKubetest t log =
     (let p = FJoin [t_goPath t, ''bin'', ''kubetest''] in
      if t_goPath t \<noteq> [] \<and> \<not> isl (t_stat t log p) then Inr p else t_lookPath t log ''kubetest'')"

definition installCmd :: command where
  "installCmd = [''sh'', ''-c'', ''
tmpdir=$(mktemp -d)
trap \"rm -rf ${tmpdir}\" EXIT
cd ${tmpdir}
git clone --depth=1 https://github.com/kubernetes/test-infra
cd test-infra
GO111MODULE=on go install ./kubetest
'']"

definition install_kubetest :: "tester \<Rightarrow> command list \<Rightarrow> string result \<times> command list" where
  "install_kubetest t log =
     (if t_goPath t = [] then (Inl (Errorf ''Cannot install kubetest until $GOPATH is set'' []), log)
      else
        case t_wait t log installCmd of
          Some err \<Rightarrow> (Inl (Wrapf ''%s: %v'' [Join_with '' '' installCmd] err), log @ [installCmd])
        | None \<Rightarrow>
            let log = log @ [installCmd] in
            (case lookKubetest t log of
               Inl err \<Rightarrow> (Inl err, log)
             | Inr p \<Rightarrow>
                 (case t_wait t log [''touch'', p] of
                    Some err \<Rightarrow> (Inl err, log @ [[''touch'', p]])
                  | None \<Rightarrow> (Inr p, log @ [[''touch'', p]]))))"

definition getKubetest :: "tester \<Rightarrow> bool \<Rightarrow> int \<Rightarrow> command list \<Rightarrow> string result \<times> command list" where
  "getKubetest t get old log =
     (case lookKubetest t log of
        Inr p \<Rightarrow>
          if \<not> get then (Inr p, log)
          else
            (case t_stat t log p of
               Inl err \<Rightarrow> (Inl err, log)
             | Inr modTime \<Rightarrow>
                 if t_now t log - modTime \<le> old then (Inr p, log)
                 else if t_goPath t = [] then (Inr p, log)
                 else install_kubetest t log)
      | Inl err \<Rightarrow> install_kubetest t log)"

text \<open>\<open>main\<close>: the exit status and the commands run.\<close>

definition e2e_main :: "(string list \<Rightarrow> parsed) \<Rightarrow> tester \<Rightarrow> string list \<Rightarrow> int \<times> command list" where
  "e2e_main Parse t args =
     (case parse Parse args of
        Inl _ \<Rightarrow> (2, [])
      | Inr f \<Rightarrow>
          (case getKubetest t (fl_get f) (fl_old f) [] of
             (Inl err, log) \<Rightarrow> (1, log)
           | (Inr k, log) \<Rightarrow>
               (case t_wait t log (k # fl_args f) of
                  Some err \<Rightarrow> (1, log @ [k # fl_args f])
                | None \<Rightarrow> (0, log @ [k # fl_args f]))))"

section \<open>Lemmas\<close>

text \<open>A program that is found is used as it is, or after an update that installed it, found it again and
  touched it; a failed update is never covered up by the old program.\<close>

lemma getKubetest_found:
  assumes "getKubetest t get old log = (Inr p, log')"
  shows "log' = log \<and> lookKubetest t log = Inr p
      \<and> (get \<longrightarrow> t_goPath t = [] \<or> (\<exists>m. t_stat t log p = Inr m \<and> t_now t log - m \<le> old))
    \<or> log' = log @ [installCmd, [''touch'', p]] \<and> t_goPath t \<noteq> [] \<and> t_wait t log installCmd = None
      \<and> lookKubetest t (log @ [installCmd]) = Inr p \<and> t_wait t (log @ [installCmd]) [''touch'', p] = None"
  using assms
  by (auto simp: getKubetest_def install_kubetest_def Let_def split: sum.splits if_splits option.splits)

text \<open>Success of the driver is success of the tests: it exits with 0 exactly if its last command is a
  \<open>kubetest\<close> that was found, run with the arguments that were given, and succeeded.\<close>

lemma e2e_success:
  "fst (e2e_main Parse t args) = 0 \<longleftrightarrow>
     (\<exists>f k log. parse Parse args = Inr f \<and> getKubetest t (fl_get f) (fl_old f) [] = (Inr k, log)
        \<and> t_wait t log (k # fl_args f) = None \<and> snd (e2e_main Parse t args) = log @ [k # fl_args f])"
  by (auto simp: e2e_main_def split: sum.splits prod.splits option.splits)

end
