(* ===== verification/Stop_Signal.thy ===== *)
theory Stop_Signal
  imports Controller
begin

text \<open>
  The handshake of \<open>pkg/controller/controller.go\<close> by which one sync loop is replaced by the next: the
  type \<open>signal\<close> with its channel of channels, \<open>stop\<close>, the \<open>select\<close> of the loop and the \<open>select\<close> of
  \<open>RunLocalController\<close>. Both channels are unbuffered, so a send and its receive are one step. The
  loops share one signal and, through \<open>http.DefaultServeMux\<close>, the handlers of the process. Shown: loops
  never overlap, and the handshake cannot get stuck, but no loop after the first ever gets to
  its rounds, because its start ends the process.
\<close>

section \<open>The goroutines\<close>

text \<open>Where a loop is: before its \<open>for\<close>, about to \<open>select\<close>, in the default branch, between receiving the
  channel \<open>stopped\<close> and sending on it, and after its return.\<close>

datatype loop_phase = Starting | Selecting | InRound | Stopping | Ended

text \<open>Where \<open>RunLocalController\<close> is: waiting for a configuration, about to call \<open>stop\<close>, blocked in the
  send of \<open>stop\<close>, or blocked in its receive.\<close>

datatype manager = AwaitConfig | GotConfig UserConfig | SendStop UserConfig | AwaitStopped UserConfig

record signal_sys =
  sg_manager :: manager
  sg_loops :: "(UserConfig \<times> loop_phase) list"
  sg_updates :: "UserConfig list"
  sg_mux :: "string list"

text \<open>\<open>go startController(config)\<close> with the first configuration; the multiplexer holds what \<open>main\<close> has
  registered.\<close>

definition signal_init :: "UserConfig \<Rightarrow> string list \<Rightarrow> signal_sys" where
  "signal_init config mux =
     \<lparr>sg_manager = AwaitConfig, sg_loops = [(config, Starting)], sg_updates = [], sg_mux = mux\<rparr>"

text \<open>A step leads to a state or ends the process. The start of a loop does what \<open>start_controller\<close> does,
  with any outcome of the calls to the outside. The default branch of the loop's \<open>select\<close> is taken only
  while nobody is sending.\<close>

inductive signal_step :: "signal_sys \<Rightarrow> signal_sys run \<Rightarrow> bool" where
  new_config: "sg_manager s = AwaitConfig \<Longrightarrow>
     signal_step s (Up (s\<lparr>sg_manager := GotConfig c, sg_updates := sg_updates s @ [c]\<rparr>))"
| call_stop: "sg_manager s = GotConfig c \<Longrightarrow> signal_step s (Up (s\<lparr>sg_manager := SendStop c\<rparr>))"
| started: "sg_loops s = xs @ (c, Starting) # ys \<Longrightarrow> start_controller st c (sg_mux s) w = (Up lc, mux, w') \<Longrightarrow>
     signal_step s (Up (s\<lparr>sg_loops := xs @ (c, Selecting) # ys, sg_mux := mux\<rparr>))"
| start_exits: "sg_loops s = xs @ (c, Starting) # ys \<Longrightarrow> start_controller st c (sg_mux s) w = (Exited err, mux, w') \<Longrightarrow>
     signal_step s (Exited err)"
| start_panics: "sg_loops s = xs @ (c, Starting) # ys \<Longrightarrow> start_controller st c (sg_mux s) w = (Panicked, mux, w') \<Longrightarrow>
     signal_step s Panicked"
| begin_round: "sg_loops s = xs @ (c, Selecting) # ys \<Longrightarrow> (\<forall>d. sg_manager s \<noteq> SendStop d) \<Longrightarrow>
     signal_step s (Up (s\<lparr>sg_loops := xs @ (c, InRound) # ys\<rparr>))"
| end_round: "sg_loops s = xs @ (c, InRound) # ys \<Longrightarrow>
     signal_step s (Up (s\<lparr>sg_loops := xs @ (c, Selecting) # ys\<rparr>))"
| take_stop: "sg_loops s = xs @ (c, Selecting) # ys \<Longrightarrow> sg_manager s = SendStop d \<Longrightarrow>
     signal_step s (Up (s\<lparr>sg_manager := AwaitStopped d, sg_loops := xs @ (c, Stopping) # ys\<rparr>))"
| stopped: "sg_loops s = xs @ (c, Stopping) # ys \<Longrightarrow> sg_manager s = AwaitStopped d \<Longrightarrow>
     signal_step s (Up (s\<lparr>sg_manager := AwaitConfig, sg_loops := xs @ (c, Ended) # ys @ [(d, Starting)]\<rparr>))"

inductive_cases signal_stepE: "signal_step s r"

inductive signal_reachable :: "UserConfig \<Rightarrow> string list \<Rightarrow> signal_sys run \<Rightarrow> bool" for config mux where
  sg_init: "signal_reachable config mux (Up (signal_init config mux))"
| sg_step: "signal_reachable config mux (Up s) \<Longrightarrow> signal_step s r \<Longrightarrow> signal_reachable config mux r"

text \<open>A run of steps with the process up.\<close>

abbreviation signal_leads :: "signal_sys \<Rightarrow> signal_sys \<Rightarrow> bool" where
  "signal_leads \<equiv> (\<lambda>s s'. signal_step s (Up s'))\<^sup>*\<^sup>*"

section \<open>The invariant\<close>

text \<open>The configuration \<open>RunLocalController\<close> has in hand.\<close>

fun pending :: "manager \<Rightarrow> UserConfig list" where
  "pending AwaitConfig = []"
| "pending (GotConfig c) = [c]"
| "pending (SendStop c) = [c]"
| "pending (AwaitStopped c) = [c]"

text \<open>Either the first loop is the only one and has not returned, or it has and the second is starting; the
  readiness handler is registered as soon as the first loop is past its start.\<close>

definition signal_inv :: "UserConfig \<Rightarrow> signal_sys \<Rightarrow> bool" where
  "signal_inv config s \<longleftrightarrow>
     ((\<exists>ph. sg_loops s = [(config, ph)] \<and> ph \<noteq> Ended \<and> (ph = Stopping \<longleftrightarrow> (\<exists>d. sg_manager s = AwaitStopped d))
         \<and> (ph \<noteq> Starting \<longrightarrow> ''/ready'' \<in> set (sg_mux s)))
      \<or> (\<exists>d. sg_loops s = [(config, Ended), (d, Starting)] \<and> (\<forall>d. sg_manager s \<noteq> AwaitStopped d)
           \<and> ''/ready'' \<in> set (sg_mux s)))
     \<and> map fst (sg_loops s) @ pending (sg_manager s) = config # sg_updates s"

lemma one_loop:
  "xs @ (c, ph) # ys = [(a, ph')] \<longleftrightarrow> xs = [] \<and> ys = [] \<and> c = a \<and> ph = ph'"
  "[(a, ph')] = xs @ (c, ph) # ys \<longleftrightarrow> xs = [] \<and> ys = [] \<and> c = a \<and> ph = ph'"
  by (cases xs; auto)+

lemma two_loops:
  assumes "ph \<noteq> Ended"
  shows "xs @ (c, ph) # ys = [(a, Ended), (b, ph')] \<longleftrightarrow> xs = [(a, Ended)] \<and> ys = [] \<and> c = b \<and> ph = ph'"
    "[(a, Ended), (b, ph')] = xs @ (c, ph) # ys \<longleftrightarrow> xs = [(a, Ended)] \<and> ys = [] \<and> c = b \<and> ph = ph'"
  using assms by (cases xs; auto simp: append_eq_Cons_conv Cons_eq_append_conv)+

lemma signal_inv_step:
  assumes "signal_step s (Up s')" "signal_inv config s"
  shows "signal_inv config s'"
proof -
  from assms(2) consider
    (first) ph where "sg_loops s = [(config, ph)]" "ph \<noteq> Ended" "ph = Stopping \<longleftrightarrow> (\<exists>d. sg_manager s = AwaitStopped d)"
      "ph \<noteq> Starting \<longrightarrow> ''/ready'' \<in> set (sg_mux s)" "config # pending (sg_manager s) = config # sg_updates s"
  | (second) d where "sg_loops s = [(config, Ended), (d, Starting)]" "\<forall>d. sg_manager s \<noteq> AwaitStopped d" "''/ready'' \<in> set (sg_mux s)"
      "config # d # pending (sg_manager s) = config # sg_updates s"
    by (auto simp: signal_inv_def)
  then show ?thesis
  proof cases
    case first
    from assms(1) show ?thesis
    proof cases
      case (started xs c ys st w lc mux w')
      with first start_controller_Up(13)[OF started(3)] show ?thesis by (auto simp: signal_inv_def one_loop)
    qed (use first in \<open>auto simp: signal_inv_def one_loop\<close>)
  next
    case second
    from assms(1) show ?thesis
    proof cases
      case (started xs c ys st w lc mux w')
      with registered_not_Up[OF second(3)] show ?thesis by blast
    qed (use second in \<open>auto simp: signal_inv_def two_loops\<close>)
  qed
qed

lemma signal_reachable_inv: "signal_reachable config mux r \<Longrightarrow> r = Up s \<Longrightarrow> signal_inv config s"
proof (induction arbitrary: s rule: signal_reachable.induct)
  case sg_init
  then show ?case by (auto simp: signal_inv_def signal_init_def)
next
  case (sg_step s' r)
  then show ?case using signal_inv_step by blast
qed

section \<open>Progress\<close>

text \<open>Once the first loop is past its start, a configuration in hand gets it stopped.\<close>

lemma stop_completes:
  assumes "sg_loops s = [(config, ph)]" "ph \<noteq> Starting" "signal_inv config s" "pending (sg_manager s) = [d]"
  shows "\<exists>s'. signal_leads s s' \<and> sg_loops s' = [(config, Ended), (d, Starting)]"
proof -
  have ph: "ph \<noteq> Ended" "ph = Stopping \<longleftrightarrow> (\<exists>d. sg_manager s = AwaitStopped d)"
    using assms(1,3) by (auto simp: signal_inv_def)
  have last: "\<exists>s'. signal_leads s s' \<and> sg_loops s' = [(config, Ended), (d, Starting)]"
    if "sg_loops s = [(config, Stopping)]" "sg_manager s = AwaitStopped d" for s
    using stopped[of s "[]" config "[]" d] that by (intro exI[of _ "s\<lparr>sg_manager := AwaitConfig, sg_loops := _\<rparr>"]) auto
  have send: "\<exists>s'. signal_leads s s' \<and> sg_loops s' = [(config, Ended), (d, Starting)]"
    if s: "sg_loops s = [(config, Selecting)]" "sg_manager s = SendStop d" for s
  proof -
    let ?s = "s\<lparr>sg_manager := AwaitStopped d, sg_loops := [(config, Stopping)]\<rparr>"
    have "signal_step s (Up ?s)" using take_stop[of s "[]" config "[]" d] s by simp
    moreover obtain s' where "signal_leads ?s s'" "sg_loops s' = [(config, Ended), (d, Starting)]" using last[of ?s] by auto
    ultimately show ?thesis by (meson converse_rtranclp_into_rtranclp)
  qed
  have select: "\<exists>s'. signal_leads s s' \<and> sg_loops s' = [(config, Selecting)] \<and> sg_manager s' = sg_manager s"
    if "ph \<noteq> Stopping"
  proof (cases "ph = Selecting")
    case True
    with assms(1) show ?thesis by blast
  next
    case False
    with that ph(1) assms(2) have "ph = InRound" by (cases ph) simp_all
    with end_round[of s "[]" config "[]"] assms(1) show ?thesis
      by (intro exI[of _ "s\<lparr>sg_loops := [(config, Selecting)]\<rparr>"]) auto
  qed
  show ?thesis
  proof (cases "ph = Stopping")
    case True
    with ph(2) assms(4) have "sg_manager s = AwaitStopped d" by auto
    with last assms(1) True show ?thesis by blast
  next
    case False
    from select[OF False] obtain s1 where s1: "signal_leads s s1" "sg_loops s1 = [(config, Selecting)]" "sg_manager s1 = sg_manager s" by blast
    from False ph(2) assms(4) s1(3) consider "sg_manager s1 = SendStop d" | "sg_manager s1 = GotConfig d"
      by (cases "sg_manager s") auto
    then show ?thesis
    proof cases
      case 1
      with send[OF s1(2)] s1(1) show ?thesis by (meson rtranclp_trans)
    next
      case 2
      let ?s = "s1\<lparr>sg_manager := SendStop d\<rparr>"
      have "signal_step s1 (Up ?s)" by (rule call_stop[OF 2])
      with s1(1) have "signal_leads s ?s" by (meson rtranclp.rtrancl_into_rtrancl)
      with send[of ?s] s1(2) show ?thesis by (auto intro: rtranclp_trans)
    qed
  qed
qed

text \<open>The second loop's start ends the process.\<close>

lemma second_start_ends:
  assumes "sg_loops s = [(config, Ended), (d, Starting)]" "''/ready'' \<in> set (sg_mux s)"
  shows "\<exists>r. signal_step s r \<and> (\<forall>s'. r \<noteq> Up s')"
proof -
  obtain r mux w' where c: "start_controller ex_startup d (sg_mux s) ex_world = (r, mux, w')" by (metis prod_cases3)
  show ?thesis
  proof (cases r)
    case (Up lc)
    with c registered_not_Up[OF assms(2)] show ?thesis by blast
  next
    case (Exited err)
    with start_exits[of s "[(config, Ended)]" d "[]"] c assms(1) show ?thesis by (metis append_Cons append_Nil run.distinct(1))
  next
    case Panicked
    with start_panics[of s "[(config, Ended)]" d "[]"] c assms(1) show ?thesis by (metis append_Cons append_Nil run.distinct(3))
  qed
qed

section \<open>Properties\<close>

text \<open>C20. What becomes of a new configuration. In every interleaving of arriving configurations, starts and
  rounds, as long as the process is up: exactly one loop, the one started last, has not returned, and
  loops are started with the configurations in the order they arrived; only the first loop ever gets
  past its start, so a configuration that arrives later never has a round; the handshake is never
  stuck: once the first loop is past its start, some continuation takes a configuration in hand to
  the point where the first loop has returned and the next is starting; and from there no step
  starts it, while some step ends the process.\<close>

theorem one_loop_at_a_time:
  assumes "signal_reachable config mux (Up s)"
  shows "(\<exists>old c ph. sg_loops s = old @ [(c, ph)] \<and> (\<forall>l\<in>set old. snd l = Ended) \<and> ph \<noteq> Ended)
    \<and> map fst (sg_loops s) @ pending (sg_manager s) = config # sg_updates s
    \<and> (\<forall>l\<in>set (tl (sg_loops s)). snd l = Starting)
    \<and> (\<forall>d. pending (sg_manager s) = [d] \<longrightarrow> snd (hd (sg_loops s)) \<notin> {Starting, Ended} \<longrightarrow>
         (\<exists>s'. signal_leads s s' \<and> sg_loops s' = [(config, Ended), (d, Starting)]))
    \<and> (tl (sg_loops s) \<noteq> [] \<longrightarrow>
         (\<forall>s'. signal_step s (Up s') \<longrightarrow> sg_loops s' = sg_loops s) \<and> (\<exists>r. signal_step s r \<and> (\<forall>s'. r \<noteq> Up s')))"
proof -
  note inv = signal_reachable_inv[OF assms refl]
  from inv consider (first) ph where "sg_loops s = [(config, ph)]" "ph \<noteq> Ended"
    | (second) d where "sg_loops s = [(config, Ended), (d, Starting)]" "''/ready'' \<in> set (sg_mux s)"
    by (auto simp: signal_inv_def)
  then show ?thesis
  proof cases
    case first
    have o: "map fst (sg_loops s) @ pending (sg_manager s) = config # sg_updates s" using inv by (simp add: signal_inv_def)
    from stop_completes[OF first(1) _ inv] o first show ?thesis by auto
  next
    case second
    have o: "map fst (sg_loops s) @ pending (sg_manager s) = config # sg_updates s" using inv by (simp add: signal_inv_def)
    have "sg_loops s' = sg_loops s" if "signal_step s (Up s')" for s'
      using that
    proof cases
      case (started xs c ys st w lc mux w')
      with registered_not_Up[OF second(2)] show ?thesis by blast
    qed (use second in \<open>auto simp: two_loops\<close>)
    moreover have "sg_loops s = [(config, Ended)] @ [(d, Starting)]" using second(1) by simp
    ultimately show ?thesis using second_start_ends[OF second] o by (intro conjI exI) auto
  qed
qed

text \<open>The first loop is up when a second configuration arrives.\<close>

theorem one_loop_at_a_time_witness:
  "\<exists>s s'. signal_reachable ex_user [] (Up s) \<and> sg_loops s = [(ex_user, Selecting)] \<and> sg_updates s = [ex_user\<lparr>uc_Namespace := []\<rparr>]
     \<and> signal_leads s s' \<and> sg_loops s' = [(ex_user, Ended), (ex_user\<lparr>uc_Namespace := []\<rparr>, Starting)]"
proof -
  let ?d = "ex_user\<lparr>uc_Namespace := []\<rparr>" and ?i = "signal_init ex_user []"
  obtain c mux w where c: "start_controller ex_startup ex_user [] ex_world = (Up c, mux, w)"
    using ex_start[of ex_user] by (auto simp: ex_user_def)
  let ?s1 = "?i\<lparr>sg_loops := [(ex_user, Selecting)], sg_mux := mux\<rparr>"
  let ?s2 = "?s1\<lparr>sg_manager := GotConfig ?d, sg_updates := [?d]\<rparr>"
  have "signal_step ?i (Up ?s1)" using started[of ?i "[]" ex_user "[]" ex_startup ex_world c mux w] c by (simp add: signal_init_def)
  moreover have "signal_step ?s1 (Up ?s2)" using new_config[of ?s1 ?d] by (simp add: signal_init_def)
  ultimately have r: "signal_reachable ex_user [] (Up ?s2)" by (meson sg_init sg_step)
  then have "\<exists>s'. signal_leads ?s2 s' \<and> sg_loops s' = [(ex_user, Ended), (?d, Starting)]"
    using one_loop_at_a_time[OF r] by simp
  then obtain s' where "signal_leads ?s2 s'" "sg_loops s' = [(ex_user, Ended), (?d, Starting)]" by (elim exE conjE)
  with r show ?thesis by (intro exI[of _ ?s2] exI[of _ s'] conjI) (simp_all add: signal_init_def)
qed

end
