(* ===== verification/Spec2Isabelle.thy ===== *)
theory Spec2Isabelle
  imports Recycling Metric_Labels Resync_Period Config_Watcher Migrate_PV Helm_Values CSI_Proxy Programs Kubetest Stop_Signal
begin

text \<open>
  \<^bold>\<open>Verification of the local volume static provisioner\<close> (the Go code under \<open>src/\<close>).

  \<^bold>\<open>The program.\<close> The provisioner runs on every node of a Kubernetes cluster. It finds local disks below
  the discovery directories of its storage classes and publishes each as a PersistentVolume; when a
  volume is released it wipes the disk, in a goroutine of its own or in a job, and then deletes the
  object, so that discovery publishes the disk anew. A second program, node-cleanup, deletes the
  volumes and claims of nodes that are gone. Both talk to the API server and to informers, which
  are caches of its objects. Beside them the repository has two migration tools and a test driver.

  \<^bold>\<open>How code is modelled.\<close> Go structs are records, enumerations datatypes, Go maps association lists
  with distinct keys (\<open>gomap\<close>), strings character lists, \<open>int64\<close> and durations \<open>int\<close>, and errors the
  values of one datatype; a function that can fail returns a sum (\<open>Inl\<close> the error) and one that can
  panic an option (\<open>None\<close> the panic). State is passed explicitly. What a run does to the outside (API
  requests with their answers, events, metric updates, started goroutines, sleeps) is appended to a
  log, and everything the outside answers is a function of that log, so the theorems hold for every
  behaviour of API server, informers, file system and clock that is consistent with the log. Locks make
  the operations they protect atomic. Concurrency is explicit in the step relations \<open>sys_step\<close>,
  \<open>nc_step\<close>, \<open>prov_step\<close> and \<open>signal_step\<close>; the properties about them hold in every interleaving.

  \<^bold>\<open>Shared theories.\<close>
  \<^item> \<open>Prelude\<close>: results, errors, Go maps with the locale \<open>finite_store\<close>, strings and generic lemmas.
  \<^item> \<open>Kube_Types\<close>: the API objects the code uses. \<open>Listers\<close>: the listers over an informer's index,
    with the locale \<open>reflecting_lister\<close>, and label values. \<open>Names\<close>: the FNV hash of generated names.
    \<open>Paths\<close>: \<open>filepath.Join\<close>, \<open>Rel\<close> and \<open>Clean\<close>. \<open>Glob\<close>: \<open>filepath.Match\<close>.
  \<^item> \<open>Metrics\<close>: metric names and label values, \<open>pkg/metrics\<close>. \<open>World\<close>: the log, the outside, and the
    four requests of \<open>pkg/util/api_util.go\<close>.

  \<^bold>\<open>The provisioner.\<close>
  \<^item> \<open>Cache\<close> (\<open>pkg/cache/cache.go\<close>): the map of known volumes; locale \<open>pv_store\<close>.
  \<^item> \<open>Proc_Table\<close> (\<open>pkg/deleter/proctable.go\<close>): the table of cleanups and its mock; locale \<open>proc_table\<close>,
    and the accounting of cleanups over all runs.
  \<^item> \<open>Common\<close> (\<open>pkg/common/common.go\<close>): configuration and its defaults, the volume object, container
    paths, node checks. \<open>Volume_Util\<close> and \<open>CSI_Proxy\<close> (\<open>pkg/util\<close>): the file system operations on Linux,
    Windows and elsewhere, with the mock and both Windows clients; locales \<open>volume_util\<close>, \<open>csi_client\<close>.
  \<^item> \<open>Workqueue\<close> (\<open>client-go/util/workqueue\<close>, as vendored): the queue of the controllers; locale
    \<open>work_queue\<close>. \<open>Job_Controller\<close> (\<open>pkg/deleter/jobcontroller.go\<close>): cleaning jobs; locale \<open>job_controller\<close>.
  \<^item> \<open>Deleter\<close> (\<open>pkg/deleter/deleter.go\<close>): a reclaim pass and the cleanup goroutine. Shown: what a pass may
    touch, that an object is deleted only after a recorded success, the path that is wiped in either
    volume mode, when a pass panics, and when a cleaner command never ends, with the two line
    scanners on its output and the pipes between them.
  \<^item> \<open>Populator\<close> (\<open>pkg/populator\<close>): the informer's handlers; the cache refines the abstract map of the
    last objects.
  \<^item> \<open>Discovery\<close> (\<open>pkg/discovery\<close>) and \<open>Publication\<close>: a discovery pass, what it publishes and what it
    leaves alone, readiness, and the round trip from a published object back into the cache.
  \<^item> \<open>Node_Taint\<close> (\<open>pkg/node-taint\<close>, \<open>pkg/util/node_util.go\<close>): reading the node and removing its taint.
  \<^item> \<open>Controller\<close> (\<open>pkg/controller\<close>): start, one round, the loop, the restart, and the HTTP multiplexer
    with its panics. \<open>Stop_Signal\<close>: the handshake between the manager and the loop when a new
    configuration arrives, up to the second start, which ends the process. \<open>Config_Watcher\<close>
    (\<open>pkg/watcher\<close>): reloading over a store of maps and arrays, because the sharing of maps between
    the loaded and the remembered configuration decides which changes are seen.
  \<^item> \<open>System\<close>: loop, informer and cleanup goroutines interleaved: the life cycle of a volume, the
    agreement of process table and goroutines, when the goroutines make progress and when one hangs for
    good. With cleanups in goroutines
    every deletion of an object uses up a successful cleanup of its own that no later cleanup or
    publication came after. \<open>Recycling\<close>: the way back, that no reachable state loses a disk: where no cleaner
    command hangs, a released volume can always be wiped, deleted and published anew.
  \<^item> \<open>Metric_Labels\<close> and \<open>Capacity_Label\<close> (\<open>pkg/metrics\<close>): every metric update fits its declaration; the
    capacity label, computed in \<open>float64\<close>, against its documentation. \<open>Resync_Period\<close>: the resync period
    of the informers, likewise.

  \<^bold>\<open>The other programs.\<close>
  \<^item> \<open>Node_Cleanup\<close> (\<open>pkg/node-cleanup\<close>) and \<open>Node_Cleanup_System\<close>: the deleter's scan, the timers and
    the workers, first one at a time and then interleaved.
  \<^item> \<open>Programs\<close> (\<open>cmd/local-volume-provisioner\<close>, \<open>cmd/node-cleanup\<close>): both \<open>main\<close> functions, and the
    provisioner process with the watcher beside the system of \<open>System\<close>; the hand-over to a new
    configuration is one step there and spread out in \<open>Stop_Signal\<close>.
  \<^item> \<open>Migrate_PV\<close> (\<open>cmd/utils/update-pv-to-beta\<close>), \<open>Helm_Values\<close>
    (\<open>cmd/utils/update-helm-values-pre-v2.2.0\<close>), \<open>Kubetest\<close> (\<open>hack/e2e.go\<close>).

  \<^bold>\<open>Bounds and fuel.\<close> Loops over lists are structural; \<open>GetNode\<close> and the taint remover end by their retry
  counters. The endless loops take their number of turns as an argument: \<open>runWorker\<close> and \<open>NC_runWorker\<close>
  a bound on the items taken, and \<open>worker_drains_queue\<close> and \<open>orphaned_claim_eventually_deleted\<close> prove
  that a bound given by the length of the queue is enough; \<open>sync_loop\<close> and \<open>watch_rounds\<close> the list of what
  each turn finds, and the statements hold for all lists. The step relations need no bound.

  \<^bold>\<open>Not modelled.\<close> Logging and the text of log messages; the YAML and JSON codecs, the API server, the
  informers' transport, the CSI proxy's clients and the prometheus registry, which are libraries and
  parameters here; the event broadcaster, whose events are entries of the log; the flag parsers. Requests and calls of the file system are
  taken to return; only cleaner commands may hang. The \<open>wait\<close> function of the test driver only starts a process
  and passes signals on. Go's data races have no meaning in the model: where the code shares a
  map between goroutines without a lock (the configuration after a reload) the step relation is
  sequentially consistent.
\<close>

end
